(* ===== verification/Prelude.thy ===== *)
theory Prelude
  imports Main "HOL-Library.Word"
begin

text \<open>
  Shared vocabulary of the development: the proof-rule collections, byte and string
  conversions of Go (\<open>[]byte(s)\<close>, \<open>string(b)\<close>), Go's signed 64-bit \<open>int\<close>, error values,
  outcomes of operations that may block or panic, lower-case hexadecimal encoding
  (\<open>encoding/hex\<close>) and simple case folding.
\<close>

unbundle bit_operations_syntax

subsection \<open>Collections of facts\<close>

named_theorems wire_simps \<open>evaluation of readers and writers on byte streams\<close>
named_theorems chan_simps \<open>evaluation of channels, events and queues\<close>
named_theorems json_simps \<open>evaluation of the JSON scanner on printed text\<close>
named_theorems server_simps \<open>evaluation of the server-side handlers\<close>
named_theorems client_simps \<open>evaluation of the client-side handlers\<close>

subsection \<open>Errors and outcomes\<close>

text \<open>
  Go errors are values. \<open>EOF\<close> and \<open>ErrUnexpectedEOF\<close> are the sentinels of package
  \<open>io\<close>; \<open>ErrorMsg\<close> is \<open>errors.New\<close> or \<open>fmt.Errorf\<close> with its text; the two JSON
  errors are the families \<open>encoding/json\<close> returns; \<open>NetError\<close> is an error of the
  network or of another external system, identified by a text.
\<close>

datatype error =
    EOF
  | ErrUnexpectedEOF
  | ErrorMsg string
  | JSONSyntaxError
  | JSONTypeError
  | NetError string

text \<open>
  A call may return, block for ever in the current state (a send on a full channel), or
  panic (a send on a closed channel, a nil dereference).
\<close>

datatype 'a outcome = Ret 'a | Block | Panic

text \<open>
  \<open>err.Error()\<close>. The wording of the two JSON families depends on the offending input and
  is a parameter: \<open>wording\<close> gives the text of those errors.
\<close>

fun error_text :: "(error \<Rightarrow> string) \<Rightarrow> error \<Rightarrow> string" where
  "error_text wording EOF = ''EOF''"
| "error_text wording ErrUnexpectedEOF = ''unexpected EOF''"
| "error_text wording (ErrorMsg m) = m"
| "error_text wording (NetError m) = m"
| "error_text wording e = wording e"

subsection \<open>Bytes and strings\<close>

type_synonym byte = "8 word"
type_synonym bytes = "byte list"

text \<open>A Go string is a sequence of bytes, so the two conversions are inverse to each other.\<close>

definition byte_of_char :: "char \<Rightarrow> byte" where
  "byte_of_char c = of_nat (of_char c)"

definition char_of_byte :: "byte \<Rightarrow> char" where
  "char_of_byte b = char_of (unat b)"

definition bytes_of :: "string \<Rightarrow> bytes" where
  "bytes_of s = map byte_of_char s"

definition string_of :: "bytes \<Rightarrow> string" where
  "string_of b = map char_of_byte b"

lemma char_of_byte_of_char [simp]: "char_of_byte (byte_of_char c) = c"
  by (simp add: char_of_byte_def byte_of_char_def unat_of_nat take_bit_eq_mod)

lemma byte_of_char_of_byte [simp]: "byte_of_char (char_of_byte b) = b"
proof -
  have "unat b < 2 ^ LENGTH(8)" by (rule unsigned_less)
  then show ?thesis by (simp add: char_of_byte_def byte_of_char_def)
qed

lemma string_of_bytes_of [simp]: "string_of (bytes_of s) = s"
  by (simp add: string_of_def bytes_of_def o_def)

lemma bytes_of_string_of [simp]: "bytes_of (string_of b) = b"
  by (simp add: string_of_def bytes_of_def o_def)

lemma length_bytes_of [simp]: "length (bytes_of s) = length s"
  by (simp add: bytes_of_def)

lemma bytes_of_append [simp]: "bytes_of (s @ t) = bytes_of s @ bytes_of t"
  by (simp add: bytes_of_def)

lemma bytes_of_Nil [simp]: "bytes_of [] = []"
  by (simp add: bytes_of_def)

lemma bytes_of_inject [simp]: "bytes_of s = bytes_of t \<longleftrightarrow> s = t"
  by (metis string_of_bytes_of)

lemma bytes_of_eq_Nil [simp]: "bytes_of s = [] \<longleftrightarrow> s = []"
  by (simp add: bytes_of_def)

subsection \<open>Signed 64-bit integers\<close>

text \<open>
  Go's \<open>int\<close> (on the 64-bit targets the Makefile builds) and \<open>time.Duration\<close> are
  two's-complement 64-bit numbers. The model keeps the value as an \<open>int\<close> and wraps the
  result of an increment with \<open>int64\<close>.
\<close>

definition int64 :: "int \<Rightarrow> int" where
  "int64 x = (x + 2 ^ 63) mod 2 ^ 64 - 2 ^ 63"

definition MaxInt64 :: int where "MaxInt64 = 2 ^ 63 - 1"
definition MinInt64 :: int where "MinInt64 = - (2 ^ 63)"

definition is_int64 :: "int \<Rightarrow> bool" where
  "is_int64 x \<longleftrightarrow> MinInt64 \<le> x \<and> x \<le> MaxInt64"

lemma int64_id [simp]: "is_int64 x \<Longrightarrow> int64 x = x"
  by (simp add: int64_def is_int64_def MinInt64_def MaxInt64_def)

lemma is_int64_int64 [simp]: "is_int64 (int64 x)"
proof -
  have "0 \<le> (x + 2 ^ 63) mod 2 ^ 64" "(x + 2 ^ 63) mod 2 ^ 64 < 2 ^ 64"
    by simp_all
  then show ?thesis by (simp add: int64_def is_int64_def MinInt64_def MaxInt64_def)
qed

lemma int64_wraps: "int64 (MaxInt64 + 1) = MinInt64"
  by (simp add: int64_def MaxInt64_def MinInt64_def)

lemma int64_Suc: "0 \<le> x \<Longrightarrow> x < MaxInt64 \<Longrightarrow> int64 (x + 1) = x + 1"
  by (rule int64_id) (simp add: is_int64_def MinInt64_def MaxInt64_def)

subsection \<open>Hexadecimal text\<close>

definition hextable :: string where
  "hextable = ''0123456789abcdef''"

text \<open>\<open>hex.EncodeToString\<close>: two lower-case digits per byte, the high half first.\<close>

fun EncodeToString :: "bytes \<Rightarrow> string" where
  "EncodeToString [] = []"
| "EncodeToString (b # bs) =
     hextable ! (unat b div 16) # hextable ! (unat b mod 16) # EncodeToString bs"

lemma length_EncodeToString [simp]: "length (EncodeToString bs) = 2 * length bs"
  by (induction bs) auto

lemma unat_byte_less [simp]: "unat (b :: byte) < 256"
proof -
  have "unat b < 2 ^ LENGTH(8)" by (rule unsigned_less)
  then show ?thesis by simp
qed

lemma unat_byte_div_less [simp]: "unat (b :: byte) div 16 < 16"
  using unat_byte_less [of b] by (simp only: less_mult_imp_div_less)

lemma hex_nibble_in [simp]: "n < 16 \<Longrightarrow> hextable ! n \<in> set hextable"
  by (rule nth_mem) (simp add: hextable_def)

lemma set_EncodeToString: "set (EncodeToString bs) \<subseteq> set hextable"
proof (induction bs)
  case (Cons b bs)
  then show ?case by simp
qed simp

lemma distinct_hextable: "distinct hextable"
  by (simp add: hextable_def)

lemma length_hextable: "length hextable = 16"
  by (simp add: hextable_def)

lemma hex_byte_inj:
  assumes "hextable ! (unat b div 16) = hextable ! (unat c div 16)"
    and "hextable ! (unat b mod 16) = hextable ! (unat c mod 16)"
  shows "b = (c :: byte)"
proof -
  from assms have "unat b div 16 = unat c div 16" "unat b mod 16 = unat c mod 16"
    by (simp_all add: nth_eq_iff_index_eq [OF distinct_hextable] length_hextable)
  then have "unat b = unat c" by (metis div_mult_mod_eq)
  then show ?thesis by (rule unsigned_word_eqI)
qed

lemma EncodeToString_inject [simp]: "EncodeToString bs = EncodeToString cs \<longleftrightarrow> bs = cs"
proof (induction bs arbitrary: cs)
  case Nil
  then show ?case by (cases cs) auto
next
  case (Cons b bs)
  then show ?case by (cases cs) (auto dest: hex_byte_inj)
qed

subsection \<open>Simple case folding\<close>

text \<open>
  \<open>strings.EqualFold\<close> and the field matching of \<open>encoding/json\<close> compare under Unicode
  simple folding. Against an ASCII text, the only non-ASCII characters that can match are
  U+017F (bytes C5 BF, folds with S) and U+212A (bytes E2 84 AA, folds with K). Both uses
  in the program have an ASCII side (a hexadecimal digest, the tag of a struct field), and
  there comparing these canonical forms is exactly that relation.
\<close>

definition upper_ascii :: "char \<Rightarrow> char" where
  "upper_ascii c = (let n = of_char c :: nat
     in if 97 \<le> n \<and> n \<le> 122 then char_of (n - 32) else c)"

fun fold_name :: "string \<Rightarrow> string" where
  "fold_name [] = []"
| "fold_name (c # cs) =
     (case cs of
        d # ds \<Rightarrow>
          if c = CHR 0xC5 \<and> d = CHR 0xBF then CHR ''S'' # fold_name ds
          else (case ds of
              e # es \<Rightarrow>
                if c = CHR 0xE2 \<and> d = CHR 0x84 \<and> e = CHR 0xAA then CHR ''K'' # fold_name es
                else upper_ascii c # fold_name cs
            | [] \<Rightarrow> upper_ascii c # fold_name cs)
      | [] \<Rightarrow> [upper_ascii c])"

definition EqualFold :: "string \<Rightarrow> string \<Rightarrow> bool" where
  "EqualFold s t \<longleftrightarrow> fold_name s = fold_name t"

lemma EqualFold_refl [simp]: "EqualFold s s"
  by (simp add: EqualFold_def)

lemma EqualFold_sym: "EqualFold s t \<longleftrightarrow> EqualFold t s"
  by (auto simp: EqualFold_def)

subsection \<open>Maps\<close>

lemma map_upd_apply_eq: "(m(k \<mapsto> v)) k' = (if k' = k then Some v else m k')"
  by simp

lemma map_add_Some_cases:
  "(m ++ n) k = Some v \<longleftrightarrow> n k = Some v \<or> n k = None \<and> m k = Some v"
  by (simp add: map_add_Some_iff)

end
