(* ===== verification/Go_Chan.thy ===== *)
theory Go_Chan
  imports Prelude
begin

text \<open>
  Buffered Go channels, \<open>sync.Once\<close>, and the one-shot \<open>Event\<close> of \<open>event.go\<close> built from
  them. A send on a closed channel and a second \<open>close\<close> panic; a send on a full channel
  and a receive on an empty open one block. The locale \<open>fifo\<close> is the contract a buffered
  channel gives its users; the message queue and the write queue of a connection rely on it.
\<close>

subsection \<open>Channels\<close>

record 'a gochan =
  cbuf :: "'a list"
  ccap :: nat
  cclosed :: bool

definition make_chan :: "nat \<Rightarrow> 'a gochan" where
  "make_chan n = \<lparr>cbuf = [], ccap = n, cclosed = False\<rparr>"

definition chan_send :: "'a \<Rightarrow> 'a gochan \<Rightarrow> 'a gochan outcome" where
  "chan_send v c =
     (if cclosed c then Panic
      else if length (cbuf c) < ccap c then Ret (c\<lparr>cbuf := cbuf c @ [v]\<rparr>)
      else Block)"

text \<open>\<open>v, ok := <-c\<close>: \<open>None\<close> is the zero value with \<open>ok\<close> false, on a closed and drained channel.\<close>

definition chan_recv :: "'a gochan \<Rightarrow> ('a option \<times> 'a gochan) outcome" where
  "chan_recv c =
     (case cbuf c of
        v # vs \<Rightarrow> Ret (Some v, c\<lparr>cbuf := vs\<rparr>)
      | [] \<Rightarrow> if cclosed c then Ret (None, c) else Block)"

definition chan_close :: "'a gochan \<Rightarrow> 'a gochan outcome" where
  "chan_close c = (if cclosed c then Panic else Ret (c\<lparr>cclosed := True\<rparr>))"

definition chan_ok :: "'a gochan \<Rightarrow> bool" where
  "chan_ok c \<longleftrightarrow> length (cbuf c) \<le> ccap c"

subsection \<open>The contract of a bounded queue\<close>

text \<open>
  \<open>put\<close> and \<open>get\<close> over a state, \<open>pending\<close> the values accepted and not yet taken. A run of
  the queue is any sequence of the two; whatever the interleaving, the values come out in
  the order they went in, none lost, none twice.
\<close>

datatype 'v qop = QPut 'v | QGet

fun queue_run :: "('v \<Rightarrow> 's \<Rightarrow> 's outcome) \<Rightarrow> ('s \<Rightarrow> ('v option \<times> 's) outcome) \<Rightarrow> 'v qop list \<Rightarrow> 's
    \<Rightarrow> ('v list \<times> 'v list \<times> 's) option" where
  "queue_run put get [] s = Some ([], [], s)"
| "queue_run put get (QPut v # ops) s =
     (case put v s of
        Ret s' \<Rightarrow> map_option (\<lambda>(i, out, t). (v # i, out, t)) (queue_run put get ops s')
      | _ \<Rightarrow> None)"
| "queue_run put get (QGet # ops) s =
     (case get s of
        Ret (Some v, s') \<Rightarrow> map_option (\<lambda>(i, out, t). (i, v # out, t)) (queue_run put get ops s')
      | Ret (None, s') \<Rightarrow> queue_run put get ops s'
      | _ \<Rightarrow> None)"

text \<open>The two lists are the values put and the values got.\<close>

locale fifo =
  fixes put :: "'v \<Rightarrow> 's \<Rightarrow> 's outcome"
    and get :: "'s \<Rightarrow> ('v option \<times> 's) outcome"
    and pending :: "'s \<Rightarrow> 'v list"
    and open_q :: "'s \<Rightarrow> bool"
  assumes put_pending: "put v s = Ret s' \<Longrightarrow> open_q s \<Longrightarrow> pending s' = pending s @ [v] \<and> open_q s'"
    and get_pending: "get s = Ret (Some v, s') \<Longrightarrow> pending s = v # pending s' \<and> open_q s' = open_q s"
    and get_none: "get s = Ret (None, s') \<Longrightarrow> pending s = [] \<and> s' = s"
    and get_total: "pending s \<noteq> [] \<Longrightarrow> \<exists>v s'. get s = Ret (Some v, s')"
begin

lemma queue_run_fifo:
  "queue_run put get ops s = Some (i, out, t) \<Longrightarrow> open_q s \<Longrightarrow> pending s @ i = out @ pending t \<and> open_q t"
proof (induction ops arbitrary: s i out)
  case Nil
  then show ?case by simp
next
  case (Cons op ops)
  show ?case
  proof (cases op)
    case (QPut v)
    with Cons.prems obtain s' a where "put v s = Ret s'" "queue_run put get ops s' = Some (a, out, t)" "i = v # a"
      by (auto split: outcome.splits)
    with Cons.prems(2) Cons.IH [of s' a out] put_pending [of v s s'] show ?thesis by simp
  next
    case QGet
    with Cons show ?thesis
      by (auto split: outcome.splits option.splits prod.splits dest!: get_pending get_none)
  qed
qed

lemma drain_all: "\<exists>t. queue_run put get (replicate (length (pending s)) QGet) s = Some ([], pending s, t)"
proof (induction "pending s" arbitrary: s)
  case Nil
  then show ?case by (metis list.size(3) queue_run.simps(1) replicate_0)
next
  case (Cons v vs)
  then have "pending s \<noteq> []" by (metis list.distinct(1))
  then obtain u s' where g: "get s = Ret (Some u, s')" using get_total by blast
  with get_pending Cons(2) have "u = v" "vs = pending s'" by fastforce+
  with Cons(1) [of s'] obtain t where "queue_run put get (replicate (length vs) QGet) s' = Some ([], vs, t)" by auto
  with g \<open>u = v\<close> Cons(2) [symmetric] show ?case by auto
qed

end

lemma chan_send_Ret:
  "chan_send v c = Ret c' \<longleftrightarrow> \<not> cclosed c \<and> length (cbuf c) < ccap c \<and> c' = c\<lparr>cbuf := cbuf c @ [v]\<rparr>"
  by (auto simp: chan_send_def)

lemma chan_recv_Ret:
  "chan_recv c = Ret (Some v, c') \<longleftrightarrow> (\<exists>vs. cbuf c = v # vs \<and> c' = c\<lparr>cbuf := vs\<rparr>)"
  "chan_recv c = Ret (None, c') \<longleftrightarrow> cbuf c = [] \<and> cclosed c \<and> c' = c"
  by (auto simp: chan_recv_def split: list.splits)

interpretation chanq: fifo chan_send chan_recv cbuf "\<lambda>c. \<not> cclosed c"
  by unfold_locales (auto simp: chan_send_Ret chan_recv_Ret neq_Nil_conv)

lemma chan_ok_steps:
  "chan_ok (make_chan n)"
  "chan_ok c \<Longrightarrow> chan_send v c = Ret c' \<Longrightarrow> chan_ok c'"
  "chan_ok c \<Longrightarrow> chan_recv c = Ret (w, c') \<Longrightarrow> chan_ok c'"
  "chan_ok c \<Longrightarrow> chan_close c = Ret c' \<Longrightarrow> chan_ok c'"
  by (cases w; auto simp: chan_ok_def make_chan_def chan_send_Ret chan_recv_Ret chan_close_def split: if_splits)+

subsection \<open>One-shot events\<close>

text \<open>\<open>once_do f s\<close> is \<open>o.Do(f)\<close>: the body runs on the first call only.\<close>

definition once_do :: "bool \<Rightarrow> ('s \<Rightarrow> 's outcome) \<Rightarrow> 's \<Rightarrow> 's outcome" where
  "once_do done_before f s = (if done_before then Ret s else f s)"

record Event =
  fired :: int
  ev_c :: "unit gochan"
  ev_o :: bool

definition NewEvent :: Event where
  "NewEvent = \<lparr>fired = 0, ev_c = make_chan 0, ev_o = False\<rparr>"

definition Fire :: "Event \<Rightarrow> (bool \<times> Event) outcome" where
  "Fire e =
     once_do (ev_o e)
       (\<lambda>(ret, e). case chan_close (ev_c e) of
           Ret c \<Rightarrow> Ret (True, e\<lparr>fired := 1, ev_c := c, ev_o := True\<rparr>)
         | _ \<Rightarrow> Panic)
       (False, e)"

definition HasFired :: "Event \<Rightarrow> bool" where
  "HasFired e \<longleftrightarrow> fired e = 1"

text \<open>\<open>Done()\<close> returns the signalling channel; it is ready to receive once the channel is closed.\<close>

definition Done :: "Event \<Rightarrow> unit gochan" where
  "Done e = ev_c e"

definition done_ready :: "Event \<Rightarrow> bool" where
  "done_ready e \<longleftrightarrow> chan_recv (Done e) \<noteq> Block"

definition event_inv :: "Event \<Rightarrow> bool" where
  "event_inv e \<longleftrightarrow> cbuf (ev_c e) = [] \<and> fired e = (if ev_o e then 1 else 0) \<and> cclosed (ev_c e) = ev_o e"

lemma event_inv_New [simp]: "event_inv NewEvent" "\<not> HasFired NewEvent" "\<not> ev_o NewEvent"
  by (simp_all add: event_inv_def NewEvent_def make_chan_def HasFired_def)

lemma Fire_Ret:
  assumes "event_inv e"
  shows "\<exists>e'. Fire e = Ret (\<not> HasFired e, e') \<and> event_inv e' \<and> HasFired e' \<and> done_ready e'"
  using assms
  by (auto simp: Fire_def once_do_def event_inv_def HasFired_def done_ready_def Done_def chan_close_def chan_recv_def)

lemma done_ready_iff: "event_inv e \<Longrightarrow> done_ready e \<longleftrightarrow> HasFired e"
  by (auto simp: event_inv_def done_ready_def Done_def HasFired_def chan_recv_def)

text \<open>Any number of calls of \<open>Fire\<close>, one after the other.\<close>

fun fires :: "nat \<Rightarrow> Event \<Rightarrow> (bool list \<times> Event) outcome" where
  "fires 0 e = Ret ([], e)"
| "fires (Suc n) e =
     (case Fire e of
        Ret (r, e') \<Rightarrow> (case fires n e' of Ret (rs, e'') \<Rightarrow> Ret (r # rs, e'') | Block \<Rightarrow> Block | Panic \<Rightarrow> Panic)
      | Block \<Rightarrow> Block | Panic \<Rightarrow> Panic)"

lemma fires_after:
  "event_inv e \<Longrightarrow> HasFired e \<Longrightarrow> \<exists>e'. fires n e = Ret (replicate n False, e') \<and> event_inv e' \<and> HasFired e'"
proof (induction n arbitrary: e)
  case (Suc n)
  with Fire_Ret [of e] obtain e' where "Fire e = Ret (False, e')" "event_inv e'" "HasFired e'" by auto
  with Suc.IH [of e'] show ?case by auto
qed simp

text \<open>
  Of any positive number of calls of \<open>Fire\<close> on a new event exactly the first returns true,
  none panics (the signalling channel is closed once), and afterwards \<open>HasFired\<close> holds and
  \<open>Done\<close> is ready; before the first call neither is the case.
\<close>

theorem Fire_true_once:
  "\<exists>e. fires (Suc n) NewEvent = Ret (True # replicate n False, e) \<and> HasFired e \<and> done_ready e
     \<and> \<not> HasFired NewEvent \<and> \<not> done_ready NewEvent"
proof -
  obtain e where e: "Fire NewEvent = Ret (True, e)" "event_inv e" "HasFired e"
    using Fire_Ret [of NewEvent] by auto
  with fires_after [of e n] show ?thesis
    by (auto simp: done_ready_iff)
qed

end
