(* ===== verification/Go_Time.thy ===== *)
theory Go_Time
  imports Prelude
begin

text \<open>
  The part of package \<open>time\<close> the program uses. A \<open>time.Time\<close> is a wall-clock instant
  (nanoseconds since the zero time, year 1 UTC), possibly a monotonic clock reading, and a
  location pointer; \<open>==\<close> on \<open>time.Time\<close>, and so the key comparison of a Go map,
  compares all three. A \<open>time.Duration\<close> is a signed 64-bit number of nanoseconds.
  Every call of \<open>time.Now()\<close> in the source is an argument of the model's function.
\<close>

type_synonym duration = int

text \<open>
  A location is a pointer: \<open>UTC\<close>, the \<open>Local\<close> zone that \<open>time.Now()\<close> uses, or a zone with a fixed
  offset in seconds, made when a text is parsed and told apart by its address.
\<close>

datatype location = UTC | Local | Fixed int nat

record go_time =
  wall :: int
  mono :: "int option"
  loc :: location

definition Second :: duration where "Second = 1000000000"
definition Minute :: duration where "Minute = 60000000000"
definition Hour :: duration where "Hour = 3600000000000"

lemmas durations = Second_def Minute_def Hour_def

definition zero_time :: go_time where
  "zero_time = \<lparr>wall = 0, mono = None, loc = UTC\<rparr>"

definition IsZero :: "go_time \<Rightarrow> bool" where
  "IsZero t \<longleftrightarrow> wall t = 0"

text \<open>\<open>t.Sub(u)\<close> saturates at the limits of \<open>Duration\<close>.\<close>

definition clamp64 :: "int \<Rightarrow> duration" where
  "clamp64 d = max MinInt64 (min MaxInt64 d)"

definition time_sub :: "go_time \<Rightarrow> go_time \<Rightarrow> duration" where
  "time_sub t u =
     (case (mono t, mono u) of
        (Some a, Some b) \<Rightarrow> clamp64 (a - b)
      | _ \<Rightarrow> clamp64 (wall t - wall u))"

definition time_add :: "go_time \<Rightarrow> duration \<Rightarrow> go_time" where
  "time_add t d = t\<lparr>wall := wall t + d, mono := map_option (\<lambda>m. m + d) (mono t)\<rparr>"

definition After :: "go_time \<Rightarrow> go_time \<Rightarrow> bool" where
  "After t u \<longleftrightarrow>
     (case (mono t, mono u) of
        (Some a, Some b) \<Rightarrow> b < a
      | _ \<Rightarrow> wall u < wall t)"

text \<open>\<open>t.Truncate(d)\<close> strips the monotonic reading and rounds down to a multiple of \<open>d\<close>.\<close>

definition Truncate :: "go_time \<Rightarrow> duration \<Rightarrow> go_time" where
  "Truncate t d = (let s = t\<lparr>mono := None\<rparr>
     in if d \<le> 0 then s else s\<lparr>wall := wall s - wall s mod d\<rparr>)"

lemma Truncate_Minute:
  "Truncate t Minute = \<lparr>wall = Minute * (wall t div Minute), mono = None, loc = loc t\<rparr>"
  by (cases t) (simp add: Truncate_def Let_def Minute_def minus_mod_eq_mult_div)

lemma Truncate_eq_iff:
  "Truncate t Minute = Truncate u Minute \<longleftrightarrow> wall t div Minute = wall u div Minute \<and> loc t = loc u"
  unfolding Truncate_Minute by (simp add: Minute_def)

lemma Truncate_idem [simp]: "Truncate (Truncate t Minute) Minute = Truncate t Minute"
  unfolding Truncate_Minute by (simp add: Minute_def)

lemma Truncate_loc [simp]: "Truncate (t\<lparr>loc := l\<rparr>) d = (Truncate t d)\<lparr>loc := l\<rparr>" "loc (Truncate t d) = loc t"
  by (cases t, simp add: Truncate_def Let_def)+

lemma IsZero_zero_time [simp]: "IsZero zero_time"
  by (simp add: IsZero_def zero_time_def)

lemma clamp64_bounds: "MinInt64 \<le> clamp64 d" "clamp64 d \<le> MaxInt64"
  by (simp_all add: clamp64_def MinInt64_def MaxInt64_def)

lemma clamp64_less_iff: "MinInt64 < k \<Longrightarrow> k \<le> MaxInt64 \<Longrightarrow> clamp64 d < k \<longleftrightarrow> d < k"
  by (auto simp: clamp64_def min_def max_def)

lemma clamp64_ge_iff: "MinInt64 < k \<Longrightarrow> k \<le> MaxInt64 \<Longrightarrow> k \<le> clamp64 d \<longleftrightarrow> k \<le> d"
  by (auto simp: clamp64_def min_def max_def)

lemma Second_in_range [simp]: "MinInt64 < Second" "Second \<le> MaxInt64" "Minute \<le> MaxInt64" "MinInt64 < Minute"
  by (simp_all add: durations MinInt64_def MaxInt64_def)

text \<open>Two readings of the process clock: both monotonic, in order.\<close>

definition clock_le :: "go_time \<Rightarrow> go_time \<Rightarrow> bool" where
  "clock_le t u \<longleftrightarrow> (case (mono t, mono u) of (Some a, Some b) \<Rightarrow> a \<le> b | _ \<Rightarrow> False)"

text \<open>A submission interval of at least a second, on the clocks the two readings share.\<close>

lemma time_sub_Second:
  "\<not> time_sub t u < Second \<longleftrightarrow>
     (case (mono t, mono u) of (Some a, Some b) \<Rightarrow> b + Second \<le> a | _ \<Rightarrow> wall u + Second \<le> wall t)"
  by (auto simp: time_sub_def clamp64_less_iff split: option.splits)

end
