(* ===== verification/Types.thy ===== *)
theory Types
  imports Go_Chan Go_Time
begin

text \<open>
  \<open>app/server/types.go\<close> and \<open>events/events.go\<close>: sessions, job records, the coordinator's
  state, and the interfaces it works against. A Go interface value is a table of methods
  together with an object; the methods are a record of functions over the object's state.
  The statistics store and the state store are one object (\<open>main.go\<close> passes the same pointer
  twice), so they share the field \<open>backend\<close>. The locales say what the server relies on; each
  implementation interprets them in its own theory.
\<close>

subsection \<open>Data\<close>

record SubmitEvent =
  ev_Username :: string
  ev_Time :: go_time

record JobRecord =
  Nonce :: string
  CreatedAt :: go_time

definition zero_JobRecord :: JobRecord where
  "zero_JobRecord = \<lparr>Nonce = [], CreatedAt = zero_time\<rparr>"

record Session =
  ChannelID :: string
  Username :: string
  LatestJobID :: int
  LatestServerNonce :: string
  LastSubmitAt :: go_time
  UsedNonces :: "int \<rightharpoonup> string set"

subsection \<open>Interfaces\<close>

record 'p ServerPusher =
  sp_Push :: "string \<Rightarrow> bytes \<Rightarrow> 'p \<Rightarrow> (error option \<times> 'p) outcome"

record 's StatsStore =
  Increment :: "string \<Rightarrow> go_time \<Rightarrow> 's \<Rightarrow> error option \<times> 's"
  Get :: "string \<Rightarrow> go_time \<Rightarrow> 's \<Rightarrow> error + int"
  store_Close :: "'s \<Rightarrow> error option \<times> 's"

text \<open>\<open>LoadJobHistory\<close> reads the clock: its first argument is that reading.\<close>

record 's StateStore =
  SaveJob :: "int \<Rightarrow> string \<Rightarrow> go_time \<Rightarrow> 's \<Rightarrow> error option \<times> 's"
  LoadLatestJob :: "'s \<Rightarrow> error + int \<times> string \<times> go_time"
  LoadJobHistory :: "go_time \<Rightarrow> duration \<Rightarrow> 's \<Rightarrow> error + (int \<rightharpoonup> JobRecord)"
  LoadUserState :: "string \<Rightarrow> 's \<Rightarrow> error + int \<times> string \<times> go_time"
  SaveUserState :: "string \<Rightarrow> int \<Rightarrow> string \<Rightarrow> go_time \<Rightarrow> 's \<Rightarrow> error option \<times> 's"
  SaveUsedNonce :: "string \<Rightarrow> int \<Rightarrow> string \<Rightarrow> 's \<Rightarrow> error option \<times> 's"
  HasUsedNonce :: "string \<Rightarrow> int \<Rightarrow> string \<Rightarrow> 's \<Rightarrow> error + bool"
  state_Close :: "'s \<Rightarrow> error option \<times> 's"

text \<open>\<open>q_Recv\<close> is a receive from the channel \<open>Subscribe\<close> returns.\<close>

record 'q MessageQueue =
  Publish :: "SubmitEvent \<Rightarrow> 'q \<Rightarrow> (error option \<times> 'q) outcome"
  q_Recv :: "'q \<Rightarrow> (SubmitEvent option \<times> 'q) outcome"
  q_Close :: "'q \<Rightarrow> (error option \<times> 'q) outcome"

record ('p, 's, 'q) Coordinator =
  sessions :: "string \<rightharpoonup> Session"
  jobID :: int
  serverNonce :: string
  nonceInterval :: duration
  historyWindow :: duration
  srv :: "'p ServerPusher"
  srv_obj :: 'p
  store :: "'s StatsStore"
  state :: "'s StateStore option"
  backend :: 's
  mq :: "'q MessageQueue"
  mq_obj :: 'q
  history :: "int \<rightharpoonup> JobRecord"
  expireAfter :: duration
  stopCh :: "unit gochan"

subsection \<open>The statistics contract\<close>

text \<open>
  \<open>slot\<close> names the minute a time is counted under. The count of a user and a minute is the
  number of increments made for them, as a Go \<open>int\<close>.
\<close>

primrec increments :: "'s StatsStore \<Rightarrow> SubmitEvent list \<Rightarrow> 's \<Rightarrow> 's" where
  "increments ops [] s = s"
| "increments ops (e # es) s = increments ops es (snd (Increment ops (ev_Username e) (ev_Time e) s))"

definition hits :: "(go_time \<Rightarrow> 'k) \<Rightarrow> string \<Rightarrow> go_time \<Rightarrow> SubmitEvent list \<Rightarrow> nat" where
  "hits slot u t es = length (filter (\<lambda>e. ev_Username e = u \<and> slot (ev_Time e) = slot t) es)"

lemma hits_append [simp]: "hits slot u t (es @ fs) = hits slot u t es + hits slot u t fs"
  by (simp add: hits_def)

locale stats_store =
  fixes ops :: "'s StatsStore"
    and slot :: "go_time \<Rightarrow> 'k"
    and fresh :: 's
  assumes get_fresh: "Get ops u t fresh = Inr 0"
    and increment_ok: "fst (Increment ops u t s) = None"
    and get_increment: "Get ops u t s = Inr n \<Longrightarrow> Get ops u t (snd (Increment ops u' t' s))
      = Inr (if u = u' \<and> slot t = slot t' then int64 (n + 1) else n)"
begin

lemma int64_step: "int64 (int64 n + m) = int64 (n + m)"
proof -
  have "((n + 2 ^ 63) mod 2 ^ 64 + m) mod (2 ^ 64 :: int) = (n + 2 ^ 63 + m) mod 2 ^ 64" by (rule mod_add_left_eq)
  then show ?thesis by (simp add: int64_def algebra_simps)
qed

lemma get_increments_from:
  "Get ops u t s = Inr n \<Longrightarrow> is_int64 n \<Longrightarrow> Get ops u t (increments ops es s) = Inr (int64 (n + int (hits slot u t es)))"
proof (induction es arbitrary: s n)
  case (Cons e es)
  let ?n = "if u = ev_Username e \<and> slot t = slot (ev_Time e) then int64 (n + 1) else n"
  have "Get ops u t (snd (Increment ops (ev_Username e) (ev_Time e) s)) = Inr ?n"
    by (rule get_increment [OF Cons.prems(1)])
  moreover have "is_int64 ?n" using Cons.prems(2) by simp
  ultimately have "Get ops u t (increments ops (e # es) s) = Inr (int64 (?n + int (hits slot u t es)))"
    using Cons.IH by simp
  then show ?case by (auto simp: hits_def int64_step algebra_simps)
qed (simp add: hits_def)

lemma get_increments: "Get ops u t (increments ops es fresh) = Inr (int64 (int (hits slot u t es)))"
  using get_increments_from [OF get_fresh, of u t es] by (simp add: is_int64_def MinInt64_def MaxInt64_def)

end

subsection \<open>The state contract\<close>

text \<open>
  What the server saves it can load: the last job, the jobs of a window (all of them for the
  window 0), the last state of each user, the nonces a user has used; saving one kind of
  record does not disturb the others.
\<close>

locale state_store =
  fixes ops :: "'s StateStore"
    and jobs :: "'s \<Rightarrow> int \<rightharpoonup> JobRecord"
    and user :: "string \<Rightarrow> 's \<Rightarrow> int \<times> string \<times> go_time"
    and nonces :: "'s \<Rightarrow> (string \<times> int \<times> string) set"
  assumes saves_ok: "fst (SaveJob ops j n t s) = None" "fst (SaveUserState ops u j n t s) = None"
      "fst (SaveUsedNonce ops u j n s) = None"
    and latest_save: "LoadLatestJob ops (snd (SaveJob ops j n t s)) = Inr (j, n, t)"
    and latest_frame: "LoadLatestJob ops (snd (SaveUserState ops u j n t s)) = LoadLatestJob ops s"
      "LoadLatestJob ops (snd (SaveUsedNonce ops u j n s)) = LoadLatestJob ops s"
    and history_all: "LoadJobHistory ops now 0 s = Inr (jobs s)"
    and history_window: "\<exists>h. LoadJobHistory ops now w s = Inr h \<and> h \<subseteq>\<^sub>m jobs s"
    and jobs_save: "jobs (snd (SaveJob ops j n t s)) = (jobs s)(j \<mapsto> \<lparr>Nonce = n, CreatedAt = t\<rparr>)"
    and jobs_frame: "jobs (snd (SaveUserState ops u j n t s)) = jobs s" "jobs (snd (SaveUsedNonce ops u j n s)) = jobs s"
    and user_load: "LoadUserState ops u s = Inr (user u s)"
    and user_save: "user v (snd (SaveUserState ops u j n t s)) = (if v = u then (j, n, t) else user v s)"
    and user_frame: "user v (snd (SaveJob ops j n t s)) = user v s" "user v (snd (SaveUsedNonce ops u j n s)) = user v s"
    and used_load: "HasUsedNonce ops u j n s = Inr ((u, j, n) \<in> nonces s)"
    and used_save: "nonces (snd (SaveUsedNonce ops u j n s)) = insert (u, j, n) (nonces s)"
    and used_frame: "nonces (snd (SaveJob ops j n t s)) = nonces s" "nonces (snd (SaveUserState ops u j n t s)) = nonces s"
begin

lemma used_after_save: "HasUsedNonce ops v i m (snd (SaveUsedNonce ops u j n s))
  = Inr ((v, i, m) = (u, j, n) \<or> (v, i, m) \<in> nonces s)"
  by (simp add: used_load used_save)

lemma load_user_after_save:
  "LoadUserState ops u (snd (SaveUserState ops u j n t (snd (SaveUsedNonce ops u j' n' s)))) = Inr (j, n, t)"
  by (simp add: user_load user_save)

end

subsection \<open>The contract of the pusher\<close>

text \<open>
  \<open>inbox\<close> is what has been accepted for a channel. A push that succeeds adds its payload to
  the one channel it names; a push that reports an error adds nothing anywhere.
\<close>

fun push_each :: "'p ServerPusher \<Rightarrow> bytes \<Rightarrow> string list \<Rightarrow> 'p \<Rightarrow> 'p outcome" where
  "push_each ops dat [] p = Ret p"
| "push_each ops dat (i # is) p =
     (case sp_Push ops i dat p of Ret (_, p') \<Rightarrow> push_each ops dat is p' | Block \<Rightarrow> Block | Panic \<Rightarrow> Panic)"

locale pusher =
  fixes ops :: "'p ServerPusher"
    and inbox :: "string \<Rightarrow> 'p \<Rightarrow> bytes list"
    and live :: "string \<Rightarrow> 'p \<Rightarrow> bool"
  assumes push_live: "live i p \<Longrightarrow> sp_Push ops i dat p = Ret (r, p') \<Longrightarrow>
      r = None \<and> inbox k p' = (if k = i then inbox k p @ [dat] else inbox k p)"
    and push_dead: "\<not> live i p \<Longrightarrow> sp_Push ops i dat p = Ret (r, p') \<Longrightarrow> r \<noteq> None \<and> p' = p"
    and push_keeps: "sp_Push ops i dat p = Ret (r, p') \<Longrightarrow> live k p' = live k p"
begin

lemma push_each_inbox:
  "push_each ops dat is p = Ret p' \<Longrightarrow> distinct is \<Longrightarrow>
   inbox k p' = inbox k p @ (if k \<in> set is \<and> live k p then [dat] else [])"
proof (induction "is" arbitrary: p)
  case (Cons i "is")
  then obtain r q where q: "sp_Push ops i dat p = Ret (r, q)" "push_each ops dat is q = Ret p'"
    by (auto split: outcome.splits)
  have l: "live k q = live k p" by (rule push_keeps [OF q(1)])
  have "inbox k p' = inbox k q @ (if k \<in> set is \<and> live k q then [dat] else [])"
    using Cons.IH [OF q(2)] Cons.prems by simp
  moreover have "inbox k q = (if k = i \<and> live i p then inbox k p @ [dat] else inbox k p)"
  proof (cases "live i p")
    case True
    with push_live [OF True q(1), of k] show ?thesis by auto
  next
    case False
    with push_dead [OF False q(1)] show ?thesis by auto
  qed
  ultimately show ?case using Cons.prems(2) l by auto
qed simp

end

end
