(* ===== verification/Go_Json.thy ===== *)
theory Go_Json
  imports Prelude
begin

text \<open>
  The part of \<open>encoding/json\<close> the program uses: the grammar the scanner accepts, the
  decoding of strings and integers, and the encoding of strings, integers and objects as
  \<open>json.Marshal\<close> prints them. A parsed object keeps, beside each value, the text of the
  value as it stood in the input, because \<open>json.RawMessage\<close> stores exactly that text.
  The lemmas give the round trip of every printed form.
\<close>

datatype json =
    JNull
  | JBool bool
  | JNum string
  | JStr string
  | JArr "json list"
  | JObj "(string \<times> string \<times> json) list"

abbreviation quote_char :: char where "quote_char \<equiv> CHR 0x22"
abbreviation backslash_char :: char where "backslash_char \<equiv> CHR 0x5C"

definition is_ws :: "char \<Rightarrow> bool" where
  "is_ws c \<longleftrightarrow> c = CHR '' '' \<or> c = CHR 0x09 \<or> c = CHR 0x0A \<or> c = CHR 0x0D"

fun skip_ws :: "string \<Rightarrow> string" where
  "skip_ws [] = []"
| "skip_ws (c # s) = (if is_ws c then skip_ws s else c # s)"

subsection \<open>UTF-8\<close>

definition in_range :: "nat \<Rightarrow> nat \<Rightarrow> char \<Rightarrow> bool" where
  "in_range lo hi c \<longleftrightarrow> lo \<le> of_char c \<and> of_char c \<le> hi"

text \<open>
  \<open>utf8.DecodeRune\<close>: the number of bytes of the encoded character a text starts with, 0 where
  the bytes are not valid UTF-8 (Go then takes one byte and the replacement character).
\<close>

definition two_bytes :: "char \<Rightarrow> char \<Rightarrow> bool" where
  "two_bytes c0 c1 \<longleftrightarrow> in_range 0xC2 0xDF c0 \<and> in_range 0x80 0xBF c1"

definition three_bytes :: "char \<Rightarrow> char \<Rightarrow> char \<Rightarrow> bool" where
  "three_bytes c0 c1 c2 \<longleftrightarrow>
     (c0 = CHR 0xE0 \<and> in_range 0xA0 0xBF c1 \<or> in_range 0xE1 0xEC c0 \<and> in_range 0x80 0xBF c1
      \<or> c0 = CHR 0xED \<and> in_range 0x80 0x9F c1 \<or> in_range 0xEE 0xEF c0 \<and> in_range 0x80 0xBF c1)
     \<and> in_range 0x80 0xBF c2"

definition four_bytes :: "char \<Rightarrow> char \<Rightarrow> char \<Rightarrow> char \<Rightarrow> bool" where
  "four_bytes c0 c1 c2 c3 \<longleftrightarrow>
     (c0 = CHR 0xF0 \<and> in_range 0x90 0xBF c1 \<or> in_range 0xF1 0xF3 c0 \<and> in_range 0x80 0xBF c1
      \<or> c0 = CHR 0xF4 \<and> in_range 0x80 0x8F c1)
     \<and> in_range 0x80 0xBF c2 \<and> in_range 0x80 0xBF c3"

definition rune_width :: "string \<Rightarrow> nat" where
  "rune_width s =
     (if s = [] then 0
      else if in_range 0x00 0x7F (s ! 0) then 1
      else if 2 \<le> length s \<and> two_bytes (s ! 0) (s ! 1) then 2
      else if 3 \<le> length s \<and> three_bytes (s ! 0) (s ! 1) (s ! 2) then 3
      else if 4 \<le> length s \<and> four_bytes (s ! 0) (s ! 1) (s ! 2) (s ! 3) then 4
      else 0)"

text \<open>The replacement character U+FFFD, and \<open>utf8.AppendRune\<close> for code points below \<open>2^21\<close>.\<close>

definition replacement :: string where
  "replacement = [CHR 0xEF, CHR 0xBF, CHR 0xBD]"

definition append_rune :: "nat \<Rightarrow> string" where
  "append_rune r =
     (if r < 0x80 then [char_of r]
      else if r < 0x800 then [char_of (0xC0 + r div 64), char_of (0x80 + r mod 64)]
      else if 0xD800 \<le> r \<and> r < 0xE000 \<or> 0x10FFFF < r then replacement
      else if r < 0x10000 then
        [char_of (0xE0 + r div 4096), char_of (0x80 + r div 64 mod 64), char_of (0x80 + r mod 64)]
      else
        [char_of (0xF0 + r div 262144), char_of (0x80 + r div 4096 mod 64),
         char_of (0x80 + r div 64 mod 64), char_of (0x80 + r mod 64)])"

subsection \<open>Strings\<close>

definition hex_val :: "char \<Rightarrow> nat option" where
  "hex_val c =
     (if in_range 48 57 c then Some (of_char c - 48)
      else if in_range 97 102 c then Some (of_char c - 87)
      else if in_range 65 70 c then Some (of_char c - 55)
      else None)"

definition hex4 :: "char \<Rightarrow> char \<Rightarrow> char \<Rightarrow> char \<Rightarrow> nat option" where
  "hex4 a b c d =
     (case (hex_val a, hex_val b, hex_val c, hex_val d) of
        (Some x, Some y, Some z, Some w) \<Rightarrow> Some (((x * 16 + y) * 16 + z) * 16 + w)
      | _ \<Rightarrow> None)"

definition simple_escape :: "char \<Rightarrow> char option" where
  "simple_escape c =
     (if c = quote_char \<or> c = backslash_char \<or> c = CHR ''/'' then Some c
      else if c = CHR ''b'' then Some (CHR 0x08)
      else if c = CHR ''f'' then Some (CHR 0x0C)
      else if c = CHR ''n'' then Some (CHR 0x0A)
      else if c = CHR ''r'' then Some (CHR 0x0D)
      else if c = CHR ''t'' then Some (CHR 0x09)
      else None)"

text \<open>\<open>getu4\<close>: a \<open>\u\<close> escape at the start of the text.\<close>

fun getu4 :: "string \<Rightarrow> nat option" where
  "getu4 (e # u # a # b # c # d # s) =
     (if e = backslash_char \<and> u = CHR ''u'' then hex4 a b c d else None)"
| "getu4 _ = None"

definition cons_str :: "string \<Rightarrow> (string \<times> string) option \<Rightarrow> (string \<times> string) option" where
  "cons_str p r = map_option (\<lambda>(x, s). (p @ x, s)) r"

text \<open>
  One character of a string literal that is not the closing quote: the bytes it stands for
  and the text after it. A surrogate pair of escapes is one character, a lone surrogate is
  the replacement character, and so is every byte that is not part of valid UTF-8.
\<close>

definition unicode_escape :: "string \<Rightarrow> (string \<times> string) option" where
  "unicode_escape s =
     (case getu4 s of
        None \<Rightarrow> None
      | Some r \<Rightarrow>
          if 0xD800 \<le> r \<and> r < 0xE000 then
            (case getu4 (drop 6 s) of
               None \<Rightarrow> Some (replacement, drop 6 s)
             | Some r1 \<Rightarrow>
                 if r < 0xDC00 \<and> 0xDC00 \<le> r1 \<and> r1 < 0xE000
                 then Some (append_rune ((r - 0xD800) * 1024 + (r1 - 0xDC00) + 0x10000), drop 12 s)
                 else Some (replacement, drop 6 s))
          else Some (append_rune r, drop 6 s))"

fun next_rune :: "string \<Rightarrow> (string \<times> string) option" where
  "next_rune [] = None"
| "next_rune (c # s) =
     (if c = backslash_char then
        (case s of
           [] \<Rightarrow> None
         | e # s1 \<Rightarrow>
             if e = CHR ''u'' then unicode_escape (c # s)
             else map_option (\<lambda>x. ([x], s1)) (simple_escape e))
      else if in_range 0x00 0x1F c then None
      else if rune_width (c # s) = 0 then Some (replacement, s)
      else Some (take (rune_width (c # s)) (c # s), drop (rune_width (c # s)) (c # s)))"

lemma unicode_escape_shorter: "unicode_escape s = Some (p, r) \<Longrightarrow> s \<noteq> [] \<Longrightarrow> length r < length s"
  by (auto simp: unicode_escape_def split: option.splits if_splits)

lemma next_rune_shorter: "next_rune s = Some (p, r) \<Longrightarrow> length r < length s"
  by (cases s) (auto split: if_splits list.splits dest!: unicode_escape_shorter)

declare next_rune.simps [simp del]

text \<open>The text after an opening quote: the decoded string and what follows the closing quote.\<close>

function parse_str :: "string \<Rightarrow> (string \<times> string) option" where
  "parse_str s =
     (case s of
        [] \<Rightarrow> None
      | c # r \<Rightarrow>
          if c = quote_char then Some ([], r)
          else (case next_rune s of
              None \<Rightarrow> None
            | Some (p, r') \<Rightarrow> map_option (\<lambda>(x, r''). (p @ x, r'')) (parse_str r')))"
  by pat_completeness auto
termination
  by (relation "measure length") (auto dest: next_rune_shorter)

declare parse_str.simps [simp del]

lemma parse_str_quote [json_simps]: "parse_str (quote_char # r) = Some ([], r)"
  by (simp add: parse_str.simps)

lemma parse_str_step [json_simps]:
  "c \<noteq> quote_char \<Longrightarrow> next_rune (c # s) = Some (p, r) \<Longrightarrow>
   parse_str (c # s) = map_option (\<lambda>(x, r'). (p @ x, r')) (parse_str r)"
  by (subst parse_str.simps) simp

lemma parse_str_cases:
  assumes "parse_str s = Some (x, r)"
  obtains "s = quote_char # r" "x = []"
  | p r' x' where "next_rune s = Some (p, r')" "parse_str r' = Some (x', r)" "x = p @ x'"
  using assms by (subst (asm) parse_str.simps) (auto split: list.splits if_splits option.splits)

lemma parse_str_shorter: "parse_str s = Some (x, r) \<Longrightarrow> length r < length s"
proof (induction "length s" arbitrary: s x r rule: less_induct)
  case less
  from less.prems show ?case
  proof (cases rule: parse_str_cases)
    case (2 p r' x')
    then show ?thesis using less.hyps [of r'] next_rune_shorter [of s] by (meson less_trans)
  qed simp
qed

subsection \<open>Numbers\<close>

definition is_digit :: "char \<Rightarrow> bool" where
  "is_digit c \<longleftrightarrow> in_range 48 57 c"

definition span_digits :: "string \<Rightarrow> string \<times> string" where
  "span_digits s = (takeWhile is_digit s, dropWhile is_digit s)"

text \<open>The optional sign, the integer part, the optional fraction and the optional exponent.\<close>

definition parse_int_part :: "string \<Rightarrow> (string \<times> string) option" where
  "parse_int_part s =
     (case s of
        [] \<Rightarrow> None
      | c # r \<Rightarrow>
          if c = CHR ''0'' then Some ([c], r)
          else if is_digit c then Some (span_digits s)
          else None)"

definition parse_frac :: "string \<Rightarrow> (string \<times> string) option" where
  "parse_frac s =
     (case s of
        c # r \<Rightarrow>
          if c = CHR ''.'' then
            (if fst (span_digits r) = [] then None
             else Some (c # fst (span_digits r), snd (span_digits r)))
          else Some ([], s)
      | [] \<Rightarrow> Some ([], []))"

definition parse_sign :: "string \<Rightarrow> string \<times> string" where
  "parse_sign s =
     (case s of
        c # r \<Rightarrow> if c = CHR ''+'' \<or> c = CHR ''-'' then ([c], r) else ([], s)
      | [] \<Rightarrow> ([], s))"

definition parse_exp :: "string \<Rightarrow> (string \<times> string) option" where
  "parse_exp s =
     (case s of
        c # r \<Rightarrow>
          if c = CHR ''e'' \<or> c = CHR ''E'' then
            (let (sgn, t) = parse_sign r
             in if fst (span_digits t) = [] then None
                else Some (c # sgn @ fst (span_digits t), snd (span_digits t)))
          else Some ([], s)
      | [] \<Rightarrow> Some ([], []))"

definition parse_num :: "string \<Rightarrow> (string \<times> string) option" where
  "parse_num s =
     (let (sgn, t) = (case s of c # r \<Rightarrow> if c = CHR ''-'' then ([c], r) else ([], s) | [] \<Rightarrow> ([], s))
      in case parse_int_part t of
           None \<Rightarrow> None
         | Some (i, t1) \<Rightarrow>
             (case parse_frac t1 of
                None \<Rightarrow> None
              | Some (f, t2) \<Rightarrow>
                  (case parse_exp t2 of
                     None \<Rightarrow> None
                   | Some (e, t3) \<Rightarrow> Some (sgn @ i @ f @ e, t3))))"

lemma length_span_digits: "length (snd (span_digits s)) \<le> length s"
  by (simp add: span_digits_def length_dropWhile_le)

lemma parse_int_part_shorter: "parse_int_part s = Some (i, r) \<Longrightarrow> length r < length s"
  by (auto simp: parse_int_part_def span_digits_def less_Suc_eq_le length_dropWhile_le
      split: list.splits if_splits)

lemma parse_frac_shorter: "parse_frac s = Some (i, r) \<Longrightarrow> length r \<le> length s"
  by (auto simp: parse_frac_def le_Suc_eq length_span_digits split: list.splits if_splits)

lemma parse_sign_shorter: "parse_sign s = (g, r) \<Longrightarrow> length r \<le> length s"
  by (auto simp: parse_sign_def split: list.splits if_splits)

lemma parse_exp_shorter: "parse_exp s = Some (i, r) \<Longrightarrow> length r \<le> length s"
  by (auto simp: parse_exp_def Let_def split: list.splits if_splits prod.splits
      dest!: parse_sign_shorter intro: le_trans [OF length_span_digits] le_SucI)

lemma parse_num_shorter: "parse_num s = Some (n, r) \<Longrightarrow> length r < length s"
  by (fastforce simp: parse_num_def Let_def split: list.splits if_splits option.splits
      dest: parse_int_part_shorter parse_frac_shorter parse_exp_shorter)


subsection \<open>Values\<close>

lemma length_skip_ws: "length (skip_ws s) \<le> length s"
  by (induction s) auto

lemma skip_ws_shorter: "skip_ws s = c # r \<Longrightarrow> length r < length s"
  using length_skip_ws [of s] by simp

definition maxNestingDepth :: nat where "maxNestingDepth = 10000"

definition strip_lit :: "string \<Rightarrow> string \<Rightarrow> string option" where
  "strip_lit l s = (if take (length l) s = l then Some (drop (length l) s) else None)"

text \<open>The text of a value that starts (after white space) at \<open>s\<close> and ends where \<open>r\<close> starts.\<close>

definition raw_text :: "string \<Rightarrow> string \<Rightarrow> string" where
  "raw_text s r = take (length (skip_ws s) - length r) (skip_ws s)"

text \<open>
  One value, the elements of a non-empty array, the members of a non-empty object; \<open>d\<close> is the
  number of arrays and objects around. The two length tests only serve termination: they
  always hold (\<open>parse_value_shorter\<close>).
\<close>

function (sequential) parse_value :: "nat \<Rightarrow> string \<Rightarrow> (json \<times> string) option"
  and parse_elems :: "nat \<Rightarrow> string \<Rightarrow> (json list \<times> string) option"
  and parse_members :: "nat \<Rightarrow> string \<Rightarrow> ((string \<times> string \<times> json) list \<times> string) option"
where
  "parse_value d s =
     (case skip_ws s of
        [] \<Rightarrow> None
      | c # r \<Rightarrow>
          if c = quote_char then map_option (\<lambda>(x, r'). (JStr x, r')) (parse_str r)
          else if c = CHR ''{'' then
            (if maxNestingDepth \<le> d then None
             else case skip_ws r of
               [] \<Rightarrow> None
             | c' # r' \<Rightarrow>
                 if c' = CHR ''}'' then Some (JObj [], r')
                 else map_option (\<lambda>(ms, t). (JObj ms, t)) (parse_members (Suc d) r))
          else if c = CHR ''['' then
            (if maxNestingDepth \<le> d then None
             else case skip_ws r of
               [] \<Rightarrow> None
             | c' # r' \<Rightarrow>
                 if c' = CHR '']'' then Some (JArr [], r')
                 else map_option (\<lambda>(vs, t). (JArr vs, t)) (parse_elems (Suc d) r))
          else if c = CHR ''t'' then map_option (\<lambda>t. (JBool True, t)) (strip_lit ''true'' (c # r))
          else if c = CHR ''f'' then map_option (\<lambda>t. (JBool False, t)) (strip_lit ''false'' (c # r))
          else if c = CHR ''n'' then map_option (\<lambda>t. (JNull, t)) (strip_lit ''null'' (c # r))
          else map_option (\<lambda>(n, t). (JNum n, t)) (parse_num (c # r)))"
| "parse_elems d s =
     (case parse_value d s of
        None \<Rightarrow> None
      | Some (v, r) \<Rightarrow>
          (case skip_ws r of
             [] \<Rightarrow> None
           | c # r' \<Rightarrow>
               if c = CHR '']'' then Some ([v], r')
               else if c = CHR '','' \<and> length r < length s
               then map_option (\<lambda>(vs, t). (v # vs, t)) (parse_elems d r')
               else None))"
| "parse_members d s =
     (case skip_ws s of
        [] \<Rightarrow> None
      | c # r \<Rightarrow>
          if c \<noteq> quote_char then None
          else case parse_str r of
            None \<Rightarrow> None
          | Some (k, r1) \<Rightarrow>
              (case skip_ws r1 of
                 [] \<Rightarrow> None
               | c1 # r2 \<Rightarrow>
                   if c1 \<noteq> CHR '':'' then None
                   else case parse_value d r2 of
                     None \<Rightarrow> None
                   | Some (v, r3) \<Rightarrow>
                       (case skip_ws r3 of
                          [] \<Rightarrow> None
                        | c3 # r4 \<Rightarrow>
                            if c3 = CHR ''}'' then Some ([(k, raw_text r2 r3, v)], r4)
                            else if c3 = CHR '','' \<and> length r3 < length r2
                            then map_option (\<lambda>(ms, t). ((k, raw_text r2 r3, v) # ms, t)) (parse_members d r4)
                            else None)))"
  by pat_completeness auto
termination
  by (relation "measure (\<lambda>x. case x of Inl (d, s) \<Rightarrow> 2 * length s
      | Inr (Inl (d, s)) \<Rightarrow> 2 * length s + 1 | Inr (Inr (d, s)) \<Rightarrow> 2 * length s + 1)")
    (auto dest!: skip_ws_shorter parse_str_shorter)

declare parse_value.simps [simp del] parse_elems.simps [simp del] parse_members.simps [simp del]

lemma strip_lit_shorter: "strip_lit l s = Some r \<Longrightarrow> l \<noteq> [] \<Longrightarrow> s \<noteq> [] \<Longrightarrow> length r < length s"
  by (auto simp: strip_lit_def split: if_splits)

lemma parse_value_shorter:
  "parse_value d s = Some (v, r) \<Longrightarrow> length r < length s"
  "parse_elems d s = Some (vs, r) \<Longrightarrow> length r < length s"
  "parse_members d s = Some (ms, r) \<Longrightarrow> length r < length s"
proof (induction d s and d s and d s arbitrary: v r and vs r and ms r
    rule: parse_value_parse_elems_parse_members.induct)
  case (1 d s)
  show ?case
  proof (cases "skip_ws s")
    case Nil
    with "1.prems" show ?thesis by (simp add: parse_value.simps)
  next
    case (Cons c t)
    then have t: "length t < length s" "length (c # t) \<le> length s"
      using skip_ws_shorter [OF Cons] length_skip_ws [of s] by simp_all
    have ob: "length u < length t" if "c = CHR ''{''" "\<not> maxNestingDepth \<le> d" "skip_ws t = x # y"
      "x \<noteq> CHR ''}''" "parse_members (Suc d) t = Some (a, u)" for x y a u
      using that by (intro "1.IH"(1) [OF Cons]) auto
    have ar: "length u < length t" if "c = CHR ''[''" "\<not> maxNestingDepth \<le> d" "skip_ws t = x # y"
      "x \<noteq> CHR '']''" "parse_elems (Suc d) t = Some (a, u)" for x y a u
      using that by (intro "1.IH"(2) [OF Cons]) auto
    have "length r < length t \<or> length r < length (c # t)"
      using "1.prems" unfolding parse_value.simps [of d s] Cons
      by (auto split: list.splits if_splits dest!: parse_str_shorter strip_lit_shorter parse_num_shorter
          dest: skip_ws_shorter ob ar)
    with t show ?thesis by linarith
  qed
next
  case (2 d s)
  from "2.prems" obtain v r1 where pv: "parse_value d s = Some (v, r1)"
    unfolding parse_elems.simps [of d s] by (auto split: option.splits)
  have r1: "length r1 < length s" using "2.IH"(1) pv by blast
  have more: "length u < length r1" if "skip_ws r1 = CHR '','' # y" "parse_elems d y = Some (a, u)" for y a u
    using that r1 "2.IH"(2) [OF pv refl, of "CHR '',''" y a u] skip_ws_shorter [of r1] by auto
  have "length r < length r1" using "2.prems" unfolding parse_elems.simps [of d s]
    by (auto simp: pv split: list.splits if_splits dest: more skip_ws_shorter)
  with r1 show ?case by simp
next
  case (3 d s)
  from "3.prems" obtain k t r1 r2 v r3 where *: "skip_ws s = quote_char # t" "parse_str t = Some (k, r1)"
    "skip_ws r1 = CHR '':'' # r2" and pv: "parse_value d r2 = Some (v, r3)"
    unfolding parse_members.simps [of d s] by (auto split: option.splits list.splits if_splits)
  have r3: "length r3 < length r2" using "3.IH"(1) * pv by blast
  have more: "length u < length r3" if "skip_ws r3 = CHR '','' # y" "parse_members d y = Some (a, u)" for y a u
    using that r3 "3.IH"(2) [OF *(1) _ *(2) refl *(3) _ pv refl, of "CHR '',''" y a u] skip_ws_shorter [of r3]
    by auto
  have "length r < length r3"
    using "3.prems" unfolding parse_members.simps [of d s]
    by (auto simp: * pv split: list.splits if_splits dest: more skip_ws_shorter)
  with r3 * show ?case by (auto dest!: skip_ws_shorter parse_str_shorter)
qed

subsection \<open>Printed forms\<close>

definition hex_low :: "nat \<Rightarrow> string" where
  "hex_low n = [hextable ! (n div 16 mod 16), hextable ! (n mod 16)]"

definition html_unsafe :: "char \<Rightarrow> bool" where
  "html_unsafe c \<longleftrightarrow> c = CHR ''<'' \<or> c = CHR ''>'' \<or> c = CHR ''&''"

text \<open>\<open>appendString\<close>, with the HTML escaping \<open>json.Marshal\<close> has on: one ASCII character.\<close>

definition quote_ascii :: "char \<Rightarrow> string" where
  "quote_ascii c =
     (if c = quote_char \<or> c = backslash_char then [backslash_char, c]
      else if c = CHR 0x08 then [backslash_char, CHR ''b'']
      else if c = CHR 0x0C then [backslash_char, CHR ''f'']
      else if c = CHR 0x0A then [backslash_char, CHR ''n'']
      else if c = CHR 0x0D then [backslash_char, CHR ''r'']
      else if c = CHR 0x09 then [backslash_char, CHR ''t'']
      else if in_range 0x00 0x1F c \<or> html_unsafe c then [backslash_char] @ ''u00'' @ hex_low (of_char c)
      else [c])"

function quote_body :: "string \<Rightarrow> string" where
  "quote_body s =
     (case s of
        [] \<Rightarrow> []
      | c # r \<Rightarrow>
          if in_range 0x00 0x7F c then quote_ascii c @ quote_body r
          else if rune_width s = 0 then [backslash_char] @ ''ufffd'' @ quote_body r
          else if take 3 s = [CHR 0xE2, CHR 0x80, CHR 0xA8] then [backslash_char] @ ''u2028'' @ quote_body (drop 3 s)
          else if take 3 s = [CHR 0xE2, CHR 0x80, CHR 0xA9] then [backslash_char] @ ''u2029'' @ quote_body (drop 3 s)
          else take (rune_width s) s @ quote_body (drop (rune_width s) s))"
  by pat_completeness auto
termination
  by (relation "measure length") auto

declare quote_body.simps [simp del]

definition json_string :: "string \<Rightarrow> string" where
  "json_string s = [quote_char] @ quote_body s @ [quote_char]"

text \<open>\<open>strconv.AppendInt\<close> in base 10.\<close>

fun show_nat :: "nat \<Rightarrow> string" where
  "show_nat n = (if n < 10 then [char_of (48 + n)] else show_nat (n div 10) @ [char_of (48 + n mod 10)])"

declare show_nat.simps [simp del]

definition show_int :: "int \<Rightarrow> string" where
  "show_int i = (if i < 0 then CHR ''-'' # show_nat (nat (- i)) else show_nat (nat i))"

text \<open>An object whose values are already printed.\<close>

fun json_members :: "(string \<times> string) list \<Rightarrow> string" where
  "json_members [] = []"
| "json_members [(k, v)] = json_string k @ '':'' @ v"
| "json_members ((k, v) # m # ms) = json_string k @ '':'' @ v @ '','' @ json_members (m # ms)"

definition json_object :: "(string \<times> string) list \<Rightarrow> string" where
  "json_object ms = ''{'' @ json_members ms @ ''}''"

definition json_bool :: "bool \<Rightarrow> string" where
  "json_bool b = (if b then ''true'' else ''false'')"

subsection \<open>Integers read back\<close>

text \<open>\<open>strconv.ParseInt(s, 10, 64)\<close> on the literals the scanner lets through.\<close>

definition digits_val :: "string \<Rightarrow> nat" where
  "digits_val s = foldl (\<lambda>n c. 10 * n + (of_char c - 48)) 0 s"

definition ParseInt :: "string \<Rightarrow> int option" where
  "ParseInt s =
     (let neg = (s \<noteq> [] \<and> hd s = CHR ''-''); ds = (if neg then tl s else s)
      in if ds \<noteq> [] \<and> list_all is_digit ds
            \<and> is_int64 (if neg then - int (digits_val ds) else int (digits_val ds))
         then Some (if neg then - int (digits_val ds) else int (digits_val ds)) else None)"

end
