(* ===== verification/Json_Print.thy ===== *)
theory Json_Print
  imports Go_Json
begin

text \<open>
  What is printed is read back: strings that are valid UTF-8, 64-bit integers, and objects of
  printed values. \<open>renders\<close> is the interface between the printer and the parser: a text
  that parses, in front of any delimiter, as one value.
\<close>

subsection \<open>Characters\<close>

lemma in_range_of_char [simp]: "in_range lo hi c \<longleftrightarrow> lo \<le> of_char c \<and> of_char c \<le> hi"
  by (simp add: in_range_def)

lemma char_eq_iff_of_char: "c = d \<longleftrightarrow> (of_char c :: nat) = of_char d"
  by (metis char_of_char)

lemma char_eq_of_char: "c = char_of n \<longleftrightarrow> (of_char c :: nat) = n mod 256"
  by (metis char_of_char of_char_of char_of_mod_256)

lemma hex_val_hextable: "k < 16 \<Longrightarrow> hex_val (hextable ! k) = Some k"
proof -
  have "list_all (\<lambda>k. hex_val (hextable ! k) = Some k) [0..<16]" by code_simp
  then show "k < 16 \<Longrightarrow> ?thesis" by (simp add: list_all_iff)
qed

lemma quote_ascii_ne_quote: "hd (quote_ascii c) \<noteq> quote_char"
  by (auto simp: quote_ascii_def)

lemma quote_ascii_ne_Nil: "quote_ascii c \<noteq> []"
  by (auto simp: quote_ascii_def)

lemma getu4_escape [json_simps]:
  "getu4 (backslash_char # CHR ''u'' # a # b # c # d # s) = hex4 a b c d"
  by simp

lemma next_rune_low_escape:
  assumes "n < 128"
  shows "next_rune ([backslash_char] @ ''u00'' @ hex_low n @ t) = Some ([char_of n], t)"
proof -
  have "hex_val (CHR ''0'') = Some 0" by code_simp
  moreover have "n div 16 mod 16 * 16 + n mod 16 = n" using assms by simp
  ultimately have "hex4 (CHR ''0'') (CHR ''0'') (hextable ! (n div 16 mod 16)) (hextable ! (n mod 16)) = Some n"
    by (simp add: hex4_def hex_val_hextable)
  with assms show ?thesis
    by (simp add: next_rune.simps unicode_escape_def hex_low_def append_rune_def)
qed

lemma next_rune_quote_ascii:
  assumes "of_char c < (128 :: nat)"
  shows "next_rune (quote_ascii c @ t) = Some ([c], t)"
proof -
  have low: "next_rune ([backslash_char] @ ''u00'' @ hex_low (of_char c) @ t) = Some ([c], t)"
    using next_rune_low_escape [OF assms] by simp
  have plain: "next_rune (c # t) = Some ([c], t)"
    if "c \<noteq> backslash_char" "\<not> of_char c \<le> (31 :: nat)"
    using that assms by (simp add: next_rune.simps rune_width_def)
  show ?thesis
    using low plain
    by (auto simp: quote_ascii_def next_rune.simps(2) [of backslash_char] simple_escape_def split: if_splits)
qed

lemma parse_str_quote_ascii:
  assumes "of_char c < (128 :: nat)"
  shows "parse_str (quote_ascii c @ t) = map_option (\<lambda>(x, r). (c # x, r)) (parse_str t)"
proof (cases "quote_ascii c @ t")
  case (Cons d s)
  then have "d \<noteq> quote_char"
    using quote_ascii_ne_quote [of c] quote_ascii_ne_Nil [of c] by (cases "quote_ascii c") auto
  with Cons next_rune_quote_ascii [OF assms, of t] show ?thesis
    by (simp add: parse_str_step)
qed (simp add: quote_ascii_ne_Nil)

subsection \<open>UTF-8 text\<close>

function valid_utf8 :: "string \<Rightarrow> bool" where
  "valid_utf8 s =
     (if s = [] then True
      else if rune_width s = 0 then False
      else valid_utf8 (drop (rune_width s) s))"
  by pat_completeness auto
termination
  by (relation "measure length") auto

declare valid_utf8.simps [simp del]

lemma valid_utf8_Nil [simp]: "valid_utf8 []"
  by (simp add: valid_utf8.simps)

lemma rune_width_ascii [simp]: "of_char c < (128 :: nat) \<Longrightarrow> rune_width (c # s) = 1"
  by (simp add: rune_width_def)

lemma valid_utf8_ascii_Cons [simp]: "of_char c < (128 :: nat) \<Longrightarrow> valid_utf8 (c # s) \<longleftrightarrow> valid_utf8 s"
  by (subst valid_utf8.simps) simp

lemma rune_width_le: "rune_width s \<le> length s"
  by (auto simp: rune_width_def Suc_le_eq)

lemma rune_width_cong:
  assumes "rune_width s = w" and "w \<noteq> 0" and "w \<le> length u" and "\<And>i. i < w \<Longrightarrow> u ! i = s ! i"
  shows "rune_width u = w"
proof -
  have eq: "u ! 0 = s ! 0" "2 \<le> w \<Longrightarrow> u ! 1 = s ! 1" "3 \<le> w \<Longrightarrow> u ! 2 = s ! 2" "4 \<le> w \<Longrightarrow> u ! 3 = s ! 3"
    using assms(2,4) by auto
  have "s \<noteq> [] \<and> u \<noteq> []" using assms(1-3) by (auto simp: rune_width_def)
  with assms(1-3) eq show ?thesis
    unfolding rune_width_def by (simp split: if_splits)
qed

lemma rune_width_append:
  "rune_width s \<noteq> 0 \<Longrightarrow> rune_width (take (rune_width s) s @ t) = rune_width s"
  using rune_width_le [of s] by (intro rune_width_cong [OF refl]) (auto simp: nth_append)

text \<open>No byte of a longer character is a quote, a backslash or a control character.\<close>

lemma rune_head_high:
  "s \<noteq> [] \<Longrightarrow> rune_width s \<noteq> 0 \<Longrightarrow> rune_width s \<noteq> 1 \<Longrightarrow> 128 \<le> (of_char (hd s) :: nat)"
  by (auto simp: rune_width_def hd_conv_nth split: if_splits)

lemma parse_str_rune:
  assumes "s \<noteq> []" and "rune_width s \<noteq> 0" and "rune_width s \<noteq> 1"
  shows "parse_str (take (rune_width s) s @ t)
    = map_option (\<lambda>(x, r). (take (rune_width s) s @ x, r)) (parse_str t)"
proof -
  let ?u = "take (rune_width s) s @ t"
  have h: "128 \<le> (of_char (hd s) :: nat)" using assms by (rule rune_head_high)
  from assms have u: "?u = hd s # tl ?u" 
    by (cases s; cases "rune_width s") auto
  have "rune_width ?u = rune_width s" using assms(2) by (rule rune_width_append)
  moreover have "length (take (rune_width s) s) = rune_width s"
    using rune_width_le [of s] by simp
  ultimately have "next_rune ?u = Some (take (rune_width s) s, t)"
    using h assms(2) by (subst u, subst next_rune.simps) (auto simp flip: u)
  moreover have "hd s \<noteq> quote_char" using h by auto
  ultimately show ?thesis by (subst u, subst parse_str_step) (auto simp flip: u)
qed


lemma parse_str_escape:
  "next_rune ([backslash_char] @ e) = Some (p, t) \<Longrightarrow>
   parse_str (backslash_char # e) = map_option (\<lambda>(x, r). (p @ x, r)) (parse_str t)"
  by (subst parse_str_step) auto

lemma parse_str_u2028:
  "parse_str (backslash_char # ''u2028'' @ t) = map_option (\<lambda>(x, r). ([CHR 0xE2, CHR 0x80, CHR 0xA8] @ x, r)) (parse_str t)"
  "parse_str (backslash_char # ''u2029'' @ t) = map_option (\<lambda>(x, r). ([CHR 0xE2, CHR 0x80, CHR 0xA9] @ x, r)) (parse_str t)"
proof -
  have "hex4 (CHR ''2'') (CHR ''0'') (CHR ''2'') (CHR ''8'') = Some 8232"
    "hex4 (CHR ''2'') (CHR ''0'') (CHR ''2'') (CHR ''9'') = Some 8233"
    "append_rune 8232 = [CHR 0xE2, CHR 0x80, CHR 0xA8]" "append_rune 8233 = [CHR 0xE2, CHR 0x80, CHR 0xA9]"
    by (simp_all add: hex4_def hex_val_def append_rune_def char_eq_iff_of_char)
  note c = this
  show "parse_str (backslash_char # ''u2028'' @ t) = map_option (\<lambda>(x, r). ([CHR 0xE2, CHR 0x80, CHR 0xA8] @ x, r)) (parse_str t)"
    by (rule parse_str_escape) (simp add: next_rune.simps unicode_escape_def c)
  show "parse_str (backslash_char # ''u2029'' @ t) = map_option (\<lambda>(x, r). ([CHR 0xE2, CHR 0x80, CHR 0xA9] @ x, r)) (parse_str t)"
    by (rule parse_str_escape) (simp add: next_rune.simps unicode_escape_def c)
qed

lemma quote_body_Nil [simp]: "quote_body [] = []"
  by (simp add: quote_body.simps)

lemma quote_body_ascii: "of_char c < (128 :: nat) \<Longrightarrow> quote_body (c # r) = quote_ascii c @ quote_body r"
  by (subst quote_body.simps) simp

lemma three_width: "take 3 s = [CHR 0xE2, CHR 0x80, x] \<Longrightarrow> of_char x \<in> {128..191 :: nat} \<Longrightarrow> rune_width s = 3"
proof -
  assume t: "take 3 s = [CHR 0xE2, CHR 0x80, x]" and x: "of_char x \<in> {128..191 :: nat}"
  have "length (take 3 s) = 3" using t by simp
  then have len: "3 \<le> length s" by simp
  have "s ! i = take 3 s ! i" if "i < 3" for i using that by simp
  then have "s ! 0 = CHR 0xE2" "s ! 1 = CHR 0x80" "s ! 2 = x" using t by simp_all
  with len x show ?thesis by (auto simp: rune_width_def two_bytes_def three_bytes_def)
qed

lemma parse_quote_body:
  "valid_utf8 s \<Longrightarrow> parse_str (quote_body s @ quote_char # rest) = Some (s, rest)"
proof (induction s rule: valid_utf8.induct)
  case (1 s)
  show ?case
  proof (cases s)
    case Nil
    then show ?thesis by (simp add: parse_str_quote)
  next
    case (Cons c r)
    have w: "rune_width s \<noteq> 0" and v: "valid_utf8 (drop (rune_width s) s)"
      using "1.prems" Cons by (subst (asm) valid_utf8.simps, simp split: if_splits)+
    have IH: "parse_str (quote_body (drop (rune_width s) s) @ quote_char # rest) = Some (drop (rune_width s) s, rest)"
      using "1.IH" Cons w v by simp
    show ?thesis
    proof (cases "of_char c < (128 :: nat)")
      case True
      with Cons IH show ?thesis by (simp add: quote_body_ascii parse_str_quote_ascii)
    next
      case False
      then have w1: "rune_width s \<noteq> 1" using Cons by (auto simp: rune_width_def split: if_splits)
      consider "take 3 s = [CHR 0xE2, CHR 0x80, CHR 0xA8]" | "take 3 s = [CHR 0xE2, CHR 0x80, CHR 0xA9]"
        | "take 3 s \<noteq> [CHR 0xE2, CHR 0x80, CHR 0xA8]" "take 3 s \<noteq> [CHR 0xE2, CHR 0x80, CHR 0xA9]" by blast
      then show ?thesis
      proof cases
        case 1
        with three_width [OF 1] have "rune_width s = 3" by simp
        with 1 IH False Cons have "quote_body s = backslash_char # ''u2028'' @ quote_body (drop 3 s)"
          by (subst quote_body.simps) auto
        with IH \<open>rune_width s = 3\<close> 1 show ?thesis
          using append_take_drop_id [of 3 s] by (simp add: parse_str_u2028 [simplified])
      next
        case 2
        with three_width [OF 2] have "rune_width s = 3" by simp
        with 2 IH False Cons have "quote_body s = backslash_char # ''u2029'' @ quote_body (drop 3 s)"
          by (subst quote_body.simps) auto
        with IH \<open>rune_width s = 3\<close> 2 show ?thesis
          using append_take_drop_id [of 3 s] by (simp add: parse_str_u2028 [simplified])
      next
        case 3
        with w False Cons have "quote_body s = take (rune_width s) s @ quote_body (drop (rune_width s) s)"
          by (subst quote_body.simps) auto
        with IH parse_str_rune [of s] w w1 Cons show ?thesis by simp
      qed
    qed
  qed
qed


subsection \<open>Integers\<close>

lemma is_digit_char_of [simp]: "k < 10 \<Longrightarrow> is_digit (char_of (48 + k :: nat))"
  by (simp add: is_digit_def)

lemma show_nat_digits: "list_all is_digit (show_nat n) \<and> show_nat n \<noteq> []"
proof (induction n rule: show_nat.induct)
  case (1 n)
  then show ?case by (subst (1 2) show_nat.simps) auto
qed

lemma digits_val_snoc: "digits_val (s @ [c]) = 10 * digits_val s + (of_char c - 48)"
  by (simp add: digits_val_def)

lemma digits_val_show_nat [simp]: "digits_val (show_nat n) = n"
proof (induction n rule: show_nat.induct)
  case (1 n)
  show ?case
  proof (cases "n < 10")
    case True
    then show ?thesis by (subst show_nat.simps) (simp add: digits_val_def)
  next
    case False
    with 1 have "digits_val (show_nat n) = 10 * (n div 10) + n mod 10"
      by (subst show_nat.simps) (simp add: digits_val_snoc)
    then show ?thesis by simp
  qed
qed

lemma show_nat_no_leading_zero: "n \<noteq> 0 \<Longrightarrow> hd (show_nat n) \<noteq> CHR ''0''"
proof (induction n rule: show_nat.induct)
  case (1 n)
  show ?case
  proof (cases "n < 10")
    case True
    with "1.prems" show ?thesis by (subst show_nat.simps) (simp add: char_eq_iff_of_char)
  next
    case False
    then have "hd (show_nat n) = hd (show_nat (n div 10))"
      using show_nat_digits [of "n div 10"] by (subst show_nat.simps) simp
    with 1 False show ?thesis by simp
  qed
qed

definition num_end :: "string \<Rightarrow> bool" where
  "num_end r \<longleftrightarrow> r = [] \<or> \<not> is_digit (hd r) \<and> hd r \<notin> {CHR ''.'', CHR ''e'', CHR ''E''}"

lemma takeWhile_digits:
  assumes "list_all is_digit s" and "num_end r"
  shows "takeWhile is_digit (s @ r) = s" "dropWhile is_digit (s @ r) = r"
  using assms by (induction s) (cases r; auto simp: num_end_def)+

lemma parse_int_part_show_nat:
  assumes "num_end r"
  shows "parse_int_part (show_nat n @ r) = Some (show_nat n, r)"
proof (cases "n = 0")
  case True
  then show ?thesis by (simp add: show_nat.simps parse_int_part_def char_eq_iff_of_char)
next
  case False
  obtain c t where s: "show_nat n = c # t" using show_nat_digits [of n] by (cases "show_nat n") auto
  with False have "c \<noteq> CHR ''0''" using show_nat_no_leading_zero [of n] by auto
  moreover have "is_digit c" using show_nat_digits [of n] s by simp
  moreover have "span_digits (show_nat n @ r) = (show_nat n, r)"
    using show_nat_digits assms by (simp add: span_digits_def takeWhile_digits)
  ultimately show ?thesis using s by (simp add: parse_int_part_def)
qed

lemma parse_frac_exp_end: "num_end r \<Longrightarrow> parse_frac r = Some ([], r)" "num_end r \<Longrightarrow> parse_exp r = Some ([], r)"
  by (auto simp: parse_frac_def parse_exp_def num_end_def split: list.splits)

lemma show_nat_not_minus: "hd (show_nat n) \<noteq> CHR ''-''"
  using show_nat_digits [of n] by (cases "show_nat n") (auto simp: is_digit_def)

lemma parse_num_show_int:
  assumes "num_end r"
  shows "parse_num (show_int i @ r) = Some (show_int i, r)"
proof (cases "i < 0")
  case True
  with assms show ?thesis
    by (simp add: parse_num_def show_int_def parse_int_part_show_nat parse_frac_exp_end)
next
  case False
  obtain c t where s: "show_nat (nat i) = c # t"
    using show_nat_digits [of "nat i"] by (cases "show_nat (nat i)") auto
  with show_nat_not_minus [of "nat i"] have "c \<noteq> CHR ''-''" by simp
  with False assms s parse_int_part_show_nat [of r "nat i"] show ?thesis
    by (simp add: parse_num_def show_int_def parse_frac_exp_end)
qed

lemma ParseInt_show_int [simp]: "is_int64 i \<Longrightarrow> ParseInt (show_int i) = Some i"
  using show_nat_digits [of "nat i"] show_nat_digits [of "nat (- i)"] show_nat_not_minus [of "nat i"]
  by (auto simp: ParseInt_def show_int_def Let_def)

subsection \<open>Values and objects\<close>

definition value_end :: "string \<Rightarrow> bool" where
  "value_end r \<longleftrightarrow> r = [] \<or> hd r = CHR '','' \<or> hd r = CHR ''}'' \<or> hd r = CHR '']''"

lemma value_end_num_end: "value_end r \<Longrightarrow> num_end r"
  by (auto simp: value_end_def num_end_def is_digit_def)

definition renders :: "nat \<Rightarrow> string \<Rightarrow> json \<Rightarrow> bool" where
  "renders d t v \<longleftrightarrow> t \<noteq> [] \<and> \<not> is_ws (hd t) \<and> (\<forall>r. value_end r \<longrightarrow> parse_value d (t @ r) = Some (v, r))"

lemma rendersD: "renders d t v \<Longrightarrow> value_end r \<Longrightarrow> parse_value d (t @ r) = Some (v, r)"
  by (simp add: renders_def)

lemma skip_ws_nonblank: "s \<noteq> [] \<Longrightarrow> \<not> is_ws (hd s) \<Longrightarrow> skip_ws s = s"
  by (cases s) auto

lemma skip_ws_renders: "renders d t v \<Longrightarrow> skip_ws (t @ r) = t @ r"
  by (intro skip_ws_nonblank) (auto simp: renders_def)

lemma renders_raw: "renders d t v \<Longrightarrow> raw_text (t @ r) r = t"
  by (simp add: raw_text_def skip_ws_renders)

lemma renders_string: "valid_utf8 s \<Longrightarrow> renders d (json_string s) (JStr s)"
  by (simp add: renders_def json_string_def is_ws_def parse_value.simps parse_quote_body)

lemma renders_literals:
  "renders d ''null'' JNull" "renders d (json_bool b) (JBool b)"
  by (auto simp: renders_def json_bool_def is_ws_def parse_value.simps strip_lit_def)

lemma renders_int: "renders d (show_int i) (JNum (show_int i))"
proof -
  obtain c t where s: "show_int i = c # t" "c = CHR ''-'' \<or> is_digit c"
    using show_nat_digits [of "nat i"] show_nat_digits [of "nat (- i)"]
    by (cases "i < 0"; cases "show_nat (nat i)") (auto simp: show_int_def)
  then have c: "\<not> is_ws c" "c \<noteq> quote_char" "c \<noteq> CHR ''{''" "c \<noteq> CHR ''[''" "c \<noteq> CHR ''t''"
    "c \<noteq> CHR ''f''" "c \<noteq> CHR ''n''"
    by (auto simp: is_ws_def is_digit_def)
  have "parse_value d (show_int i @ r) = Some (JNum (show_int i), r)" if "value_end r" for r
    using parse_num_show_int [OF value_end_num_end [OF that], of i] s c by (simp add: parse_value.simps)
  with s c show ?thesis by (simp add: renders_def)
qed

type_synonym field = "string \<times> string \<times> json"

definition printed :: "field list \<Rightarrow> (string \<times> string) list" where
  "printed fs = map (\<lambda>(k, t, v). (k, t)) fs"

definition good_field :: "nat \<Rightarrow> field \<Rightarrow> bool" where
  "good_field d f \<longleftrightarrow> (case f of (k, t, v) \<Rightarrow> valid_utf8 k \<and> renders d t v)"

lemma parse_members_one:
  assumes "valid_utf8 k" and "renders d t v" and "value_end (c # r)"
  shows "parse_members d (json_string k @ '':'' @ t @ c # r) =
    (if c = CHR ''}'' then Some ([(k, t, v)], r)
     else if c = CHR '','' then map_option (\<lambda>(ms, u). ((k, t, v) # ms, u)) (parse_members d r)
     else None)"
proof -
  have "\<not> is_ws c" using assms(3) by (auto simp: value_end_def is_ws_def)
  moreover have "t \<noteq> []" using assms(2) by (simp add: renders_def)
  ultimately show ?thesis using assms
    by (subst parse_members.simps)
      (simp add: json_string_def is_ws_def [of quote_char] is_ws_def [of "CHR '':''"] parse_quote_body
        rendersD renders_raw)
qed

lemma parse_members_printed:
  assumes "fs \<noteq> []" and "list_all (good_field d) fs"
  shows "parse_members d (json_members (printed fs) @ CHR ''}'' # r) = Some (fs, r)"
  using assms
proof (induction fs)
  case (Cons f fs)
  obtain k t v where f: "f = (k, t, v)" by (cases f) auto
  show ?case
  proof (cases fs)
    case Nil
    with Cons.prems f show ?thesis
      using parse_members_one [of k d t v "CHR ''}''" r] by (simp add: printed_def good_field_def value_end_def)
  next
    case (Cons g gs)
    with Cons.prems Cons.IH f show ?thesis
      using parse_members_one [of k d t v "CHR '',''" "json_members (printed fs) @ CHR ''}'' # r"]
      by (cases g) (simp add: printed_def good_field_def value_end_def)
  qed
qed simp

lemma json_members_head: "fs \<noteq> [] \<Longrightarrow> \<exists>u. json_members (printed fs) = quote_char # u"
  by (cases "printed fs" rule: json_members.cases) (auto simp: printed_def json_string_def)

lemma renders_object:
  assumes "d < maxNestingDepth" and "fs \<noteq> []" and "list_all (good_field (Suc d)) fs"
  shows "renders d (json_object (printed fs)) (JObj fs)"
proof -
  obtain u where u: "json_members (printed fs) = quote_char # u" using assms(2) json_members_head by blast
  have "parse_value d (json_object (printed fs) @ r) = Some (JObj fs, r)" for r
    using parse_members_printed [OF assms(2,3), of r] assms(1)
    by (simp add: parse_value.simps json_object_def u is_ws_def)
  then show ?thesis by (simp add: renders_def json_object_def is_ws_def)
qed

end
