(* ===== verification/Protocol.thy ===== *)
theory Protocol
  imports Json_Print
begin

text \<open>
  \<open>protocol/message.go\<close>: the structures of the JSON protocol and their \<open>Encode\<close> and
  \<open>Decode\<close>, which are \<open>json.Marshal\<close> and \<open>json.Unmarshal\<close> at these types. A decoder starts
  from the zero value, matches members to field tags exactly or else under case folding,
  skips members it does not know, goes on after a member of the wrong type and reports the
  first such error at the end. The locale \<open>message_codec\<close> is the contract between the two
  directions.
\<close>

subsection \<open>Structures\<close>

record Request =
  req_ID :: "int option"
  req_Method :: string
  req_Params :: "string option"

record Response =
  resp_ID :: int
  resp_Result :: bool
  resp_Error :: "string option"

record AuthorizeParams =
  auth_Username :: string

record JobParams =
  job_JobID :: int
  job_ServerNonce :: string

record SubmitParams =
  sub_JobID :: int
  sub_ClientNonce :: string
  sub_Result :: string

subsection \<open>Raw messages\<close>

definition valid_json :: "string \<Rightarrow> bool" where
  "valid_json s = (case parse_value 0 s of Some (v, r) \<Rightarrow> skip_ws r = [] | None \<Rightarrow> False)"

text \<open>
  \<open>appendCompact\<close> on a valid text: white space outside strings goes, the HTML-sensitive
  characters and the two line separators are escaped. \<open>q\<close> says whether the position is
  inside a string.
\<close>

fun compact :: "bool \<Rightarrow> string \<Rightarrow> string" where
  "compact q [] = []"
| "compact q (c # s) =
     (if \<not> q \<and> is_ws c then compact q s
      else if html_unsafe c then [backslash_char] @ ''u00'' @ hex_low (of_char c) @ compact q s
      else if c = CHR 0xE2 \<and> take 2 s = [CHR 0x80, CHR 0xA8] then [backslash_char] @ ''u2028'' @ compact q (drop 2 s)
      else if c = CHR 0xE2 \<and> take 2 s = [CHR 0x80, CHR 0xA9] then [backslash_char] @ ''u2029'' @ compact q (drop 2 s)
      else if q \<and> c = backslash_char then c # take 1 s @ compact q (drop 1 s)
      else if c = quote_char then c # compact (\<not> q) s
      else c # compact q s)"

subsection \<open>Encoding\<close>

definition json_ptr_int :: "int option \<Rightarrow> string" where
  "json_ptr_int p = (case p of None \<Rightarrow> ''null'' | Some i \<Rightarrow> show_int i)"

definition Encode_Request :: "Request \<Rightarrow> error + bytes" where
  "Encode_Request r =
     (case req_Params r of
        None \<Rightarrow> Inr (bytes_of (json_object [(''id'', json_ptr_int (req_ID r)),
          (''method'', json_string (req_Method r)), (''params'', ''null'')]))
      | Some raw \<Rightarrow>
          if valid_json raw
          then Inr (bytes_of (json_object [(''id'', json_ptr_int (req_ID r)),
            (''method'', json_string (req_Method r)), (''params'', compact False raw)]))
          else Inl JSONSyntaxError)"

definition Encode_Response :: "Response \<Rightarrow> bytes" where
  "Encode_Response r = bytes_of (json_object
     ([(''id'', show_int (resp_ID r)), (''result'', json_bool (resp_Result r))]
      @ (case resp_Error r of None \<Rightarrow> [] | Some m \<Rightarrow> [(''error'', json_string m)])))"

definition AuthorizeParams_json :: "AuthorizeParams \<Rightarrow> string" where
  "AuthorizeParams_json p = json_object [(''username'', json_string (auth_Username p))]"

definition JobParams_json :: "JobParams \<Rightarrow> string" where
  "JobParams_json p = json_object
     [(''job_id'', show_int (job_JobID p)), (''server_nonce'', json_string (job_ServerNonce p))]"

definition SubmitParams_json :: "SubmitParams \<Rightarrow> string" where
  "SubmitParams_json p = json_object
     [(''job_id'', show_int (sub_JobID p)), (''client_nonce'', json_string (sub_ClientNonce p)),
      (''result'', json_string (sub_Result p))]"

subsection \<open>Decoding\<close>

definition store_int :: "json \<Rightarrow> int \<Rightarrow> int \<times> error option" where
  "store_int v old =
     (case v of
        JNull \<Rightarrow> (old, None)
      | JNum n \<Rightarrow> (case ParseInt n of Some i \<Rightarrow> (i, None) | None \<Rightarrow> (old, Some JSONTypeError))
      | _ \<Rightarrow> (old, Some JSONTypeError))"

definition store_string :: "json \<Rightarrow> string \<Rightarrow> string \<times> error option" where
  "store_string v old =
     (case v of JNull \<Rightarrow> (old, None) | JStr s \<Rightarrow> (s, None) | _ \<Rightarrow> (old, Some JSONTypeError))"

definition store_bool :: "json \<Rightarrow> bool \<Rightarrow> bool \<times> error option" where
  "store_bool v old =
     (case v of JNull \<Rightarrow> (old, None) | JBool b \<Rightarrow> (b, None) | _ \<Rightarrow> (old, Some JSONTypeError))"

text \<open>A pointer field: \<open>null\<close> makes it nil, anything else allocates it first.\<close>

definition store_ptr :: "(json \<Rightarrow> 'a \<Rightarrow> 'a \<times> error option) \<Rightarrow> 'a \<Rightarrow> json \<Rightarrow> 'a option
    \<Rightarrow> 'a option \<times> error option" where
  "store_ptr st zero v old =
     (if v = JNull then (None, None)
      else case st v (case old of None \<Rightarrow> zero | Some x \<Rightarrow> x) of (x, e) \<Rightarrow> (Some x, e))"

definition find_field :: "string list \<Rightarrow> string \<Rightarrow> string option" where
  "find_field tags key =
     (if key \<in> set tags then Some key else find (\<lambda>t. fold_name t = fold_name key) tags)"

fun decode_members :: "string list \<Rightarrow> (string \<Rightarrow> string \<Rightarrow> json \<Rightarrow> 'r \<Rightarrow> 'r \<times> error option)
    \<Rightarrow> field list \<Rightarrow> 'r \<times> error option \<Rightarrow> 'r \<times> error option" where
  "decode_members tags set_field [] st = st"
| "decode_members tags set_field ((k, raw, v) # ms) st =
     decode_members tags set_field ms
       (case find_field tags k of
          None \<Rightarrow> st
        | Some t \<Rightarrow>
            (case set_field t raw v (fst st) of
               (r, e) \<Rightarrow> (r, if snd st = None then e else snd st)))"

definition Unmarshal :: "string list \<Rightarrow> (string \<Rightarrow> string \<Rightarrow> json \<Rightarrow> 'r \<Rightarrow> 'r \<times> error option)
    \<Rightarrow> 'r \<Rightarrow> string \<Rightarrow> 'r \<times> error option" where
  "Unmarshal tags set_field r0 data =
     (case parse_value 0 data of
        None \<Rightarrow> (r0, Some JSONSyntaxError)
      | Some (v, rest) \<Rightarrow>
          if skip_ws rest \<noteq> [] then (r0, Some JSONSyntaxError)
          else case v of
            JObj ms \<Rightarrow> decode_members tags set_field ms (r0, None)
          | JNull \<Rightarrow> (r0, None)
          | _ \<Rightarrow> (r0, Some JSONTypeError))"

definition set_Request :: "string \<Rightarrow> string \<Rightarrow> json \<Rightarrow> Request \<Rightarrow> Request \<times> error option" where
  "set_Request t raw v r =
     (if t = ''id'' then (case store_ptr store_int 0 v (req_ID r) of (x, e) \<Rightarrow> (r\<lparr>req_ID := x\<rparr>, e))
      else if t = ''method'' then (case store_string v (req_Method r) of (x, e) \<Rightarrow> (r\<lparr>req_Method := x\<rparr>, e))
      else (r\<lparr>req_Params := Some raw\<rparr>, None))"

definition set_Response :: "string \<Rightarrow> string \<Rightarrow> json \<Rightarrow> Response \<Rightarrow> Response \<times> error option" where
  "set_Response t raw v r =
     (if t = ''id'' then (case store_int v (resp_ID r) of (x, e) \<Rightarrow> (r\<lparr>resp_ID := x\<rparr>, e))
      else if t = ''result'' then (case store_bool v (resp_Result r) of (x, e) \<Rightarrow> (r\<lparr>resp_Result := x\<rparr>, e))
      else (case store_ptr store_string [] v (resp_Error r) of (x, e) \<Rightarrow> (r\<lparr>resp_Error := x\<rparr>, e)))"

definition set_AuthorizeParams :: "string \<Rightarrow> string \<Rightarrow> json \<Rightarrow> AuthorizeParams \<Rightarrow> AuthorizeParams \<times> error option" where
  "set_AuthorizeParams t raw v r =
     (case store_string v (auth_Username r) of (x, e) \<Rightarrow> (r\<lparr>auth_Username := x\<rparr>, e))"

definition set_JobParams :: "string \<Rightarrow> string \<Rightarrow> json \<Rightarrow> JobParams \<Rightarrow> JobParams \<times> error option" where
  "set_JobParams t raw v r =
     (if t = ''job_id'' then (case store_int v (job_JobID r) of (x, e) \<Rightarrow> (r\<lparr>job_JobID := x\<rparr>, e))
      else (case store_string v (job_ServerNonce r) of (x, e) \<Rightarrow> (r\<lparr>job_ServerNonce := x\<rparr>, e)))"

definition set_SubmitParams :: "string \<Rightarrow> string \<Rightarrow> json \<Rightarrow> SubmitParams \<Rightarrow> SubmitParams \<times> error option" where
  "set_SubmitParams t raw v r =
     (if t = ''job_id'' then (case store_int v (sub_JobID r) of (x, e) \<Rightarrow> (r\<lparr>sub_JobID := x\<rparr>, e))
      else if t = ''client_nonce''
      then (case store_string v (sub_ClientNonce r) of (x, e) \<Rightarrow> (r\<lparr>sub_ClientNonce := x\<rparr>, e))
      else (case store_string v (sub_Result r) of (x, e) \<Rightarrow> (r\<lparr>sub_Result := x\<rparr>, e)))"

definition Decode_Request :: "bytes \<Rightarrow> Request \<times> error option" where
  "Decode_Request data = Unmarshal [''id'', ''method'', ''params''] set_Request
     \<lparr>req_ID = None, req_Method = [], req_Params = None\<rparr> (string_of data)"

definition Decode_Response :: "bytes \<Rightarrow> Response \<times> error option" where
  "Decode_Response data = Unmarshal [''id'', ''result'', ''error''] set_Response
     \<lparr>resp_ID = 0, resp_Result = False, resp_Error = None\<rparr> (string_of data)"

definition Decode_AuthorizeParams :: "string \<Rightarrow> AuthorizeParams \<times> error option" where
  "Decode_AuthorizeParams data = Unmarshal [''username''] set_AuthorizeParams \<lparr>auth_Username = []\<rparr> data"

definition Decode_JobParams :: "string \<Rightarrow> JobParams \<times> error option" where
  "Decode_JobParams data = Unmarshal [''job_id'', ''server_nonce''] set_JobParams
     \<lparr>job_JobID = 0, job_ServerNonce = []\<rparr> data"

definition Decode_SubmitParams :: "string \<Rightarrow> SubmitParams \<times> error option" where
  "Decode_SubmitParams data = Unmarshal [''job_id'', ''client_nonce'', ''result''] set_SubmitParams
     \<lparr>sub_JobID = 0, sub_ClientNonce = [], sub_Result = []\<rparr> data"


subsection \<open>Printed texts are compact\<close>

definition compacts :: "string \<Rightarrow> bool" where
  "compacts t \<longleftrightarrow> (\<forall>r. compact False (t @ r) = t @ compact False r)"

definition plain :: "char \<Rightarrow> bool" where
  "plain c \<longleftrightarrow> c \<noteq> quote_char \<and> c \<noteq> backslash_char \<and> \<not> is_ws c \<and> \<not> html_unsafe c \<and> c \<noteq> CHR 0xE2"

lemma compact_plain: "list_all plain t \<Longrightarrow> compact q (t @ r) = t @ compact q r"
  by (induction t) (auto simp: plain_def)

lemma compacts_plain: "list_all plain t \<Longrightarrow> compacts t"
  by (simp add: compacts_def compact_plain)

lemma compacts_append: "compacts s \<Longrightarrow> compacts t \<Longrightarrow> compacts (s @ t)"
  by (simp add: compacts_def)

lemma plain_hextable: "k < 16 \<Longrightarrow> plain (hextable ! k)"
proof -
  have "list_all (\<lambda>k. plain (hextable ! k)) [0..<16]" by code_simp
  then show "k < 16 \<Longrightarrow> ?thesis" by (simp add: list_all_iff)
qed

lemma compact_escape: "compact True (backslash_char # c # t) = backslash_char # c # compact True t"
  by (simp add: html_unsafe_def)

lemma compact_quote_ascii:
  assumes "of_char c < (128 :: nat)"
  shows "compact True (quote_ascii c @ t) = quote_ascii c @ compact True t"
proof -
  have "list_all plain (''00'' @ hex_low n)" for n
    by (simp add: hex_low_def plain_hextable) (simp add: plain_def is_ws_def html_unsafe_def)
  from compact_plain [OF this, of True] have
    "compact True (backslash_char # CHR ''u'' # (''00'' @ hex_low n) @ t)
      = backslash_char # CHR ''u'' # (''00'' @ hex_low n) @ compact True t" for n
    by (subst compact_escape) simp
  moreover have "compact True (c # t) = c # compact True t"
    if "c \<noteq> quote_char" "c \<noteq> backslash_char" "\<not> html_unsafe c"
    using that assms by (auto simp: char_eq_iff_of_char [of c "CHR 0xE2"])
  ultimately show ?thesis
    by (auto simp: quote_ascii_def compact_escape simp del: compact.simps)
qed

lemma high_not_special: "128 \<le> (of_char c :: nat) \<Longrightarrow> c \<noteq> quote_char \<and> c \<noteq> backslash_char \<and> \<not> html_unsafe c"
  by (auto simp: html_unsafe_def)

lemma compact_high:
  assumes "128 \<le> (of_char c :: nat)"
    and "\<not> (c = CHR 0xE2 \<and> (take 2 t = [CHR 0x80, CHR 0xA8] \<or> take 2 t = [CHR 0x80, CHR 0xA9]))"
  shows "compact True (c # t) = c # compact True t"
  using high_not_special [OF assms(1)] assms(2) by auto

lemma compact_rune:
  assumes w: "rune_width s \<noteq> 0" "rune_width s \<noteq> 1"
    and sep: "take 3 s \<noteq> [CHR 0xE2, CHR 0x80, CHR 0xA8]" "take 3 s \<noteq> [CHR 0xE2, CHR 0x80, CHR 0xA9]"
  shows "compact True (take (rune_width s) s @ t) = take (rune_width s) s @ compact True t"
proof -
  have "rune_width s \<in> {0, 1, 2, 3, 4}" by (simp add: rune_width_def)
  with w consider "rune_width s = 2" | "rune_width s = 3" | "rune_width s = 4" by auto
  then show ?thesis
  proof cases
    case 1
    with rune_width_le [of s] obtain a b u where s: "s = a # b # u"
      by (metis Suc_le_length_iff numeral_2_eq_2)
    from 1 s have "two_bytes a b" by (auto simp: rune_width_def split: if_splits)
    then have "128 \<le> (of_char a :: nat)" "128 \<le> (of_char b :: nat)" "a \<noteq> CHR 0xE2" "b \<noteq> CHR 0xE2"
      by (auto simp: two_bytes_def)
    then show ?thesis using compact_high [of a "b # t"] compact_high [of b t]
      by (simp add: 1 [unfolded s] s del: compact.simps)
  next
    case 2
    with rune_width_le [of s] obtain a b c u where s: "s = a # b # c # u"
      by (metis Suc_le_length_iff numeral_3_eq_3)
    from 2 s have "three_bytes a b c" by (auto simp: rune_width_def split: if_splits)
    then have "128 \<le> (of_char a :: nat)" "128 \<le> (of_char b :: nat)" "128 \<le> (of_char c :: nat)"
      "b \<noteq> CHR 0xE2" "c \<noteq> CHR 0xE2"
      by (auto simp: three_bytes_def)
    then show ?thesis using compact_high [of a "b # c # t"] compact_high [of b "c # t"] compact_high [of c t] sep
      by (simp add: 2 [unfolded s] s del: compact.simps)
  next
    case 3
    with rune_width_le [of s] obtain a b c d u where s: "s = a # b # c # d # u"
      by (cases s; cases "tl s"; cases "tl (tl s)"; cases "tl (tl (tl s))") auto
    from 3 s have "four_bytes a b c d" by (auto simp: rune_width_def split: if_splits)
    then have "128 \<le> (of_char a :: nat)" "128 \<le> (of_char b :: nat)" "128 \<le> (of_char c :: nat)"
      "128 \<le> (of_char d :: nat)" "a \<noteq> CHR 0xE2" "b \<noteq> CHR 0xE2" "c \<noteq> CHR 0xE2" "d \<noteq> CHR 0xE2"
      by (auto simp: four_bytes_def)
    then show ?thesis using compact_high [of a "b # c # d # t"] compact_high [of b "c # d # t"]
        compact_high [of c "d # t"] compact_high [of d t]
      by (simp add: 3 [unfolded s] s del: compact.simps)
  qed
qed

lemma plain_escapes: "list_all plain ''fffd''" "list_all plain ''2028''" "list_all plain ''2029''"
  by (simp_all add: plain_def is_ws_def html_unsafe_def)

lemma compact_u_escape:
  "list_all plain h \<Longrightarrow> compact True (backslash_char # CHR ''u'' # h @ t) = backslash_char # CHR ''u'' # h @ compact True t"
  by (simp add: compact_escape compact_plain del: compact.simps)

lemma compact_quote_body: "compact True (quote_body s @ t) = quote_body s @ compact True t"
proof (induction s rule: quote_body.induct)
  case (1 s)
  show ?case
  proof (cases s)
    case (Cons c r)
    consider "of_char c < (128 :: nat)"
      | "\<not> of_char c < (128 :: nat)" "rune_width s = 0"
      | "\<not> of_char c < (128 :: nat)" "rune_width s \<noteq> 0" "take 3 s = [CHR 0xE2, CHR 0x80, CHR 0xA8]"
      | "\<not> of_char c < (128 :: nat)" "rune_width s \<noteq> 0" "take 3 s = [CHR 0xE2, CHR 0x80, CHR 0xA9]"
      | "\<not> of_char c < (128 :: nat)" "rune_width s \<noteq> 0" "take 3 s \<noteq> [CHR 0xE2, CHR 0x80, CHR 0xA8]"
        "take 3 s \<noteq> [CHR 0xE2, CHR 0x80, CHR 0xA9]" by blast
    then show ?thesis
    proof cases
      case a: 1
      with Cons 1(1) show ?thesis by (simp add: quote_body_ascii compact_quote_ascii del: compact.simps)
    next
      case a: 2
      then have "quote_body s = backslash_char # CHR ''u'' # ''fffd'' @ quote_body r"
        using Cons by (subst quote_body.simps) auto
      with a 1(2) [OF Cons] show ?thesis using compact_u_escape [OF plain_escapes(1)] by simp
    next
      case a: 3
      then have "quote_body s = backslash_char # CHR ''u'' # ''2028'' @ quote_body (drop 3 s)"
        using Cons by (subst quote_body.simps) auto
      with a 1(3) [OF Cons] show ?thesis using compact_u_escape [OF plain_escapes(2)] by simp
    next
      case a: 4
      then have "quote_body s = backslash_char # CHR ''u'' # ''2029'' @ quote_body (drop 3 s)"
        using Cons by (subst quote_body.simps) auto
      with a 1(4) [OF Cons] show ?thesis using compact_u_escape [OF plain_escapes(3)] by simp
    next
      case a: 5
      then have "quote_body s = take (rune_width s) s @ quote_body (drop (rune_width s) s)"
        using Cons by (subst quote_body.simps) auto
      moreover have "rune_width s \<noteq> 1" using a Cons by (auto simp: rune_width_def split: if_splits)
      ultimately show ?thesis using a 1(5) [OF Cons] by (simp add: compact_rune)
    qed
  qed simp
qed

lemma compacts_json_string: "compacts (json_string s)"
proof -
  have "compact False (quote_char # t) = quote_char # compact True t" "compact True (quote_char # t) = quote_char # compact False t" for t
    by (simp_all add: is_ws_def html_unsafe_def)
  then show ?thesis by (simp add: compacts_def json_string_def compact_quote_body del: compact.simps)
qed


lemma plain_digit: "is_digit c \<Longrightarrow> plain c"
  by (auto simp: is_digit_def plain_def is_ws_def html_unsafe_def)

lemma compacts_show_int: "compacts (show_int i)"
proof -
  have "list_all plain (show_nat n)" for n
    using show_nat_digits [of n] by (auto simp: list_all_iff plain_digit)
  moreover have "plain (CHR ''-'')" by (simp add: plain_def is_ws_def html_unsafe_def)
  ultimately show ?thesis by (intro compacts_plain) (simp add: show_int_def)
qed

lemma compacts_literals: "compacts ''null''" "compacts (json_bool b)" "compacts '':''" "compacts '',''"
  "compacts ''{''" "compacts ''}''"
  by (auto intro!: compacts_plain simp: json_bool_def plain_def is_ws_def html_unsafe_def)

lemma compacts_member: "compacts t \<Longrightarrow> compacts (json_string k @ '':'' @ t)"
  by (intro compacts_append compacts_json_string compacts_literals)

lemma compacts_members: "list_all (\<lambda>(k, t). compacts t) ms \<Longrightarrow> compacts (json_members ms)"
proof (induction ms rule: json_members.induct)
  case 1
  show ?case by (simp add: compacts_def)
next
  case (2 k t)
  then show ?case using compacts_member [of t k] by simp
next
  case (3 k t m ms)
  then have "compacts ((json_string k @ '':'' @ t) @ '','' @ json_members (m # ms))"
    by (intro compacts_append [OF compacts_member compacts_append [OF compacts_literals(4)]]) auto
  then show ?case by simp
qed

lemma compacts_object: "list_all (\<lambda>(k, t). compacts t) ms \<Longrightarrow> compacts (json_object ms)"
  unfolding json_object_def by (intro compacts_append compacts_members compacts_literals)

lemma compact_id: "compacts t \<Longrightarrow> compact False t = t"
  unfolding compacts_def by (metis append_Nil2 compact.simps(1))

subsection \<open>Decoding a printed object\<close>

lemma valid_json_object:
  "fs \<noteq> [] \<Longrightarrow> list_all (good_field 1) fs \<Longrightarrow> valid_json (json_object (printed fs))"
  using rendersD [OF renders_object, of 0 fs "[]"]
  by (simp add: valid_json_def maxNestingDepth_def value_end_def)

lemma Unmarshal_object:
  "fs \<noteq> [] \<Longrightarrow> list_all (good_field 1) fs \<Longrightarrow>
   Unmarshal tags set_field r0 (json_object (printed fs)) = decode_members tags set_field fs (r0, None)"
  using rendersD [OF renders_object, of 0 fs "[]"]
  by (simp add: Unmarshal_def maxNestingDepth_def value_end_def)

lemma store_string_JStr [simp]: "store_string (JStr s) old = (s, None)"
  by (simp add: store_string_def)

lemma store_int_show [simp]: "is_int64 i \<Longrightarrow> store_int (JNum (show_int i)) old = (i, None)"
  by (simp add: store_int_def)

lemma store_bool_JBool [simp]: "store_bool (JBool b) old = (b, None)"
  by (simp add: store_bool_def)

lemma store_ptr_simps [simp]:
  "store_ptr st z JNull old = (None, None)"
  "store_ptr store_int 0 (JNum n) None = (case store_int (JNum n) 0 of (x, e) \<Rightarrow> (Some x, e))"
  "store_ptr store_string [] (JStr s) None = (Some s, None)"
  by (simp_all add: store_ptr_def)

text \<open>Fields of a printed object, by the type of the value.\<close>

definition str_field :: "string \<Rightarrow> string \<Rightarrow> field" where
  "str_field k s = (k, json_string s, JStr s)"

definition int_field :: "string \<Rightarrow> int \<Rightarrow> field" where
  "int_field k i = (k, show_int i, JNum (show_int i))"

definition bool_field :: "string \<Rightarrow> bool \<Rightarrow> field" where
  "bool_field k b = (k, json_bool b, JBool b)"

lemma good_fields [simp]:
  "good_field d (str_field k s) \<longleftrightarrow> valid_utf8 k \<and> renders d (json_string s) (JStr s)"
  "good_field d (int_field k i) \<longleftrightarrow> valid_utf8 k"
  "good_field d (bool_field k b) \<longleftrightarrow> valid_utf8 k"
  by (simp_all add: good_field_def str_field_def int_field_def bool_field_def renders_int renders_literals)

lemma printed_fields [simp]:
  "printed [] = []"
  "printed (str_field k s # fs) = (k, json_string s) # printed fs"
  "printed (int_field k i # fs) = (k, show_int i) # printed fs"
  "printed (bool_field k b # fs) = (k, json_bool b) # printed fs"
  "printed ((k, t, v) # fs) = (k, t) # printed fs"
  by (simp_all add: printed_def str_field_def int_field_def bool_field_def)

definition SubmitParams_fields :: "SubmitParams \<Rightarrow> field list" where
  "SubmitParams_fields p =
     [int_field ''job_id'' (sub_JobID p), str_field ''client_nonce'' (sub_ClientNonce p),
      str_field ''result'' (sub_Result p)]"

definition JobParams_fields :: "JobParams \<Rightarrow> field list" where
  "JobParams_fields p =
     [int_field ''job_id'' (job_JobID p), str_field ''server_nonce'' (job_ServerNonce p)]"

definition AuthorizeParams_fields :: "AuthorizeParams \<Rightarrow> field list" where
  "AuthorizeParams_fields p = [str_field ''username'' (auth_Username p)]"

definition Response_fields :: "Response \<Rightarrow> field list" where
  "Response_fields r = [int_field ''id'' (resp_ID r), bool_field ''result'' (resp_Result r)]
     @ (case resp_Error r of None \<Rightarrow> [] | Some m \<Rightarrow> [str_field ''error'' m])"

lemmas fields_defs = SubmitParams_fields_def JobParams_fields_def AuthorizeParams_fields_def Response_fields_def

lemma params_printed:
  "SubmitParams_json p = json_object (printed (SubmitParams_fields p))"
  "JobParams_json q = json_object (printed (JobParams_fields q))"
  "AuthorizeParams_json a = json_object (printed (AuthorizeParams_fields a))"
  by (simp_all add: fields_defs SubmitParams_json_def JobParams_json_def AuthorizeParams_json_def)

lemma Encode_Response_printed: "Encode_Response r = bytes_of (json_object (printed (Response_fields r)))"
  by (cases "resp_Error r") (simp_all add: Encode_Response_def fields_defs)

definition ok_SubmitParams :: "SubmitParams \<Rightarrow> bool" where
  "ok_SubmitParams p \<longleftrightarrow> is_int64 (sub_JobID p) \<and> valid_utf8 (sub_ClientNonce p) \<and> valid_utf8 (sub_Result p)"

definition ok_JobParams :: "JobParams \<Rightarrow> bool" where
  "ok_JobParams p \<longleftrightarrow> is_int64 (job_JobID p) \<and> valid_utf8 (job_ServerNonce p)"

definition ok_AuthorizeParams :: "AuthorizeParams \<Rightarrow> bool" where
  "ok_AuthorizeParams p \<longleftrightarrow> valid_utf8 (auth_Username p)"

definition ok_Response :: "Response \<Rightarrow> bool" where
  "ok_Response r \<longleftrightarrow> is_int64 (resp_ID r) \<and> pred_option valid_utf8 (resp_Error r)"

lemmas ok_defs = ok_SubmitParams_def ok_JobParams_def ok_AuthorizeParams_def ok_Response_def

lemma good_params:
  "ok_SubmitParams p \<Longrightarrow> list_all (good_field d) (SubmitParams_fields p)"
  "ok_JobParams q \<Longrightarrow> list_all (good_field d) (JobParams_fields q)"
  "ok_AuthorizeParams a \<Longrightarrow> list_all (good_field d) (AuthorizeParams_fields a)"
  "ok_Response r \<Longrightarrow> list_all (good_field d) (Response_fields r)"
  by (auto simp: fields_defs ok_defs renders_string split: option.splits)

lemma fields_nonempty [simp]:
  "SubmitParams_fields p \<noteq> []" "JobParams_fields q \<noteq> []" "AuthorizeParams_fields a \<noteq> []" "Response_fields r \<noteq> []"
  by (simp_all add: fields_defs)

subsection \<open>The contract of a message\<close>

locale message_codec =
  fixes Enc :: "'m \<Rightarrow> 't"
    and Dec :: "'t \<Rightarrow> 'm \<times> error option"
    and ok :: "'m \<Rightarrow> bool"
  assumes dec_enc: "ok m \<Longrightarrow> Dec (Enc m) = (m, None)"
begin

lemma enc_distinguishes: "ok m \<Longrightarrow> ok n \<Longrightarrow> Enc m = Enc n \<longleftrightarrow> m = n"
  by (metis dec_enc fst_conv)

lemma dec_no_error: "ok m \<Longrightarrow> snd (Dec (Enc m)) = None"
  by (simp add: dec_enc)

end

lemmas field_defs = int_field_def str_field_def bool_field_def find_field_def

interpretation submit_msg: message_codec SubmitParams_json Decode_SubmitParams ok_SubmitParams
proof
  fix p assume ok: "ok_SubmitParams p"
  show "Decode_SubmitParams (SubmitParams_json p) = (p, None)"
    unfolding Decode_SubmitParams_def params_printed Unmarshal_object [OF fields_nonempty(1) good_params(1) [OF ok]]
    using ok by (simp add: fields_defs ok_defs field_defs set_SubmitParams_def)
qed

interpretation job_msg: message_codec JobParams_json Decode_JobParams ok_JobParams
proof
  fix p assume ok: "ok_JobParams p"
  show "Decode_JobParams (JobParams_json p) = (p, None)"
    unfolding Decode_JobParams_def params_printed Unmarshal_object [OF fields_nonempty(2) good_params(2) [OF ok]]
    using ok by (simp add: fields_defs ok_defs field_defs set_JobParams_def)
qed

interpretation auth_msg: message_codec AuthorizeParams_json Decode_AuthorizeParams ok_AuthorizeParams
proof
  fix p assume ok: "ok_AuthorizeParams p"
  show "Decode_AuthorizeParams (AuthorizeParams_json p) = (p, None)"
    unfolding Decode_AuthorizeParams_def params_printed Unmarshal_object [OF fields_nonempty(3) good_params(3) [OF ok]]
    using ok by (simp add: fields_defs ok_defs field_defs set_AuthorizeParams_def)
qed

interpretation resp_msg: message_codec Encode_Response Decode_Response ok_Response
proof
  fix r assume ok: "ok_Response r"
  show "Decode_Response (Encode_Response r) = (r, None)"
    unfolding Decode_Response_def Encode_Response_printed string_of_bytes_of
      Unmarshal_object [OF fields_nonempty(4) good_params(4) [OF ok]]
    using ok by (cases "resp_Error r") (simp_all add: fields_defs ok_defs field_defs set_Response_def)
qed

subsection \<open>Requests\<close>

definition ptr_field :: "string \<Rightarrow> int option \<Rightarrow> field" where
  "ptr_field k p = (k, json_ptr_int p, case p of None \<Rightarrow> JNull | Some i \<Rightarrow> JNum (show_int i))"

lemma ptr_field_simps [simp]:
  "good_field d (ptr_field k p) \<longleftrightarrow> valid_utf8 k"
  "printed (ptr_field k p # fs) = (k, json_ptr_int p) # printed fs"
  by (cases p; simp add: good_field_def printed_def ptr_field_def json_ptr_int_def renders_int renders_literals)+

text \<open>A raw message that \<open>Marshal\<close> copies unchanged: one compact JSON value.\<close>

definition clean_raw :: "string \<Rightarrow> bool" where
  "clean_raw t \<longleftrightarrow> compacts t \<and> valid_json t \<and> (\<exists>v. renders 1 t v)"

lemma clean_object:
  assumes "fs \<noteq> []" "\<And>d. list_all (good_field d) fs" "list_all (\<lambda>(k, t). compacts t) (printed fs)"
  shows "clean_raw (json_object (printed fs))"
  using assms renders_object [of 1 fs] unfolding clean_raw_def
  by (auto simp: compacts_object valid_json_object maxNestingDepth_def)

lemma clean_params:
  "ok_SubmitParams p \<Longrightarrow> clean_raw (SubmitParams_json p)"
  "ok_JobParams q \<Longrightarrow> clean_raw (JobParams_json q)"
  "ok_AuthorizeParams a \<Longrightarrow> clean_raw (AuthorizeParams_json a)"
  unfolding params_printed
  by (intro clean_object fields_nonempty good_params, assumption,
      simp add: fields_defs compacts_json_string compacts_show_int)+

definition ok_Request :: "Request \<Rightarrow> bool" where
  "ok_Request r \<longleftrightarrow> pred_option is_int64 (req_ID r) \<and> valid_utf8 (req_Method r)
     \<and> (\<exists>t. req_Params r = Some t \<and> clean_raw t)"

lemma Decode_request_object:
  assumes "pred_option is_int64 i" "valid_utf8 m" "renders 1 t v"
  shows "Decode_Request (bytes_of (json_object [(''id'', json_ptr_int i), (''method'', json_string m), (''params'', t)]))
    = (\<lparr>req_ID = i, req_Method = m, req_Params = Some t\<rparr>, None)"
proof -
  let ?fs = "[ptr_field ''id'' i, str_field ''method'' m, (''params'', t, v)]"
  have "list_all (good_field 1) ?fs" using assms by (simp add: renders_string) (simp add: good_field_def)
  then have "Decode_Request (bytes_of (json_object (printed ?fs))) =
    decode_members [''id'', ''method'', ''params''] set_Request ?fs (\<lparr>req_ID = None, req_Method = [], req_Params = None\<rparr>, None)"
    unfolding Decode_Request_def string_of_bytes_of by (intro Unmarshal_object) simp_all
  with assms(1) show ?thesis
    by (cases i) (simp_all add: field_defs ptr_field_def set_Request_def)
qed

lemma Encode_Request_clean:
  "req_Params r = Some t \<Longrightarrow> clean_raw t \<Longrightarrow>
   Encode_Request r = Inr (bytes_of (json_object [(''id'', json_ptr_int (req_ID r)),
     (''method'', json_string (req_Method r)), (''params'', t)]))"
  by (simp add: Encode_Request_def clean_raw_def compact_id)

text \<open>The two directions of a request as a codec; a text that could not be encoded decodes to its error.\<close>

definition Decode_encoded :: "error + bytes \<Rightarrow> Request \<times> error option" where
  "Decode_encoded e = (case e of Inr b \<Rightarrow> Decode_Request b
     | Inl err \<Rightarrow> (\<lparr>req_ID = None, req_Method = [], req_Params = None\<rparr>, Some err))"

interpretation request_msg: message_codec Encode_Request Decode_encoded ok_Request
proof
  fix r assume "ok_Request r"
  then obtain t v where t: "req_Params r = Some t" "clean_raw t" "renders 1 t v"
    and r: "pred_option is_int64 (req_ID r)" "valid_utf8 (req_Method r)"
    by (auto simp: ok_Request_def clean_raw_def)
  show "Decode_encoded (Encode_Request r) = (r, None)"
    unfolding Encode_Request_clean [OF t(1,2)] Decode_encoded_def
    using Decode_request_object [OF r t(3)] t(1) by simp
qed

lemma ok_Request_params:
  "pred_option is_int64 i \<Longrightarrow> valid_utf8 m \<Longrightarrow> clean_raw t \<Longrightarrow>
   ok_Request \<lparr>req_ID = i, req_Method = m, req_Params = Some t\<rparr>"
  by (simp add: ok_Request_def)

subsection \<open>Invariants of decoding\<close>

lemma decode_members_inv:
  assumes "\<And>t raw v r. P r \<Longrightarrow> P (fst (set_field t raw v r))"
  shows "P (fst st) \<Longrightarrow> P (fst (decode_members tags set_field ms st))"
proof (induction ms arbitrary: st)
  case (Cons m ms)
  obtain k raw v where m: "m = (k, raw, v)" by (cases m)
  show ?case unfolding m decode_members.simps
    by (rule Cons.IH) (use Cons.prems assms in \<open>auto split: option.splits prod.splits, metis fst_conv\<close>)
qed simp

lemma Unmarshal_inv:
  assumes "\<And>t raw v r. P r \<Longrightarrow> P (fst (set_field t raw v r))" "P r0"
  shows "P (fst (Unmarshal tags set_field r0 txt))"
  using assms decode_members_inv [of P set_field "(r0, None)"]
  by (auto simp: Unmarshal_def split: option.splits prod.splits json.splits)

lemma store_int_int64: "is_int64 old \<Longrightarrow> is_int64 (fst (store_int v old))"
  by (auto simp: store_int_def ParseInt_def Let_def split: json.splits option.splits if_splits)

lemma Decode_JobParams_int64: "is_int64 (job_JobID (fst (Decode_JobParams t)))"
  unfolding Decode_JobParams_def
proof (rule Unmarshal_inv)
  fix t raw v and r :: JobParams assume "is_int64 (job_JobID r)"
  with store_int_int64 [of "job_JobID r" v] show "is_int64 (job_JobID (fst (set_JobParams t raw v r)))"
    by (auto simp: set_JobParams_def split: prod.splits)
qed (simp add: is_int64_def MinInt64_def MaxInt64_def)

lemma Decode_SubmitParams_int64: "is_int64 (sub_JobID (fst (Decode_SubmitParams t)))"
  unfolding Decode_SubmitParams_def
proof (rule Unmarshal_inv)
  fix t raw v and r :: SubmitParams assume "is_int64 (sub_JobID r)"
  with store_int_int64 [of "sub_JobID r" v] show "is_int64 (sub_JobID (fst (set_SubmitParams t raw v r)))"
    by (auto simp: set_SubmitParams_def split: prod.splits)
qed (simp add: is_int64_def MinInt64_def MaxInt64_def)

subsection \<open>Properties of the protocol\<close>

text \<open>
  C17: encoding and decoding are inverse. A request whose parameters are the JSON text of a
  submission, a job or an authorization decodes to itself, its raw parameters decode to the
  parameters, and a response decodes to itself, for every 64-bit number and every string of
  valid UTF-8, whatever characters have to be escaped.
\<close>

theorem message_roundtrip:
  assumes "pred_option is_int64 i" and "valid_utf8 m" and "ok_SubmitParams p" and "ok_JobParams q" and "ok_AuthorizeParams a"
    and "ok_Response s" and "t \<in> {SubmitParams_json p, JobParams_json q, AuthorizeParams_json a}"
  shows "(\<exists>b. Encode_Request \<lparr>req_ID = i, req_Method = m, req_Params = Some t\<rparr> = Inr b
      \<and> Decode_Request b = (\<lparr>req_ID = i, req_Method = m, req_Params = Some t\<rparr>, None))
    \<and> Decode_SubmitParams (SubmitParams_json p) = (p, None) \<and> Decode_JobParams (JobParams_json q) = (q, None)
    \<and> Decode_AuthorizeParams (AuthorizeParams_json a) = (a, None) \<and> Decode_Response (Encode_Response s) = (s, None)"
proof -
  let ?r = "\<lparr>req_ID = i, req_Method = m, req_Params = Some t\<rparr>"
  have t: "clean_raw t" using assms(3-5,7) clean_params by blast
  then have "ok_Request ?r" using assms(1,2) by (intro ok_Request_params)
  from request_msg.dec_enc [OF this] Encode_Request_clean [of ?r t] t
  have "\<exists>b. Encode_Request ?r = Inr b \<and> Decode_Request b = (?r, None)" by (auto simp: Decode_encoded_def)
  then show ?thesis
    using submit_msg.dec_enc [OF assms(3)] job_msg.dec_enc [OF assms(4)] auth_msg.dec_enc [OF assms(5)] resp_msg.dec_enc [OF assms(6)]
    by blast
qed

theorem message_roundtrip_witness:
  "Decode_SubmitParams (SubmitParams_json \<lparr>sub_JobID = -5, sub_ClientNonce = ''a\<newline>b'', sub_Result = []\<rparr>)
    = (\<lparr>sub_JobID = -5, sub_ClientNonce = ''a\<newline>b'', sub_Result = []\<rparr>, None)"
  using message_roundtrip [of "Some 1" "''submit''" "\<lparr>sub_JobID = -5, sub_ClientNonce = ''a\<newline>b'', sub_Result = []\<rparr>"
      "\<lparr>job_JobID = 1, job_ServerNonce = []\<rparr>" "\<lparr>auth_Username = []\<rparr>" "\<lparr>resp_ID = 1, resp_Result = True, resp_Error = None\<rparr>"
      "JobParams_json \<lparr>job_JobID = 1, job_ServerNonce = []\<rparr>"]
  by (simp add: ok_defs is_int64_def MinInt64_def MaxInt64_def)


end
