(* ===== verification/Coordination.thy ===== *)
theory Coordination
  imports Types Protocol
begin

text \<open>
  \<open>app/server/coordinator.go\<close>: registration of sessions, rotation and broadcast of jobs,
  restoring after a restart. What the code draws from outside is an argument: the random
  bytes \<open>buf\<close>, the readings of the clock, the order in which a map is ranged over. The
  sections under the mutex are single state changes; \<open>broadcastJob\<close> returns \<open>Block\<close> when a
  push blocks (it then still holds the mutex).
\<close>

subsection \<open>Operations\<close>

definition NewCoordinator :: "'p ServerPusher \<Rightarrow> 'p \<Rightarrow> 's StatsStore \<Rightarrow> 's StateStore option \<Rightarrow> 's \<Rightarrow>
    'q MessageQueue \<Rightarrow> 'q \<Rightarrow> duration \<Rightarrow> duration \<Rightarrow> duration \<Rightarrow> ('p, 's, 'q) Coordinator" where
  "NewCoordinator p po st stt b m mo interval expire hw =
     \<lparr>sessions = Map.empty, jobID = 0, serverNonce = [], nonceInterval = interval, historyWindow = hw,
      srv = p, srv_obj = po, store = st, state = stt, backend = b, mq = m, mq_obj = mo,
      history = Map.empty, expireAfter = expire, stopCh = make_chan 0\<rparr>"

definition NewSession :: "string \<Rightarrow> string \<Rightarrow> Session" where
  "NewSession channelID username = \<lparr>ChannelID = channelID, Username = username, LatestJobID = 0,
     LatestServerNonce = [], LastSubmitAt = zero_time, UsedNonces = Map.empty\<rparr>"

definition RegisterSession :: "string \<Rightarrow> string \<Rightarrow> ('p, 's, 'q) Coordinator \<Rightarrow> ('p, 's, 'q) Coordinator" where
  "RegisterSession channelID username c =
     c\<lparr>sessions := (sessions c)(channelID \<mapsto> NewSession channelID username)\<rparr>"

definition UnregisterSession :: "string \<Rightarrow> ('p, 's, 'q) Coordinator \<Rightarrow> ('p, 's, 'q) Coordinator" where
  "UnregisterSession channelID c = c\<lparr>sessions := (sessions c)(channelID := None)\<rparr>"

definition rotateJob :: "bytes \<Rightarrow> go_time \<Rightarrow> go_time \<Rightarrow> ('p, 's, 'q) Coordinator \<Rightarrow> ('p, 's, 'q) Coordinator" where
  "rotateJob buf now now' c =
     (let j = int64 (jobID c + 1); n = EncodeToString buf;
          c1 = c\<lparr>jobID := j, serverNonce := n, history := (history c)(j \<mapsto> \<lparr>Nonce = n, CreatedAt = now\<rparr>)\<rparr>
      in case state c1 of
           None \<Rightarrow> c1
         | Some st \<Rightarrow> c1\<lparr>backend := snd (SaveJob st (jobID c1) (serverNonce c1) now' (backend c1))\<rparr>)"

record broadcastMsg =
  bm_ID :: "int option"
  bm_Method :: string
  bm_Params :: JobParams

definition Encode_broadcastMsg :: "broadcastMsg \<Rightarrow> bytes" where
  "Encode_broadcastMsg m = bytes_of (json_object [(''id'', json_ptr_int (bm_ID m)),
     (''method'', json_string (bm_Method m)), (''params'', JobParams_json (bm_Params m))])"

definition job_data :: "int \<Rightarrow> string \<Rightarrow> bytes" where
  "job_data j n = Encode_broadcastMsg \<lparr>bm_ID = None, bm_Method = ''job'',
     bm_Params = \<lparr>job_JobID = j, job_ServerNonce = n\<rparr>\<rparr>"

text \<open>The loop over the snapshot of the sessions, in the order of the snapshot.\<close>

fun deliver :: "int \<Rightarrow> string \<Rightarrow> bytes \<Rightarrow> string list \<Rightarrow> ('p, 's, 'q) Coordinator
    \<Rightarrow> ('p, 's, 'q) Coordinator outcome" where
  "deliver j n dat [] c = Ret c"
| "deliver j n dat (i # is) c =
     (case sessions c i of
        None \<Rightarrow> deliver j n dat is c
      | Some s \<Rightarrow>
          (case sp_Push (srv c) (ChannelID s) dat (srv_obj c) of
             Ret (_, p) \<Rightarrow> deliver j n dat is (c\<lparr>
               sessions := (sessions c)(i \<mapsto> s\<lparr>LatestJobID := j, LatestServerNonce := n\<rparr>), srv_obj := p\<rparr>)
           | Block \<Rightarrow> Block
           | Panic \<Rightarrow> Panic))"

definition broadcastJob :: "string list \<Rightarrow> ('p, 's, 'q) Coordinator \<Rightarrow> ('p, 's, 'q) Coordinator outcome" where
  "broadcastJob order c =
     deliver (jobID c) (serverNonce c) (job_data (jobID c) (serverNonce c)) order c"

text \<open>One tick of the ticker: its random bytes, its two clock readings, the range order.\<close>

record tick =
  tk_buf :: bytes
  tk_now :: go_time
  tk_now' :: go_time
  tk_order :: "string list"

definition coord_run :: "tick \<Rightarrow> ('p, 's, 'q) Coordinator \<Rightarrow> ('p, 's, 'q) Coordinator outcome" where
  "coord_run t c = broadcastJob (tk_order t) (rotateJob (tk_buf t) (tk_now t) (tk_now' t) c)"

definition restore :: "go_time \<Rightarrow> ('p, 's, 'q) Coordinator \<Rightarrow> ('p, 's, 'q) Coordinator" where
  "restore now c =
     (case state c of
        None \<Rightarrow> c
      | Some st \<Rightarrow>
          (let c1 = (case LoadLatestJob st (backend c) of
                 Inr (j, n, createdAt) \<Rightarrow>
                   if j > 0
                   then c\<lparr>jobID := j, serverNonce := n, history := (history c)(j \<mapsto> \<lparr>Nonce = n, CreatedAt = createdAt\<rparr>)\<rparr>
                   else c
               | Inl _ \<Rightarrow> c)
           in case LoadJobHistory st now (historyWindow c1) (backend c1) of
                Inr hist \<Rightarrow> c1\<lparr>history := history c1 ++ hist\<rparr>
              | Inl _ \<Rightarrow> c1))"

text \<open>
  \<open>loop\<close>: restore, one run at once, then one per tick until \<open>stopCh\<close> is closed; the list
  holds the runs made until then, the first being the immediate one. \<open>time.NewTicker\<close> panics
  on an interval that is not positive.
\<close>

fun coord_runs :: "tick list \<Rightarrow> ('p, 's, 'q) Coordinator \<Rightarrow> ('p, 's, 'q) Coordinator outcome" where
  "coord_runs [] c = Ret c"
| "coord_runs (t # ts) c =
     (case coord_run t c of Ret c' \<Rightarrow> coord_runs ts c' | Block \<Rightarrow> Block | Panic \<Rightarrow> Panic)"

definition coord_loop :: "go_time \<Rightarrow> tick list \<Rightarrow> ('p, 's, 'q) Coordinator \<Rightarrow> ('p, 's, 'q) Coordinator outcome" where
  "coord_loop now ticks c =
     (if nonceInterval c \<le> 0 then Panic else coord_runs ticks (restore now c))"

definition Stop :: "('p, 's, 'q) Coordinator \<Rightarrow> ('p, 's, 'q) Coordinator outcome" where
  "Stop c = (case chan_close (stopCh c) of Ret ch \<Rightarrow> Ret (c\<lparr>stopCh := ch\<rparr>) | Block \<Rightarrow> Block | Panic \<Rightarrow> Panic)"

subsection \<open>Shared by the handlers\<close>

text \<open>Writing through the session pointer, and the raw parameters of a request (nil is empty).\<close>

definition put_session :: "string \<Rightarrow> Session \<Rightarrow> ('p, 's, 'q) Coordinator \<Rightarrow> ('p, 's, 'q) Coordinator" where
  "put_session channelID s c = c\<lparr>sessions := (sessions c)(channelID \<mapsto> s)\<rparr>"

definition raw_params :: "Request \<Rightarrow> string" where
  "raw_params r = (case req_Params r of None \<Rightarrow> [] | Some t \<Rightarrow> t)"

lemma put_session_simps [server_simps]:
  "sessions (put_session i s c) = (sessions c)(i \<mapsto> s)" "history (put_session i s c) = history c"
  "jobID (put_session i s c) = jobID c" "serverNonce (put_session i s c) = serverNonce c" "mq (put_session i s c) = mq c"
  "mq_obj (put_session i s c) = mq_obj c" "backend (put_session i s c) = backend c" "state (put_session i s c) = state c"
  "store (put_session i s c) = store c" "srv (put_session i s c) = srv c" "srv_obj (put_session i s c) = srv_obj c"
  "expireAfter (put_session i s c) = expireAfter c" "stopCh (put_session i s c) = stopCh c"
  by (simp_all add: put_session_def)

subsection \<open>The broadcast message\<close>

lemma valid_utf8_hex: "valid_utf8 (EncodeToString b)"
proof -
  have "list_all (\<lambda>c. of_char c < (128 :: nat)) s \<Longrightarrow> valid_utf8 s" for s
    by (induction s) auto
  moreover have "list_all (\<lambda>c. of_char c < (128 :: nat)) hextable" by (simp add: hextable_def)
  then have "list_all (\<lambda>c. of_char c < (128 :: nat)) (EncodeToString b)"
    using set_EncodeToString [of b] by (auto simp: list_all_iff)
  ultimately show ?thesis by blast
qed

lemma job_data_request:
  assumes "is_int64 j" "valid_utf8 n"
  shows "Decode_Request (job_data j n) = (\<lparr>req_ID = None, req_Method = ''job'',
    req_Params = Some (JobParams_json \<lparr>job_JobID = j, job_ServerNonce = n\<rparr>)\<rparr>, None)"
proof -
  have "clean_raw (JobParams_json \<lparr>job_JobID = j, job_ServerNonce = n\<rparr>)"
    using assms by (intro clean_params) (simp add: ok_defs)
  then obtain v where "renders 1 (JobParams_json \<lparr>job_JobID = j, job_ServerNonce = n\<rparr>) v"
    by (auto simp: clean_raw_def)
  from Decode_request_object [OF _ _ this, of None "''job''"] show ?thesis
    by (simp add: job_data_def Encode_broadcastMsg_def)
qed

text \<open>Read as a response, the identifier is the zero value: \<open>null\<close> leaves it.\<close>

lemma job_data_response:
  assumes "is_int64 j" "valid_utf8 n"
  shows "Decode_Response (job_data j n) = (\<lparr>resp_ID = 0, resp_Result = False, resp_Error = None\<rparr>, None)"
proof -
  let ?p = "JobParams_json \<lparr>job_JobID = j, job_ServerNonce = n\<rparr>"
  have "clean_raw ?p" using assms by (intro clean_params) (simp add: ok_defs)
  then obtain v where v: "renders 1 ?p v" by (auto simp: clean_raw_def)
  let ?fs = "[ptr_field ''id'' None, str_field ''method'' ''job'', (''params'', ?p, v)]"
  have "list_all (good_field 1) ?fs" using v by (simp add: renders_string) (simp add: good_field_def)
  then have "Decode_Response (bytes_of (json_object (printed ?fs))) =
    decode_members [''id'', ''result'', ''error''] set_Response ?fs (\<lparr>resp_ID = 0, resp_Result = False, resp_Error = None\<rparr>, None)"
    unfolding Decode_Response_def string_of_bytes_of by (intro Unmarshal_object) simp_all
  then show ?thesis
    by (simp add: job_data_def Encode_broadcastMsg_def json_ptr_int_def field_defs ptr_field_def set_Response_def
        store_int_def upper_ascii_def char_of_def)
qed

subsection \<open>What a broadcast does\<close>

definition on_job :: "int \<Rightarrow> string \<Rightarrow> Session \<Rightarrow> Session" where
  "on_job j n s = s\<lparr>LatestJobID := j, LatestServerNonce := n\<rparr>"

definition filed_sessions :: "(string \<rightharpoonup> Session) \<Rightarrow> bool" where
  "filed_sessions m \<longleftrightarrow> (\<forall>i s. m i = Some s \<longrightarrow> ChannelID s = i)"

definition on_job_all :: "int \<Rightarrow> string \<Rightarrow> string set \<Rightarrow> (string \<rightharpoonup> Session) \<Rightarrow> (string \<rightharpoonup> Session)" where
  "on_job_all j n I m = (\<lambda>i. if i \<in> I then map_option (on_job j n) (m i) else m i)"

lemma on_job_all_insert: "i \<notin> I \<Longrightarrow> m i = Some s \<Longrightarrow> on_job_all j n I (m(i \<mapsto> on_job j n s)) = on_job_all j n (insert i I) m"
  by (auto simp: on_job_all_def fun_eq_iff)

lemma on_job_all_dom: "on_job_all j n (dom m) m = (\<lambda>i. map_option (on_job j n) (m i))"
  by (auto simp: on_job_all_def fun_eq_iff domIff)

lemma deliver_Ret:
  assumes "deliver j n dat order c = Ret c'" "distinct order" "set order \<subseteq> dom (sessions c)"
    "filed_sessions (sessions c)"
  shows "\<exists>p. push_each (srv c) dat order (srv_obj c) = Ret p \<and>
    c' = c\<lparr>sessions := on_job_all j n (set order) (sessions c), srv_obj := p\<rparr>"
  using assms
proof (induction order arbitrary: c)
  case Nil
  then show ?case by (simp add: on_job_all_def)
next
  case (Cons i order)
  then obtain s where s: "sessions c i = Some s" "ChannelID s = i" by (auto simp: filed_sessions_def)
  define m where "m = (sessions c)(i \<mapsto> on_job j n s)"
  from Cons.prems(1) s obtain r q where q: "sp_Push (srv c) i dat (srv_obj c) = Ret (r, q)"
    and d: "deliver j n dat order (c\<lparr>sessions := m, srv_obj := q\<rparr>) = Ret c'"
    by (auto simp: on_job_def m_def split: outcome.splits)
  have "filed_sessions m" using Cons.prems s(2) by (auto simp: filed_sessions_def on_job_def m_def)
  moreover have "set order \<subseteq> dom m" using Cons.prems(3) by (auto simp: m_def)
  ultimately obtain p where p: "push_each (srv c) dat order q = Ret p"
    "c' = c\<lparr>sessions := on_job_all j n (set order) m, srv_obj := p\<rparr>"
    using Cons.IH [OF d] Cons.prems(2) by auto
  moreover have "on_job_all j n (set order) m = on_job_all j n (set (i # order)) (sessions c)"
    unfolding m_def using on_job_all_insert [of i "set order" "sessions c" s] s(1) Cons.prems(2) by simp
  ultimately show ?case using q by simp
qed

lemma rotateJob_simps [server_simps]:
  "jobID (rotateJob buf now now' c) = int64 (jobID c + 1)"
  "serverNonce (rotateJob buf now now' c) = EncodeToString buf"
  "history (rotateJob buf now now' c) = (history c)(int64 (jobID c + 1) \<mapsto> \<lparr>Nonce = EncodeToString buf, CreatedAt = now\<rparr>)"
  "sessions (rotateJob buf now now' c) = sessions c" "srv (rotateJob buf now now' c) = srv c"
  "srv_obj (rotateJob buf now now' c) = srv_obj c" "mq_obj (rotateJob buf now now' c) = mq_obj c"
  "state (rotateJob buf now now' c) = state c" "store (rotateJob buf now now' c) = store c" "mq (rotateJob buf now now' c) = mq c"
  "expireAfter (rotateJob buf now now' c) = expireAfter c" "historyWindow (rotateJob buf now now' c) = historyWindow c"
  "stopCh (rotateJob buf now now' c) = stopCh c"
  by (simp_all add: rotateJob_def Let_def split: option.splits)

text \<open>One run of the ticker, when no push blocks.\<close>

lemma coord_run_Ret:
  assumes "coord_run t c = Ret c'" "distinct (tk_order t)" "set (tk_order t) = dom (sessions c)" "filed_sessions (sessions c)"
  shows "\<exists>p. push_each (srv c) (job_data (jobID c') (serverNonce c')) (tk_order t) (srv_obj c) = Ret p
    \<and> srv_obj c' = p
    \<and> jobID c' = int64 (jobID c + 1) \<and> serverNonce c' = EncodeToString (tk_buf t)
    \<and> sessions c' = (\<lambda>i. map_option (on_job (jobID c') (serverNonce c')) (sessions c i))
    \<and> history c' = (history c)(jobID c' \<mapsto> \<lparr>Nonce = serverNonce c', CreatedAt = tk_now t\<rparr>)
    \<and> backend c' = backend (rotateJob (tk_buf t) (tk_now t) (tk_now' t) c)
    \<and> mq_obj c' = mq_obj c \<and> mq c' = mq c \<and> store c' = store c \<and> state c' = state c \<and> expireAfter c' = expireAfter c"
proof -
  let ?c1 = "rotateJob (tk_buf t) (tk_now t) (tk_now' t) c"
  from deliver_Ret [OF assms(1) [unfolded coord_run_def broadcastJob_def]] assms(2-) obtain p where
    "push_each (srv c) (job_data (jobID ?c1) (serverNonce ?c1)) (tk_order t) (srv_obj c) = Ret p"
    "c' = ?c1\<lparr>sessions := on_job_all (jobID ?c1) (serverNonce ?c1) (dom (sessions c)) (sessions c), srv_obj := p\<rparr>"
    by (auto simp: server_simps)
  then show ?thesis by (simp add: server_simps on_job_all_dom)
qed

subsection \<open>Restoring what was saved\<close>

context state_store
begin

lemma rotate_saves:
  "state c = Some ops \<Longrightarrow> backend (rotateJob buf now now' c)
     = snd (SaveJob ops (int64 (jobID c + 1)) (EncodeToString buf) now' (backend c))"
  by (simp add: rotateJob_def Let_def)

lemma restore_latest:
  assumes "state c = Some ops" "LoadLatestJob ops (backend c) = Inr (j, n, t)" "0 < j"
  shows "jobID (restore now c) = j" "serverNonce (restore now c) = n"
proof -
  obtain h where "LoadJobHistory ops now (historyWindow c) (backend c) = Inr h" using history_window by blast
  with assms show "jobID (restore now c) = j" "serverNonce (restore now c) = n"
    by (simp_all add: restore_def Let_def)
qed

lemma restore_history:
  assumes "state c = Some ops" "LoadLatestJob ops (backend c) = Inr (j, n, t)" "0 < j"
    and "jobs (backend c) j = Some \<lparr>Nonce = n, CreatedAt = t\<rparr>" "history c = Map.empty"
  shows "history (restore now c) j = Some \<lparr>Nonce = n, CreatedAt = t\<rparr>"
    and "history (restore now c) \<subseteq>\<^sub>m jobs (backend c)"
    and "historyWindow c = 0 \<Longrightarrow> history (restore now c) = jobs (backend c)"
proof -
  obtain h where h: "LoadJobHistory ops now (historyWindow c) (backend c) = Inr h" "h \<subseteq>\<^sub>m jobs (backend c)"
    using history_window by blast
  have r: "history (restore now c) = [j \<mapsto> \<lparr>Nonce = n, CreatedAt = t\<rparr>] ++ h"
    using assms(1-3,5) h(1) by (simp add: restore_def Let_def)
  have hj: "h j = None \<or> h j = jobs (backend c) j" using h(2) by (auto simp: map_le_def dom_def)
  with assms(4) show "history (restore now c) j = Some \<lparr>Nonce = n, CreatedAt = t\<rparr>"
    unfolding r by (auto simp: map_add_def split: option.splits)
  show "history (restore now c) \<subseteq>\<^sub>m jobs (backend c)"
    unfolding r using h(2) assms(4) by (auto simp: map_le_def map_add_def dom_def split: option.splits if_splits)
  show "history (restore now c) = jobs (backend c)" if "historyWindow c = 0"
  proof -
    have "h = jobs (backend c)" using history_all [of now "backend c"] h(1) that by simp
    then show ?thesis unfolding r using assms(4) by (auto simp: fun_eq_iff map_add_def split: option.splits)
  qed
qed

end

end
