(* ===== verification/Wire.thy ===== *)
theory Wire
  imports Prelude
begin

text \<open>
  \<open>wire/endian/helper.go\<close>: little-endian integers and length-prefixed byte strings over an
  \<open>io.Reader\<close> and an \<open>io.Writer\<close>. A reader is the bytes the peer will still deliver and the
  error the connection then ends with; a writer is what has been written and, when the
  connection is going to fail, after how many more bytes and with which error. The locale
  \<open>stream_codec\<close> states what an encoder and a reader owe each other; its lemmas give the
  reading of whole sequences, and it is interpreted on every pair of the package.
\<close>

subsection \<open>Readers and writers\<close>

record reader =
  rbuf :: bytes
  rend :: error

record writer =
  wbuf :: bytes
  wfail :: "(nat \<times> error) option"

text \<open>
  \<open>io.ReadFull(r, buf)\<close> with \<open>n = len(buf)\<close>: all of the \<open>n\<close> bytes, or the error that ended
  the stream; an end of file after some but not all bytes is \<open>ErrUnexpectedEOF\<close>.
\<close>

definition ReadFull :: "nat \<Rightarrow> reader \<Rightarrow> (error + bytes) \<times> reader" where
  "ReadFull n r =
     (if n \<le> length (rbuf r) then (Inr (take n (rbuf r)), r\<lparr>rbuf := drop n (rbuf r)\<rparr>)
      else (Inl (if rbuf r \<noteq> [] \<and> rend r = EOF then ErrUnexpectedEOF else rend r),
            r\<lparr>rbuf := []\<rparr>))"

text \<open>\<open>w.Write(buf)\<close>: everything, or a prefix and the error.\<close>

definition Write :: "bytes \<Rightarrow> writer \<Rightarrow> error option \<times> writer" where
  "Write buf w =
     (case wfail w of
        None \<Rightarrow> (None, w\<lparr>wbuf := wbuf w @ buf\<rparr>)
      | Some (k, e) \<Rightarrow>
          if length buf \<le> k
          then (None, w\<lparr>wbuf := wbuf w @ buf, wfail := Some (k - length buf, e)\<rparr>)
          else (Some e, w\<lparr>wbuf := wbuf w @ take k buf, wfail := Some (0, e)\<rparr>))"

subsection \<open>Little-endian integers (\<open>binary.LittleEndian\<close>)\<close>

definition PutUint16 :: "16 word \<Rightarrow> bytes" where
  "PutUint16 v = [ucast v, ucast (drop_bit 8 v)]"

definition PutUint32 :: "32 word \<Rightarrow> bytes" where
  "PutUint32 v = [ucast v, ucast (drop_bit 8 v), ucast (drop_bit 16 v), ucast (drop_bit 24 v)]"

definition PutUint64 :: "64 word \<Rightarrow> bytes" where
  "PutUint64 v = [ucast v, ucast (drop_bit 8 v), ucast (drop_bit 16 v), ucast (drop_bit 24 v),
     ucast (drop_bit 32 v), ucast (drop_bit 40 v), ucast (drop_bit 48 v), ucast (drop_bit 56 v)]"

definition Uint16 :: "bytes \<Rightarrow> 16 word" where
  "Uint16 b = ucast (b ! 0) OR push_bit 8 (ucast (b ! 1))"

definition Uint32 :: "bytes \<Rightarrow> 32 word" where
  "Uint32 b = ucast (b ! 0) OR push_bit 8 (ucast (b ! 1)) OR push_bit 16 (ucast (b ! 2))
     OR push_bit 24 (ucast (b ! 3))"

definition Uint64 :: "bytes \<Rightarrow> 64 word" where
  "Uint64 b = ucast (b ! 0) OR push_bit 8 (ucast (b ! 1)) OR push_bit 16 (ucast (b ! 2))
     OR push_bit 24 (ucast (b ! 3)) OR push_bit 32 (ucast (b ! 4)) OR push_bit 40 (ucast (b ! 5))
     OR push_bit 48 (ucast (b ! 6)) OR push_bit 56 (ucast (b ! 7))"

subsection \<open>Reading\<close>

definition ReadUint8 :: "reader \<Rightarrow> (error + 8 word) \<times> reader" where
  "ReadUint8 r =
     (case ReadFull 1 r of (Inl e, r') \<Rightarrow> (Inl e, r') | (Inr b, r') \<Rightarrow> (Inr (b ! 0), r'))"

definition ReadUint16 :: "reader \<Rightarrow> (error + 16 word) \<times> reader" where
  "ReadUint16 r =
     (case ReadFull 2 r of (Inl e, r') \<Rightarrow> (Inl e, r') | (Inr b, r') \<Rightarrow> (Inr (Uint16 b), r'))"

definition ReadUint32 :: "reader \<Rightarrow> (error + 32 word) \<times> reader" where
  "ReadUint32 r =
     (case ReadFull 4 r of (Inl e, r') \<Rightarrow> (Inl e, r') | (Inr b, r') \<Rightarrow> (Inr (Uint32 b), r'))"

definition ReadUint64 :: "reader \<Rightarrow> (error + 64 word) \<times> reader" where
  "ReadUint64 r =
     (case ReadFull 8 r of (Inl e, r') \<Rightarrow> (Inl e, r') | (Inr b, r') \<Rightarrow> (Inr (Uint64 b), r'))"

definition ReadBytes :: "reader \<Rightarrow> (error + bytes) \<times> reader" where
  "ReadBytes r =
     (case ReadUint32 r of
        (Inl e, r') \<Rightarrow> (Inl e, r')
      | (Inr bufLen, r') \<Rightarrow> ReadFull (unat bufLen) r')"

definition ReadString :: "reader \<Rightarrow> (error + string) \<times> reader" where
  "ReadString r =
     (case ReadBytes r of (Inl e, r') \<Rightarrow> (Inl e, r') | (Inr b, r') \<Rightarrow> (Inr (string_of b), r'))"

definition ReadFixedBytes :: "nat \<Rightarrow> reader \<Rightarrow> (error + bytes) \<times> reader" where
  "ReadFixedBytes len r = ReadFull len r"

definition ReadShortBytes :: "reader \<Rightarrow> (error + bytes) \<times> reader" where
  "ReadShortBytes r =
     (case ReadUint16 r of
        (Inl e, r') \<Rightarrow> (Inl e, r')
      | (Inr bufLen, r') \<Rightarrow> ReadFull (unat bufLen) r')"

definition ReadShortString :: "reader \<Rightarrow> (error + string) \<times> reader" where
  "ReadShortString r =
     (case ReadShortBytes r of (Inl e, r') \<Rightarrow> (Inl e, r') | (Inr b, r') \<Rightarrow> (Inr (string_of b), r'))"

subsection \<open>Writing\<close>

definition WriteUint8 :: "8 word \<Rightarrow> writer \<Rightarrow> error option \<times> writer" where
  "WriteUint8 val w = Write [val] w"

definition WriteUint16 :: "16 word \<Rightarrow> writer \<Rightarrow> error option \<times> writer" where
  "WriteUint16 val w = Write (PutUint16 val) w"

definition WriteUint32 :: "32 word \<Rightarrow> writer \<Rightarrow> error option \<times> writer" where
  "WriteUint32 val w = Write (PutUint32 val) w"

definition WriteUint64 :: "64 word \<Rightarrow> writer \<Rightarrow> error option \<times> writer" where
  "WriteUint64 val w = Write (PutUint64 val) w"

definition WriteBytes :: "bytes \<Rightarrow> writer \<Rightarrow> error option \<times> writer" where
  "WriteBytes buf w =
     (case WriteUint32 (of_nat (length buf)) w of
        (Some e, w') \<Rightarrow> (Some e, w')
      | (None, w') \<Rightarrow> Write buf w')"

definition WriteString :: "string \<Rightarrow> writer \<Rightarrow> error option \<times> writer" where
  "WriteString str w = WriteBytes (bytes_of str) w"

definition WriteShortBytes :: "bytes \<Rightarrow> writer \<Rightarrow> error option \<times> writer" where
  "WriteShortBytes buf w =
     (case WriteUint16 (of_nat (length buf)) w of
        (Some e, w') \<Rightarrow> (Some e, w')
      | (None, w') \<Rightarrow> Write buf w')"

subsection \<open>Integer round trips\<close>

lemma length_PutUint [simp]:
  "length (PutUint16 v) = 2" "length (PutUint32 w) = 4" "length (PutUint64 x) = 8"
  by (simp_all add: PutUint16_def PutUint32_def PutUint64_def)

text \<open>Byte \<open>s div 8\<close> of \<open>v\<close>, put back in place, holds the bits \<open>s .. s + 7\<close> of \<open>v\<close>.\<close>

lemma bit_byte_slice:
  fixes v :: "'a::len word"
  shows "bit (push_bit s (ucast (ucast (drop_bit s v) :: byte)) :: 'a word) n
    \<longleftrightarrow> s \<le> n \<and> n < s + 8 \<and> bit v n"
  by (auto simp: bit_simps dest: bit_imp_le_length)

lemma bit_byte_slice_0:
  fixes v :: "'a::len word"
  shows "bit (ucast (ucast v :: byte) :: 'a word) n \<longleftrightarrow> n < 8 \<and> bit v n"
  by (auto simp: bit_simps dest: bit_imp_le_length)

lemmas byte_slices = bit_or_iff bit_byte_slice bit_byte_slice_0

lemma Uint16_PutUint16 [simp]: "Uint16 (PutUint16 v) = v"
proof (rule bit_word_eqI)
  fix n assume "n < LENGTH(16)"
  then have "n < 8 \<or> 8 \<le> n \<and> n < 16" by (simp; arith)
  then show "bit (Uint16 (PutUint16 v)) n = bit v n"
    by (auto simp: Uint16_def PutUint16_def byte_slices)
qed

lemma Uint32_PutUint32 [simp]: "Uint32 (PutUint32 v) = v"
proof (rule bit_word_eqI)
  fix n assume "n < LENGTH(32)"
  then have "n < 8 \<or> 8 \<le> n \<and> n < 16 \<or> 16 \<le> n \<and> n < 24 \<or> 24 \<le> n \<and> n < 32"
    by (simp; arith)
  then show "bit (Uint32 (PutUint32 v)) n = bit v n"
    by (auto simp: Uint32_def PutUint32_def byte_slices)
qed

lemma Uint64_PutUint64 [simp]: "Uint64 (PutUint64 v) = v"
proof (rule bit_word_eqI)
  fix n assume "n < LENGTH(64)"
  then have "n < 8 \<or> 8 \<le> n \<and> n < 16 \<or> 16 \<le> n \<and> n < 24 \<or> 24 \<le> n \<and> n < 32
    \<or> 32 \<le> n \<and> n < 40 \<or> 40 \<le> n \<and> n < 48 \<or> 48 \<le> n \<and> n < 56 \<or> 56 \<le> n \<and> n < 64"
    by (simp; arith)
  then show "bit (Uint64 (PutUint64 v)) n = bit v n"
    by (auto simp: Uint64_def PutUint64_def byte_slices)
qed

subsection \<open>Reading what was written\<close>

lemma ReadFull_append [wire_simps]:
  "length b = n \<Longrightarrow> ReadFull n \<lparr>rbuf = b @ rest, rend = e\<rparr> = (Inr b, \<lparr>rbuf = rest, rend = e\<rparr>)"
  by (simp add: ReadFull_def)

lemma ReadFull_short [wire_simps]:
  "length b < n \<Longrightarrow> ReadFull n \<lparr>rbuf = b, rend = e\<rparr>
     = (Inl (if b \<noteq> [] \<and> e = EOF then ErrUnexpectedEOF else e), \<lparr>rbuf = [], rend = e\<rparr>)"
  by (simp add: ReadFull_def)

lemma ReadFull_Inr_length: "fst (ReadFull n r) = Inr b \<Longrightarrow> length b = n"
  by (auto simp: ReadFull_def split: if_splits)

lemma Write_None_iff:
  "fst (Write buf w) = None \<longleftrightarrow> (\<forall>k e. wfail w = Some (k, e) \<longrightarrow> length buf \<le> k)"
  by (auto simp: Write_def split: option.splits)

text \<open>What a writer holds after a call: all of the text on success, a strict prefix on failure.\<close>

definition wrote :: "bytes \<Rightarrow> writer \<Rightarrow> error option \<times> writer \<Rightarrow> bool" where
  "wrote buf w res \<longleftrightarrow>
     (case fst res of
        None \<Rightarrow> wbuf (snd res) = wbuf w @ buf
      | Some e \<Rightarrow> (\<exists>n < length buf. wbuf (snd res) = wbuf w @ take n buf))"

lemma wroteI_fail:
  "fst r = Some e \<Longrightarrow> n < length buf \<Longrightarrow> wbuf (snd r) = wbuf w @ take n buf \<Longrightarrow> wrote buf w r"
  by (auto simp: wrote_def)

lemma wroteE_fail:
  assumes "wrote buf w r" and "fst r = Some e"
  obtains n where "n < length buf" and "wbuf (snd r) = wbuf w @ take n buf"
  using assms by (auto simp: wrote_def)

lemma wrote_Write: "wrote buf w (Write buf w)"
proof (cases "fst (Write buf w)")
  case None
  then show ?thesis by (auto simp: wrote_def Write_def split: option.splits if_splits)
next
  case (Some e)
  then obtain k where "\<not> length buf \<le> k" "wfail w = Some (k, e)"
    by (auto simp: Write_def split: option.splits if_splits)
  then show ?thesis by (intro wroteI_fail [OF Some, of k]) (auto simp: Write_def)
qed

lemma wrote_seq:
  assumes "wrote a w r" and "fst r = None" and "wrote b (snd r) r'"
  shows "wrote (a @ b) w r'"
proof (cases "fst r'")
  case None
  with assms show ?thesis by (simp add: wrote_def)
next
  case (Some e)
  with assms(3) obtain n where "n < length b" "wbuf (snd r') = wbuf (snd r) @ take n b"
    by (rule wroteE_fail)
  with assms show ?thesis
    by (intro wroteI_fail [OF Some, of "length a + n"]) (auto simp: wrote_def)
qed

lemma wrote_fail:
  assumes "wrote a w r" and "fst r = Some e"
  shows "wrote (a @ b) w r"
proof -
  from assms obtain n where "n < length a" "wbuf (snd r) = wbuf w @ take n a"
    by (rule wroteE_fail)
  then show ?thesis by (intro wroteI_fail [OF assms(2), of n]) auto
qed

text \<open>Two writes in a row, the second only after the first succeeded.\<close>

lemma wrote_two:
  assumes "wrote a w (f w)" and "\<And>w'. wrote b w' (g w')"
  shows "wrote (a @ b) w (case f w of (Some e, w') \<Rightarrow> (Some e, w') | (None, w') \<Rightarrow> g w')"
proof (cases "f w")
  case (Pair o1 w1)
  show ?thesis
  proof (cases o1)
    case None
    with Pair assms show ?thesis by (auto intro: wrote_seq [of a w "f w"])
  next
    case (Some e)
    with Pair assms(1) show ?thesis using wrote_fail [of a w "f w" e b] by simp
  qed
qed

definition enc_bytes :: "bytes \<Rightarrow> bytes" where
  "enc_bytes buf = PutUint32 (of_nat (length buf)) @ buf"

definition enc_short_bytes :: "bytes \<Rightarrow> bytes" where
  "enc_short_bytes buf = PutUint16 (of_nat (length buf)) @ buf"

lemma wrote_WriteBytes: "wrote (enc_bytes buf) w (WriteBytes buf w)"
  unfolding WriteBytes_def enc_bytes_def WriteUint32_def
  by (rule wrote_two) (rule wrote_Write)+

lemma wrote_WriteShortBytes: "wrote (enc_short_bytes buf) w (WriteShortBytes buf w)"
  unfolding WriteShortBytes_def enc_short_bytes_def WriteUint16_def
  by (rule wrote_two) (rule wrote_Write)+

subsection \<open>The contract of an encoder and its reader\<close>

text \<open>Reading \<open>n\<close> values one after the other, stopping at the first error.\<close>

primrec read_n :: "(reader \<Rightarrow> (error + 'a) \<times> reader) \<Rightarrow> nat \<Rightarrow> reader \<Rightarrow> (error + 'a list) \<times> reader"
where
  "read_n rd 0 r = (Inr [], r)"
| "read_n rd (Suc n) r =
     (case rd r of
        (Inl e, r') \<Rightarrow> (Inl e, r')
      | (Inr v, r') \<Rightarrow>
          (case read_n rd n r' of (Inl e, r'') \<Rightarrow> (Inl e, r'') | (Inr vs, r'') \<Rightarrow> (Inr (v # vs), r'')))"

locale stream_codec =
  fixes enc :: "'a \<Rightarrow> bytes"
    and rd :: "reader \<Rightarrow> (error + 'a) \<times> reader"
    and ok :: "'a \<Rightarrow> bool"
  assumes rd_enc: "ok v \<Longrightarrow> rd \<lparr>rbuf = enc v @ rest, rend = e\<rparr> = (Inr v, \<lparr>rbuf = rest, rend = e\<rparr>)"
    and rd_cut: "ok v \<Longrightarrow> n < length (enc v) \<Longrightarrow>
      \<exists>e'. (e' = e \<or> e = EOF \<and> e' = ErrUnexpectedEOF)
        \<and> rd \<lparr>rbuf = take n (enc v), rend = e\<rparr> = (Inl e', \<lparr>rbuf = [], rend = e\<rparr>)"
begin

lemma read_all:
  "(\<And>v. v \<in> set vs \<Longrightarrow> ok v) \<Longrightarrow>
   read_n rd (length vs) \<lparr>rbuf = concat (map enc vs) @ rest, rend = e\<rparr>
     = (Inr vs, \<lparr>rbuf = rest, rend = e\<rparr>)"
  by (induction vs) (simp_all add: rd_enc)

lemma enc_prefix_free:
  assumes "ok v" and "ok u" and "enc v @ r = enc u @ s"
  shows "v = u \<and> r = s"
proof -
  have "rd \<lparr>rbuf = enc v @ r, rend = EOF\<rparr> = rd \<lparr>rbuf = enc u @ s, rend = EOF\<rparr>"
    using assms(3) by simp
  then show ?thesis using assms(1,2) by (simp add: rd_enc)
qed

lemma enc_inject: "ok v \<Longrightarrow> ok u \<Longrightarrow> enc v = enc u \<longleftrightarrow> v = u"
  using enc_prefix_free [of v u "[]" "[]"] by auto

lemma read_cut_stream:
  assumes "\<And>v. v \<in> set vs \<Longrightarrow> ok v" and "ok u" and "n < length (enc u)"
  shows "\<exists>e'. (e' = e \<or> e = EOF \<and> e' = ErrUnexpectedEOF) \<and>
    read_n rd (Suc (length vs)) \<lparr>rbuf = concat (map enc vs) @ take n (enc u), rend = e\<rparr>
      = (Inl e', \<lparr>rbuf = [], rend = e\<rparr>)"
  using assms
proof (induction vs)
  case Nil
  then show ?case using rd_cut [of u n e] by auto
next
  case (Cons v vs)
  then obtain e' where "e' = e \<or> e = EOF \<and> e' = ErrUnexpectedEOF"
    "read_n rd (Suc (length vs)) \<lparr>rbuf = concat (map enc vs) @ take n (enc u), rend = e\<rparr>
      = (Inl e', \<lparr>rbuf = [], rend = e\<rparr>)" by auto
  with Cons.prems show ?case by (intro exI [of _ e']) (simp add: rd_enc)
qed

end

subsection \<open>Codecs of fixed width, with a length prefix, in sequence\<close>

lemma ReadFull_cut:
  "n < length b \<Longrightarrow> \<exists>e'. (e' = e \<or> e = EOF \<and> e' = ErrUnexpectedEOF) \<and>
     ReadFull (length b) \<lparr>rbuf = take n b, rend = e\<rparr> = (Inl e', \<lparr>rbuf = [], rend = e\<rparr>)"
  by (simp add: ReadFull_short)

lemma fixed_width_codec:
  assumes "\<And>v. length (enc v) = k" and "\<And>v. dec (enc v) = v"
  shows "stream_codec enc (\<lambda>r. case ReadFull k r of (Inl e, r') \<Rightarrow> (Inl e, r')
    | (Inr b, r') \<Rightarrow> (Inr (dec b), r')) (\<lambda>_. True)"
proof (unfold_locales, goal_cases)
  case (1 v rest e)
  with assms show ?case by (simp add: ReadFull_append)
next
  case (2 v n e)
  with ReadFull_cut [of n "enc v" e] assms(1) [of v] show ?case by auto
qed

lemma seq_codec:
  assumes A: "stream_codec enca rda oka"
    and B: "\<And>x. okp x \<Longrightarrow> oka (fa x) \<and> rdb (fa x) = rdx x \<and> stream_codec encb (rdx x) (okb (fa x))"
    and C: "\<And>x. okp x \<Longrightarrow> okb (fa x) x"
  shows "stream_codec (\<lambda>x. enca (fa x) @ encb x)
    (\<lambda>r. case rda r of (Inl e, r') \<Rightarrow> (Inl e, r') | (Inr v, r') \<Rightarrow> rdb v r') okp"
proof (unfold_locales, goal_cases)
  case (1 x rest e)
  with B [of x] C [of x] stream_codec.rd_enc [of encb "rdx x" "okb (fa x)" x rest e] show ?case
    by (simp add: stream_codec.rd_enc [OF A])
next
  case (2 x n e)
  show ?case
  proof (cases "n < length (enca (fa x))")
    case True
    with stream_codec.rd_cut [OF A, of "fa x" n e] B [of x] 2 show ?thesis by auto
  next
    case False
    with 2 have "n - length (enca (fa x)) < length (encb x)" by simp
    with stream_codec.rd_cut [of encb "rdx x" "okb (fa x)" x _ e] B [of x] C [of x] 2 False
    show ?thesis by (auto simp: stream_codec.rd_enc [OF A])
  qed
qed

lemma ReadFull_codec: "stream_codec (\<lambda>b. b) (ReadFull n) (\<lambda>b. length b = n)"
proof (unfold_locales, goal_cases)
  case (1 b rest e)
  then show ?case by (simp add: ReadFull_append)
next
  case (2 b m e)
  then show ?case using ReadFull_cut [of m b e] by auto
qed

lemma map_codec:
  assumes A: "stream_codec enc rd ok" and "\<And>v. g (f v) = v"
  shows "stream_codec (\<lambda>v. enc (f v)) (\<lambda>r. case rd r of (Inl e, r') \<Rightarrow> (Inl e, r')
    | (Inr b, r') \<Rightarrow> (Inr (g b), r')) (\<lambda>v. ok (f v))"
proof (unfold_locales, goal_cases)
  case (1 v rest e)
  with assms show ?case by (simp add: stream_codec.rd_enc [OF A])
next
  case (2 v n e)
  with stream_codec.rd_cut [OF A, of "f v" n e] show ?case by auto
qed

subsection \<open>The package's codecs\<close>

interpretation u8: stream_codec "\<lambda>v. [v]" ReadUint8 "\<lambda>_. True"
  using fixed_width_codec [of "\<lambda>v. [v]" 1 "\<lambda>b. b ! 0"]
  by (simp add: ReadUint8_def [abs_def])

interpretation u16: stream_codec PutUint16 ReadUint16 "\<lambda>_. True"
  using fixed_width_codec [of PutUint16 2 Uint16] by (simp add: ReadUint16_def [abs_def])

interpretation u32: stream_codec PutUint32 ReadUint32 "\<lambda>_. True"
  using fixed_width_codec [of PutUint32 4 Uint32] by (simp add: ReadUint32_def [abs_def])

interpretation u64: stream_codec PutUint64 ReadUint64 "\<lambda>_. True"
  using fixed_width_codec [of PutUint64 8 Uint64] by (simp add: ReadUint64_def [abs_def])

definition fits32 :: "'a list \<Rightarrow> bool" where
  "fits32 b \<longleftrightarrow> length b < 2 ^ 32"

definition fits16 :: "'a list \<Rightarrow> bool" where
  "fits16 b \<longleftrightarrow> length b < 2 ^ 16"

lemma unat_of_nat_len32: "fits32 b \<Longrightarrow> unat (of_nat (length b) :: 32 word) = length b"
  by (simp add: fits32_def unat_of_nat take_bit_eq_mod)

lemma unat_of_nat_len16: "fits16 b \<Longrightarrow> unat (of_nat (length b) :: 16 word) = length b"
  by (simp add: fits16_def unat_of_nat take_bit_eq_mod)

interpretation lbytes: stream_codec enc_bytes ReadBytes fits32
  unfolding enc_bytes_def [abs_def] ReadBytes_def [abs_def]
  by (rule seq_codec [where fa = "\<lambda>b. of_nat (length b)" and okb = "\<lambda>l b. length b = unat l"
        and rdx = "\<lambda>b. ReadFull (length b)", OF u32.stream_codec_axioms])
    (simp_all add: unat_of_nat_len32 ReadFull_codec)

interpretation sbytes: stream_codec enc_short_bytes ReadShortBytes fits16
  unfolding enc_short_bytes_def [abs_def] ReadShortBytes_def [abs_def]
  by (rule seq_codec [where fa = "\<lambda>b. of_nat (length b)" and okb = "\<lambda>l b. length b = unat l"
        and rdx = "\<lambda>b. ReadFull (length b)", OF u16.stream_codec_axioms])
    (simp_all add: unat_of_nat_len16 ReadFull_codec)

interpretation lstring: stream_codec "\<lambda>s. enc_bytes (bytes_of s)" ReadString "\<lambda>s. fits32 (bytes_of s)"
  using map_codec [OF lbytes.stream_codec_axioms, of string_of bytes_of]
  by (simp add: ReadString_def [abs_def])

interpretation sstring:
  stream_codec "\<lambda>s. enc_short_bytes (bytes_of s)" ReadShortString "\<lambda>s. fits16 (bytes_of s)"
  using map_codec [OF sbytes.stream_codec_axioms, of string_of bytes_of]
  by (simp add: ReadShortString_def [abs_def])

end
