(* ===== verification/Framing.thy ===== *)
theory Framing
  imports Wire
begin

text \<open>
  \<open>tcp/connection.go\<close> and the opcodes of \<open>server.go\<close>: a frame is one opcode byte and a
  payload with a 32-bit little-endian length. \<open>WriteFrame\<close> and \<open>ReadFrame\<close> are
  interpreted as a \<open>stream_codec\<close>, so a connection delivers exactly the frames written.
\<close>

subsection \<open>Opcodes\<close>

definition OpContinuation :: byte where "OpContinuation = 0x0"
definition OpText :: byte where "OpText = 0x1"
definition OpBinary :: byte where "OpBinary = 0x2"
definition OpClose :: byte where "OpClose = 0x8"
definition OpPing :: byte where "OpPing = 0x9"
definition OpPong :: byte where "OpPong = 0xa"

lemmas opcodes = OpContinuation_def OpText_def OpBinary_def OpClose_def OpPing_def OpPong_def

lemma opcodes_distinct:
  "distinct [OpContinuation, OpText, OpBinary, OpClose, OpPing, OpPong]"
  by (simp add: opcodes)

lemma opcode_neqs [simp]:
  "OpBinary \<noteq> OpClose" "OpBinary \<noteq> OpPing" "OpClose \<noteq> OpPing" "OpClose \<noteq> OpBinary"
  "OpPing \<noteq> OpBinary" "OpPing \<noteq> OpClose" "OpPong \<noteq> OpBinary" "OpPong \<noteq> OpClose"
  "OpPong \<noteq> OpPing" "OpBinary \<noteq> OpPong" "OpClose \<noteq> OpPong" "OpPing \<noteq> OpPong"
  by (simp_all add: opcodes)

subsection \<open>Frames\<close>

record Frame =
  OpCode :: byte
  Payload :: bytes

definition SetOpCode :: "byte \<Rightarrow> Frame \<Rightarrow> Frame" where "SetOpCode code f = f\<lparr>OpCode := code\<rparr>"
definition GetOpCode :: "Frame \<Rightarrow> byte" where "GetOpCode f = OpCode f"
definition SetPayload :: "bytes \<Rightarrow> Frame \<Rightarrow> Frame" where "SetPayload p f = f\<lparr>Payload := p\<rparr>"
definition GetPayload :: "Frame \<Rightarrow> bytes" where "GetPayload f = Payload f"

definition ReadFrame :: "reader \<Rightarrow> (error + Frame) \<times> reader" where
  "ReadFrame c =
     (case ReadUint8 c of
        (Inl e, c') \<Rightarrow> (Inl e, c')
      | (Inr opcode, c') \<Rightarrow>
          (case ReadBytes c' of
             (Inl e, c'') \<Rightarrow> (Inl e, c'')
           | (Inr payload, c'') \<Rightarrow> (Inr \<lparr>OpCode = opcode, Payload = payload\<rparr>, c'')))"

definition WriteFrame :: "byte \<Rightarrow> bytes \<Rightarrow> writer \<Rightarrow> error option \<times> writer" where
  "WriteFrame code payload w =
     (case WriteUint8 code w of
        (Some e, w') \<Rightarrow> (Some e, w')
      | (None, w') \<Rightarrow>
          (case WriteBytes payload w' of (Some e, w'') \<Rightarrow> (Some e, w'') | (None, w'') \<Rightarrow> (None, w'')))"

lemmas frame_ops [simp] = SetOpCode_def GetOpCode_def SetPayload_def GetPayload_def

subsection \<open>The frame codec\<close>

text \<open>The bytes of one frame on the wire.\<close>

definition enc_frame :: "Frame \<Rightarrow> bytes" where
  "enc_frame f = OpCode f # enc_bytes (Payload f)"

definition frame_ok :: "Frame \<Rightarrow> bool" where
  "frame_ok f \<longleftrightarrow> fits32 (Payload f)"

lemma length_enc_frame: "length (enc_frame f) = 5 + length (Payload f)"
  by (simp add: enc_frame_def enc_bytes_def)

lemma payload_codec:
  "stream_codec (\<lambda>f. enc_bytes (Payload f))
     (\<lambda>r. case ReadBytes r of (Inl e, r') \<Rightarrow> (Inl e, r')
        | (Inr p, r') \<Rightarrow> (Inr \<lparr>OpCode = op, Payload = p\<rparr>, r'))
     (\<lambda>f. OpCode f = op \<and> frame_ok f)"
proof (unfold_locales, goal_cases)
  case (1 f rest e)
  then show ?case by (simp add: frame_ok_def lbytes.rd_enc)
next
  case (2 f n e)
  with lbytes.rd_cut [of "Payload f" n e] show ?case by (auto simp: frame_ok_def)
qed

interpretation fr: stream_codec enc_frame ReadFrame frame_ok
proof -
  have *: "enc_frame = (\<lambda>f. [OpCode f] @ enc_bytes (Payload f))"
    by (simp add: enc_frame_def fun_eq_iff)
  show "stream_codec enc_frame ReadFrame frame_ok"
    unfolding * ReadFrame_def [abs_def]
    by (rule seq_codec [where fa = OpCode and okb = "\<lambda>op f. OpCode f = op \<and> frame_ok f"
          and rdx = "\<lambda>f r. case ReadBytes r of (Inl e, r') \<Rightarrow> (Inl e, r')
            | (Inr p, r') \<Rightarrow> (Inr \<lparr>OpCode = OpCode f, Payload = p\<rparr>, r')", OF u8.stream_codec_axioms])
      (simp_all add: payload_codec)
qed

lemma WriteFrame_alt:
  "WriteFrame code payload w =
     (case WriteUint8 code w of (Some e, w') \<Rightarrow> (Some e, w') | (None, w') \<Rightarrow> WriteBytes payload w')"
  by (auto simp: WriteFrame_def split: prod.splits option.splits)

lemma wrote_WriteFrame:
  "wrote (enc_frame \<lparr>OpCode = code, Payload = payload\<rparr>) w (WriteFrame code payload w)"
proof -
  have "wrote ([code] @ enc_bytes payload) w (WriteFrame code payload w)"
    unfolding WriteFrame_alt
    by (rule wrote_two) (simp_all add: WriteUint8_def wrote_Write wrote_WriteBytes)
  then show ?thesis by (simp add: enc_frame_def)
qed

text \<open>A connection that never fails: \<open>WriteFrame\<close> appends exactly one encoded frame.\<close>

lemma WriteFrame_ok [wire_simps]:
  "wfail w = None \<Longrightarrow> WriteFrame code payload w
     = (None, w\<lparr>wbuf := wbuf w @ enc_frame \<lparr>OpCode = code, Payload = payload\<rparr>\<rparr>)"
  by (simp add: WriteFrame_alt WriteUint8_def WriteBytes_def WriteUint32_def Write_def
      enc_frame_def enc_bytes_def)

subsection \<open>Properties of the framing layer\<close>

text \<open>
  A frame written with \<open>WriteFrame\<close> on a working connection is read back by \<open>ReadFrame\<close>
  with the same opcode and payload, and the bytes after it are left untouched, whatever
  follows it; the payload has to be shorter than 4 GiB.
\<close>

theorem frame_roundtrip:
  assumes "fits32 payload" and "wfail w = None" and "wbuf w = []"
  shows "ReadFrame \<lparr>rbuf = wbuf (snd (WriteFrame code payload w)) @ rest, rend = e\<rparr>
    = (Inr \<lparr>OpCode = code, Payload = payload\<rparr>, \<lparr>rbuf = rest, rend = e\<rparr>)"
  using assms by (simp add: WriteFrame_ok fr.rd_enc frame_ok_def)

theorem frame_roundtrip_witness:
  "ReadFrame \<lparr>rbuf = wbuf (snd (WriteFrame OpBinary [104, 105] \<lparr>wbuf = [], wfail = None\<rparr>)) @ [7], rend = EOF\<rparr>
    = (Inr \<lparr>OpCode = OpBinary, Payload = [104, 105]\<rparr>, \<lparr>rbuf = [7], rend = EOF\<rparr>)"
  by (rule frame_roundtrip) (simp_all add: fits32_def)

text \<open>Writing a list of frames one after the other on the same connection.\<close>

primrec write_frames :: "Frame list \<Rightarrow> writer \<Rightarrow> writer" where
  "write_frames [] w = w"
| "write_frames (f # fs) w = write_frames fs (snd (WriteFrame (OpCode f) (Payload f) w))"

lemma write_frames_ok:
  "wfail w = None \<Longrightarrow> write_frames fs w = w\<lparr>wbuf := wbuf w @ concat (map enc_frame fs)\<rparr>"
  by (induction fs arbitrary: w) (simp_all add: WriteFrame_ok enc_frame_def)

text \<open>
  C16: any sequence of frames written on one connection is read back as the same sequence:
  the length prefix delimits the messages of the TCP stream without ambiguity.
\<close>

theorem frame_stream_roundtrip:
  assumes "list_all frame_ok fs"
  shows "read_n ReadFrame (length fs)
      \<lparr>rbuf = wbuf (write_frames fs \<lparr>wbuf = [], wfail = None\<rparr>) @ rest, rend = e\<rparr>
    = (Inr fs, \<lparr>rbuf = rest, rend = e\<rparr>)"
  using assms by (simp add: write_frames_ok fr.read_all list_all_iff)

theorem frame_stream_roundtrip_witness:
  "read_n ReadFrame (length [\<lparr>OpCode = OpBinary, Payload = [1]\<rparr>, \<lparr>OpCode = OpPing, Payload = []\<rparr>])
      \<lparr>rbuf = wbuf (write_frames [\<lparr>OpCode = OpBinary, Payload = [1]\<rparr>, \<lparr>OpCode = OpPing, Payload = []\<rparr>]
        \<lparr>wbuf = [], wfail = None\<rparr>) @ [9], rend = EOF\<rparr>
    = (Inr [\<lparr>OpCode = OpBinary, Payload = [1]\<rparr>, \<lparr>OpCode = OpPing, Payload = []\<rparr>], \<lparr>rbuf = [9], rend = EOF\<rparr>)"
  by (rule frame_stream_roundtrip) (simp add: frame_ok_def fits32_def)

text \<open>
  C18: if the connection breaks while a frame is being written, the peer never sees a frame:
  reading what did arrive ends with an end-of-file error (or the error that ended the
  connection), not with a shortened or different frame.
\<close>

theorem broken_write_no_frame:
  assumes "fits32 payload" and "wbuf w = []" and "fst (WriteFrame code payload w) = Some e"
  shows "\<exists>e'. (e' = e0 \<or> e0 = EOF \<and> e' = ErrUnexpectedEOF) \<and>
    ReadFrame \<lparr>rbuf = wbuf (snd (WriteFrame code payload w)), rend = e0\<rparr>
      = (Inl e', \<lparr>rbuf = [], rend = e0\<rparr>)"
proof -
  from wrote_WriteFrame assms(3) obtain n
    where "n < length (enc_frame \<lparr>OpCode = code, Payload = payload\<rparr>)"
      and "wbuf (snd (WriteFrame code payload w))
        = wbuf w @ take n (enc_frame \<lparr>OpCode = code, Payload = payload\<rparr>)"
    by (rule wroteE_fail)
  with assms(1,2) fr.rd_cut [of "\<lparr>OpCode = code, Payload = payload\<rparr>" n e0] show ?thesis
    by (simp add: frame_ok_def)
qed

theorem broken_write_no_frame_witness:
  "\<exists>e'. (e' = EOF \<or> EOF = EOF \<and> e' = ErrUnexpectedEOF) \<and>
    ReadFrame \<lparr>rbuf = wbuf (snd (WriteFrame OpBinary [1, 2] \<lparr>wbuf = [], wfail = Some (6, NetError ''reset'')\<rparr>)),
        rend = EOF\<rparr> = (Inl e', \<lparr>rbuf = [], rend = EOF\<rparr>)"
  by (rule broken_write_no_frame [where e = "NetError ''reset''"])
    (simp_all add: fits32_def WriteFrame_alt WriteUint8_def WriteBytes_def WriteUint32_def Write_def)

text \<open>
  The two length prefixes wrap. \<open>WriteShortBytes\<close> stores the length modulo \<open>2^16\<close>, so the
  reader gets only the first \<open>length mod 2^16\<close> bytes and takes the rest for what follows;
  below the limit this is the exact round trip.
\<close>

theorem short_bytes_length_wraps:
  "ReadShortBytes \<lparr>rbuf = wbuf (snd (WriteShortBytes buf \<lparr>wbuf = [], wfail = None\<rparr>)) @ rest, rend = e\<rparr>
    = (Inr (take (length buf mod 2 ^ 16) buf),
       \<lparr>rbuf = drop (length buf mod 2 ^ 16) buf @ rest, rend = e\<rparr>)"
proof -
  have "unat (of_nat (length buf) :: 16 word) = length buf mod 2 ^ 16"
    by (simp add: unat_of_nat take_bit_eq_mod)
  moreover have "length buf mod 2 ^ 16 \<le> length buf" by simp
  ultimately show ?thesis
    by (simp add: WriteShortBytes_def WriteUint16_def Write_def ReadShortBytes_def u16.rd_enc ReadFull_def)
qed

end
