(* ===== verification/Connection.thy ===== *)
theory Connection
  imports Go_Time Framing
begin

text \<open>
  Connections as the channels see them: the interfaces \<open>Conn\<close> and \<open>Frame\<close> of \<open>server.go\<close> over a network
  connection, and their implementation for TCP in \<open>tcp/connection.go\<close>. The locale \<open>frame_conn\<close> is
  what a channel relies on: a frame written appears whole on the wire, a frame that arrives is
  read whole.
\<close>

subsection \<open>The network connection\<close>

text \<open>
  A \<open>net.Conn\<close>: the bytes still to come in, the bytes written, whether this side has closed
  it, and the two deadlines. That a deadline passes while reading is the error the input
  ends with.
\<close>

record conn =
  c_in :: reader
  c_out :: writer
  c_closed :: bool
  c_rdl :: "go_time option"
  c_wdl :: "go_time option"

definition ErrClosed :: error where
  "ErrClosed = NetError ''use of closed network connection''"

definition SetReadDeadline :: "go_time \<Rightarrow> conn \<Rightarrow> error option \<times> conn" where
  "SetReadDeadline t c = (if c_closed c then (Some ErrClosed, c) else (None, c\<lparr>c_rdl := Some t\<rparr>))"

definition SetWriteDeadline :: "go_time \<Rightarrow> conn \<Rightarrow> error option \<times> conn" where
  "SetWriteDeadline t c = (if c_closed c then (Some ErrClosed, c) else (None, c\<lparr>c_wdl := Some t\<rparr>))"

definition conn_Close :: "conn \<Rightarrow> error option \<times> conn" where
  "conn_Close c = (if c_closed c then (Some ErrClosed, c) else (None, c\<lparr>c_closed := True\<rparr>))"

subsection \<open>The interfaces\<close>

text \<open>
  \<open>Conn\<close> embeds \<open>net.Conn\<close>, so its methods work on the network connection; \<open>'f\<close> is the type of the
  frames it reads. Reading the payload of a frame may change the frame.
\<close>

record 'f FrameMethods =
  fm_SetOpCode :: "byte \<Rightarrow> 'f \<Rightarrow> 'f"
  fm_GetOpCode :: "'f \<Rightarrow> byte"
  fm_SetPayload :: "bytes \<Rightarrow> 'f \<Rightarrow> 'f"
  fm_GetPayload :: "'f \<Rightarrow> bytes \<times> 'f"

record 'f Conn =
  cn_ReadFrame :: "conn \<Rightarrow> (error + 'f) \<times> conn"
  cn_WriteFrame :: "byte \<Rightarrow> bytes \<Rightarrow> conn \<Rightarrow> error option \<times> conn"
  cn_Flush :: "conn \<Rightarrow> error option \<times> conn"
  cn_frames :: "'f FrameMethods"

subsection \<open>TCP\<close>

definition conn_ReadFrame :: "conn \<Rightarrow> (error + Frame) \<times> conn" where
  "conn_ReadFrame c =
     (if c_closed c then (Inl ErrClosed, c)
      else case ReadFrame (c_in c) of (r, i) \<Rightarrow> (r, c\<lparr>c_in := i\<rparr>))"

definition conn_WriteFrame :: "byte \<Rightarrow> bytes \<Rightarrow> conn \<Rightarrow> error option \<times> conn" where
  "conn_WriteFrame code payload c =
     (if c_closed c then (Some ErrClosed, c)
      else case WriteFrame code payload (c_out c) of (r, w) \<Rightarrow> (r, c\<lparr>c_out := w\<rparr>))"

definition conn_Flush :: "conn \<Rightarrow> error option \<times> conn" where
  "conn_Flush c = (None, c)"

definition tcp_conn :: "Frame Conn" where
  "tcp_conn = \<lparr>cn_ReadFrame = conn_ReadFrame, cn_WriteFrame = conn_WriteFrame, cn_Flush = conn_Flush,
     cn_frames = \<lparr>fm_SetOpCode = SetOpCode, fm_GetOpCode = GetOpCode, fm_SetPayload = SetPayload,
       fm_GetPayload = (\<lambda>f. (GetPayload f, f))\<rparr>\<rparr>"

lemma tcp_conn_simps [simp]:
  "cn_ReadFrame tcp_conn = conn_ReadFrame" "cn_WriteFrame tcp_conn = conn_WriteFrame" "cn_Flush tcp_conn = conn_Flush"
  "fm_GetOpCode (cn_frames tcp_conn) = OpCode" "fst (fm_GetPayload (cn_frames tcp_conn) f) = Payload f"
  by (simp_all add: tcp_conn_def fun_eq_iff)

lemma SetDeadline_in [simp]:
  "c_in (snd (SetReadDeadline t c)) = c_in c" "c_in (snd (SetWriteDeadline t c)) = c_in c"
  "c_out (snd (SetReadDeadline t c)) = c_out c" "c_out (snd (SetWriteDeadline t c)) = c_out c"
  "c_closed (snd (SetReadDeadline t c)) = c_closed c" "c_closed (snd (SetWriteDeadline t c)) = c_closed c"
  by (simp_all add: SetReadDeadline_def SetWriteDeadline_def)

lemma ReadFull_shorter: "ReadFull n r = (Inr b, r') \<Longrightarrow> length (rbuf r') + n = length (rbuf r)"
  by (auto simp: ReadFull_def split: if_splits)

lemma ReadFrame_shorter:
  assumes "ReadFrame r = (Inr f, r')"
  shows "length (rbuf r') < length (rbuf r)"
proof -
  from assms obtain b r1 where 1: "ReadFull 1 r = (Inr b, r1)"
    by (auto simp: ReadFrame_def ReadUint8_def split: prod.splits sum.splits)
  with assms obtain b' r2 where 2: "ReadFull 4 r1 = (Inr b', r2)"
    by (auto simp: ReadFrame_def ReadUint8_def ReadBytes_def ReadUint32_def split: prod.splits sum.splits)
  with 1 assms obtain b'' n where "ReadFull n r2 = (Inr b'', r')"
    by (auto simp: ReadFrame_def ReadUint8_def ReadBytes_def ReadUint32_def split: prod.splits sum.splits)
  with 1 2 show ?thesis by (auto dest!: ReadFull_shorter)
qed

lemma conn_ReadFrame_shorter:
  "conn_ReadFrame c = (Inr f, c') \<Longrightarrow> length (rbuf (c_in c')) < length (rbuf (c_in c))"
  by (auto simp: conn_ReadFrame_def dest: ReadFrame_shorter split: if_splits prod.splits)

lemma ReadFrame_empty: "ReadFrame \<lparr>rbuf = [], rend = e\<rparr> = (Inl e, \<lparr>rbuf = [], rend = e\<rparr>)"
  by (simp add: ReadFrame_def ReadUint8_def ReadFull_def)

lemma conn_ReadFrame_open:
  "\<not> c_closed c \<Longrightarrow> ReadFrame (c_in c) = (r, i) \<Longrightarrow>
   conn_ReadFrame (snd (SetReadDeadline t c)) = (r, c\<lparr>c_rdl := Some t, c_in := i\<rparr>)"
  by (simp add: conn_ReadFrame_def SetReadDeadline_def)

subsection \<open>What a channel relies on\<close>

text \<open>A connection that is open and does not fail.\<close>

definition working :: "conn \<Rightarrow> bool" where
  "working c \<longleftrightarrow> \<not> c_closed c \<and> wfail (c_out c) = None"

definition sent_on :: "bytes \<Rightarrow> conn \<Rightarrow> conn" where
  "sent_on b c = c\<lparr>c_out := (c_out c)\<lparr>wbuf := wbuf (c_out c) @ b\<rparr>\<rparr>"

lemma sent_on_simps [simp]:
  "c_in (sent_on b c) = c_in c" "wbuf (c_out (sent_on b c)) = wbuf (c_out c) @ b" "working (sent_on b c) = working c"
  "c_closed (sent_on b c) = c_closed c"
  by (simp_all add: sent_on_def working_def)

definition open_conn :: conn where
  "open_conn = \<lparr>c_in = \<lparr>rbuf = [], rend = EOF\<rparr>, c_out = \<lparr>wbuf = [], wfail = None\<rparr>, c_closed = False,
     c_rdl = None, c_wdl = None\<rparr>"

lemma working_open_conn [simp]: "working open_conn" "wbuf (c_out open_conn) = []"
  by (simp_all add: working_def open_conn_def)

text \<open>
  \<open>wr\<close> is the text of a frame as this side writes it, \<open>rd\<close> the text of a frame as the peer writes it.
\<close>

locale frame_conn =
  fixes ops :: "'f Conn"
    and wr :: "byte \<Rightarrow> bytes \<Rightarrow> bytes"
    and rd :: "'f \<Rightarrow> bytes"
    and ok :: "'f \<Rightarrow> bool"
  assumes write_frame: "working c \<Longrightarrow> cn_WriteFrame ops code p c = (None, sent_on (wr code p) c)"
    and flush: "cn_Flush ops c = (None, c)"
    and read_frame: "\<not> c_closed c \<Longrightarrow> ok f \<Longrightarrow> c_in c = \<lparr>rbuf = rd f @ r, rend = e\<rparr> \<Longrightarrow>
      cn_ReadFrame ops c = (Inr f, c\<lparr>c_in := \<lparr>rbuf = r, rend = e\<rparr>\<rparr>)"
    and read_end: "\<not> c_closed c \<Longrightarrow> c_in c = \<lparr>rbuf = [], rend = e\<rparr> \<Longrightarrow> cn_ReadFrame ops c = (Inl e, c)"

text \<open>The frames of TCP read the same in both directions.\<close>

definition tcp_text :: "byte \<Rightarrow> bytes \<Rightarrow> bytes" where
  "tcp_text code p = enc_frame \<lparr>OpCode = code, Payload = p\<rparr>"

interpretation tcpc: frame_conn tcp_conn tcp_text enc_frame frame_ok
proof
  fix c code p assume "working c"
  then show "cn_WriteFrame tcp_conn code p c = (None, sent_on (tcp_text code p) c)"
    by (simp add: conn_WriteFrame_def working_def WriteFrame_ok sent_on_def tcp_text_def)
qed (simp_all add: conn_Flush_def conn_ReadFrame_def fr.rd_enc ReadFrame_empty)

end
