(* ===== verification/Channel.thy ===== *)
theory Channel
  imports Go_Chan Connection
begin

text \<open>
  \<open>channel.go\<close> and \<open>channels.go\<close>: one connected peer, over any connection that has the methods of
  \<open>Conn\<close>. \<open>Push\<close> puts a payload on a queue of five, the \<open>writeloop\<close> goroutine takes payloads off it
  and writes them as binary frames, \<open>Readloop\<close> answers pings and hands every other payload to the
  listener, \<open>Close\<close> shuts the queue. The write loop is a machine whose program counter is a
  \<open>wl_pc\<close>; \<open>ch_step\<close> interleaves it with pushes and closes. What holds of every connection that
  keeps the contract \<open>frame_conn\<close> is proved in that locale. \<open>ChannelsImpl\<close> is the table of channels.
\<close>

subsection \<open>A channel\<close>

definition DefaultReadWait :: duration where "DefaultReadWait = Minute * 3"
definition DefaultWriteWait :: duration where "DefaultWriteWait = Second * 10"
definition DefaultLoginWait :: duration where "DefaultLoginWait = Second * 10"
definition DefaultHeartbeat :: duration where "DefaultHeartbeat = Second * 55"

record ChannelImpl =
  ch_id :: string
  ch_conn :: conn
  writechan :: "bytes gochan"
  ch_once :: bool
  writeWait :: duration
  readwait :: duration
  ch_closed :: Event

definition NewChannel :: "string \<Rightarrow> conn \<Rightarrow> ChannelImpl" where
  "NewChannel i c = \<lparr>ch_id = i, ch_conn = c, writechan = make_chan 5, ch_once = False,
     writeWait = DefaultWriteWait, readwait = DefaultReadWait, ch_closed = NewEvent\<rparr>"

definition ch_WriteFrame :: "'f Conn \<Rightarrow> go_time \<Rightarrow> byte \<Rightarrow> bytes \<Rightarrow> ChannelImpl \<Rightarrow> error option \<times> ChannelImpl" where
  "ch_WriteFrame ops now code payload ch =
     (case SetWriteDeadline (time_add now (writeWait ch)) (ch_conn ch) of
        (_, c) \<Rightarrow> (case cn_WriteFrame ops code payload c of (e, c') \<Rightarrow> (e, ch\<lparr>ch_conn := c'\<rparr>)))"

definition Push :: "bytes \<Rightarrow> ChannelImpl \<Rightarrow> (error option \<times> ChannelImpl) outcome" where
  "Push payload ch =
     (if HasFired (ch_closed ch)
      then Ret (Some (ErrorMsg (''channel '' @ ch_id ch @ '' has closed'')), ch)
      else case chan_send payload (writechan ch) of
          Ret wc \<Rightarrow> Ret (None, ch\<lparr>writechan := wc\<rparr>)
        | Block \<Rightarrow> Block
        | Panic \<Rightarrow> Panic)"

definition Close :: "ChannelImpl \<Rightarrow> ChannelImpl outcome" where
  "Close ch =
     once_do (ch_once ch)
       (\<lambda>ch. case chan_close (writechan ch) of
           Ret wc \<Rightarrow>
             (case Fire (ch_closed ch) of
                Ret (_, ev) \<Rightarrow> Ret (ch\<lparr>writechan := wc, ch_closed := ev, ch_once := True\<rparr>)
              | Block \<Rightarrow> Block | Panic \<Rightarrow> Panic)
         | Block \<Rightarrow> Block | Panic \<Rightarrow> Panic)
       ch"

definition SetWriteWait :: "duration \<Rightarrow> ChannelImpl \<Rightarrow> ChannelImpl" where
  "SetWriteWait d ch = (if d = 0 then ch else ch\<lparr>writeWait := d\<rparr>)"

definition SetReadWait :: "duration \<Rightarrow> ChannelImpl \<Rightarrow> ChannelImpl" where
  "SetReadWait d ch = (if d = 0 then ch else ch\<lparr>readwait := d\<rparr>)"

subsection \<open>The write loop\<close>

text \<open>
  \<open>AtSelect\<close>: at the \<open>select\<close>. \<open>Inner k\<close>: in the inner loop with \<open>k\<close> payloads to go, the
  flush being what follows \<open>Inner 0\<close>. A receive from the closed and drained queue yields the
  nil payload. When both cases of the \<open>select\<close> are ready the runtime chooses: \<open>pick\<close>.
\<close>

datatype wl_pc = AtSelect | Inner nat | Returned "error option"

definition recv_payload :: "ChannelImpl \<Rightarrow> (bytes \<times> ChannelImpl) option" where
  "recv_payload ch =
     (case chan_recv (writechan ch) of
        Ret (p, wc) \<Rightarrow> Some (case p of Some b \<Rightarrow> b | None \<Rightarrow> [], ch\<lparr>writechan := wc\<rparr>)
      | _ \<Rightarrow> None)"

fun writeloop :: "'f Conn \<Rightarrow> bool \<Rightarrow> go_time \<Rightarrow> wl_pc \<Rightarrow> ChannelImpl \<Rightarrow> (wl_pc \<times> ChannelImpl) option" where
  "writeloop ops pick now AtSelect ch =
     (if done_ready (ch_closed ch) \<and> (pick \<or> recv_payload ch = None) then Some (Returned None, ch)
      else case recv_payload ch of
          None \<Rightarrow> None
        | Some (payload, ch') \<Rightarrow>
            (case ch_WriteFrame ops now OpBinary payload ch' of
               (Some e, ch'') \<Rightarrow> Some (Returned (Some e), ch'')
             | (None, ch'') \<Rightarrow> Some (Inner (length (cbuf (writechan ch''))), ch'')))"
| "writeloop ops pick now (Inner (Suc k)) ch =
     (case recv_payload ch of
        None \<Rightarrow> None
      | Some (payload, ch') \<Rightarrow>
          (case ch_WriteFrame ops now OpBinary payload ch' of
             (Some e, ch'') \<Rightarrow> Some (Returned (Some e), ch'')
           | (None, ch'') \<Rightarrow> Some (Inner k, ch'')))"
| "writeloop ops pick now (Inner 0) ch =
     (case cn_Flush ops (ch_conn ch) of
        (Some e, c) \<Rightarrow> Some (Returned (Some e), ch\<lparr>ch_conn := c\<rparr>)
      | (None, c) \<Rightarrow> Some (AtSelect, ch\<lparr>ch_conn := c\<rparr>))"
| "writeloop ops pick now (Returned r) ch = None"

subsection \<open>The read loop\<close>

text \<open>
  The result is the error that ended the loop, the payloads handed to \<open>go lst.Receive\<close> in
  the order the goroutines were started, and the channel afterwards; \<open>None\<close> when the loop does
  not end.
\<close>

partial_function (option) Readloop :: "'f Conn \<Rightarrow> (nat \<Rightarrow> go_time) \<Rightarrow> ChannelImpl \<Rightarrow> (error \<times> bytes list \<times> ChannelImpl) option" where
  "Readloop ops now ch =
     (let c1 = snd (SetReadDeadline (time_add (now 0) (readwait ch)) (ch_conn ch))
      in case cn_ReadFrame ops c1 of
        (Inl err, c2) \<Rightarrow> Some (err, [], ch\<lparr>ch_conn := c2\<rparr>)
      | (Inr frame, c2) \<Rightarrow>
          if fm_GetOpCode (cn_frames ops) frame = OpClose
          then Some (ErrorMsg ''remote side close the channel'', [], ch\<lparr>ch_conn := c2\<rparr>)
          else if fm_GetOpCode (cn_frames ops) frame = OpPing
          then Readloop ops (\<lambda>i. now (i + 2)) (snd (ch_WriteFrame ops (now 1) OpPong [] (ch\<lparr>ch_conn := c2\<rparr>)))
          else let payload = fst (fm_GetPayload (cn_frames ops) frame)
            in if payload = []
               then Readloop ops (\<lambda>i. now (i + 1)) (ch\<lparr>ch_conn := c2\<rparr>)
               else Option.bind (Readloop ops (\<lambda>i. now (i + 1)) (ch\<lparr>ch_conn := c2\<rparr>))
                 (\<lambda>(err, ps, ch'). Some (err, payload # ps, ch')))"

lemma Readloop_error:
  "cn_ReadFrame ops (snd (SetReadDeadline (time_add (now 0) (readwait ch)) (ch_conn ch))) = (Inl err, c) \<Longrightarrow>
   Readloop ops now ch = Some (err, [], ch\<lparr>ch_conn := c\<rparr>)"
  by (subst Readloop.simps) simp

lemma Readloop_frame:
  assumes "cn_ReadFrame ops (snd (SetReadDeadline (time_add (now 0) (readwait ch)) (ch_conn ch))) = (Inr f, c)"
    and "fm_GetOpCode (cn_frames ops) f = code" and "fst (fm_GetPayload (cn_frames ops) f) = p"
  shows "Readloop ops now ch =
     (if code = OpClose then Some (ErrorMsg ''remote side close the channel'', [], ch\<lparr>ch_conn := c\<rparr>)
      else if code = OpPing
      then Readloop ops (\<lambda>i. now (i + 2)) (snd (ch_WriteFrame ops (now 1) OpPong [] (ch\<lparr>ch_conn := c\<rparr>)))
      else if p = [] then Readloop ops (\<lambda>i. now (i + 1)) (ch\<lparr>ch_conn := c\<rparr>)
      else map_option (map_prod id (map_prod ((#) p) id)) (Readloop ops (\<lambda>i. now (i + 1)) (ch\<lparr>ch_conn := c\<rparr>)))"
  using assms by (subst Readloop.simps) (simp add: Let_def map_conv_bind_option split_beta' map_prod_def o_def)

subsection \<open>The table of channels\<close>

type_synonym ChannelsImpl = "string \<rightharpoonup> ChannelImpl"

definition NewChannels :: "nat \<Rightarrow> ChannelsImpl" where
  "NewChannels num = (\<lambda>_. None)"

definition chans_Add :: "ChannelImpl \<Rightarrow> ChannelsImpl \<Rightarrow> ChannelsImpl" where
  "chans_Add channel m = m(ch_id channel \<mapsto> channel)"

definition chans_Remove :: "string \<Rightarrow> ChannelsImpl \<Rightarrow> ChannelsImpl" where
  "chans_Remove i m = m(i := None)"

definition chans_Get :: "string \<Rightarrow> ChannelsImpl \<Rightarrow> ChannelImpl option" where
  "chans_Get i m = m i"

text \<open>\<open>Range\<close> visits every key once, in an order the map chooses: \<open>order\<close>.\<close>

definition range_order :: "'k list \<Rightarrow> ('k \<rightharpoonup> 'v) \<Rightarrow> bool" where
  "range_order order m \<longleftrightarrow> distinct order \<and> set order = dom m"

definition chans_All :: "string list \<Rightarrow> ChannelsImpl \<Rightarrow> ChannelImpl list" where
  "chans_All order m = List.map_filter m order"

subsection \<open>Interleavings of pushes, writes and closes\<close>

datatype ch_label = Pushed bytes | Refused | Wrote | Closed

inductive ch_step :: "'f Conn \<Rightarrow> wl_pc \<times> ChannelImpl \<Rightarrow> ch_label \<Rightarrow> wl_pc \<times> ChannelImpl \<Rightarrow> bool" for ops where
  push: "Push p ch = Ret (None, ch') \<Longrightarrow> ch_step ops (pc, ch) (Pushed p) (pc, ch')"
| refuse: "Push p ch = Ret (Some e, ch') \<Longrightarrow> ch_step ops (pc, ch) Refused (pc, ch')"
| emit: "writeloop ops pick now pc ch = Some (pc', ch') \<Longrightarrow> ch_step ops (pc, ch) Wrote (pc', ch')"
| close: "Close ch = Ret ch' \<Longrightarrow> ch_step ops (pc, ch) Closed (pc, ch')"

inductive_cases ch_stepE: "ch_step ops s l t"

inductive ch_run :: "'f Conn \<Rightarrow> wl_pc \<times> ChannelImpl \<Rightarrow> ch_label list \<Rightarrow> wl_pc \<times> ChannelImpl \<Rightarrow> bool" for ops where
  start: "ch_run ops s [] s"
| snoc: "ch_run ops s ls t \<Longrightarrow> ch_step ops t l u \<Longrightarrow> ch_run ops s (ls @ [l]) u"

fun pushes :: "ch_label list \<Rightarrow> bytes list" where
  "pushes [] = []"
| "pushes (Pushed p # ls) = p # pushes ls"
| "pushes (_ # ls) = pushes ls"

lemma pushes_append [simp]: "pushes (ls @ ms) = pushes ls @ pushes ms"
  by (induction ls rule: pushes.induct) auto

text \<open>The binary frames of a list of payloads, in the format \<open>wr\<close> and over TCP.\<close>

definition frames_text :: "(byte \<Rightarrow> bytes \<Rightarrow> bytes) \<Rightarrow> bytes list \<Rightarrow> bytes" where
  "frames_text wr ps = concat (map (wr OpBinary) ps)"

definition bin_frames :: "bytes list \<Rightarrow> bytes" where
  "bin_frames ps = concat (map (\<lambda>p. enc_frame \<lparr>OpCode = OpBinary, Payload = p\<rparr>) ps)"

lemma bin_frames_simps [simp]:
  "bin_frames [] = []" "bin_frames (ps @ qs) = bin_frames ps @ bin_frames qs"
  "bin_frames [p] = enc_frame \<lparr>OpCode = OpBinary, Payload = p\<rparr>"
  by (simp_all add: bin_frames_def)

lemma frames_text_simps [simp]:
  "frames_text wr [] = []" "frames_text wr (ps @ qs) = frames_text wr ps @ frames_text wr qs"
  "frames_text wr (p # ps) = wr OpBinary p @ frames_text wr ps"
  by (simp_all add: frames_text_def)

lemma frames_text_tcp [simp]: "frames_text tcp_text ps = bin_frames ps"
  by (simp add: frames_text_def bin_frames_def tcp_text_def [abs_def])

subsection \<open>The channel by itself\<close>

text \<open>The queue, the closing flag and the event move together.\<close>

definition ch_inv :: "ChannelImpl \<Rightarrow> bool" where
  "ch_inv ch \<longleftrightarrow> event_inv (ch_closed ch) \<and> cclosed (writechan ch) = ch_once ch
     \<and> HasFired (ch_closed ch) = ch_once ch \<and> chan_ok (writechan ch) \<and> ccap (writechan ch) = 5"

lemma ch_inv_New [simp]: "ch_inv (NewChannel i c)"
  by (simp add: ch_inv_def NewChannel_def chan_ok_steps) (simp add: make_chan_def)

lemma Push_inv:
  assumes "ch_inv ch"
  shows "Push p ch = (if ch_once ch then Ret (Some (ErrorMsg (''channel '' @ ch_id ch @ '' has closed'')), ch)
    else if length (cbuf (writechan ch)) < 5
    then Ret (None, ch\<lparr>writechan := (writechan ch)\<lparr>cbuf := cbuf (writechan ch) @ [p]\<rparr>\<rparr>) else Block)"
  using assms by (auto simp: ch_inv_def Push_def chan_send_def)

lemma Close_inv:
  assumes "ch_inv ch"
  shows "\<exists>ev. Close ch = Ret (ch\<lparr>writechan := (writechan ch)\<lparr>cclosed := True\<rparr>, ch_closed := ev, ch_once := True\<rparr>)
    \<and> event_inv ev \<and> HasFired ev"
proof (cases "ch_once ch")
  case True
  with assms show ?thesis
    by (intro exI [of _ "ch_closed ch"]) (simp add: ch_inv_def Close_def once_do_def)
next
  case False
  with assms Fire_Ret [of "ch_closed ch"] show ?thesis
    by (auto simp: ch_inv_def Close_def once_do_def chan_close_def)
qed

lemma recv_payload_Some:
  "recv_payload ch = Some (p, ch') \<longleftrightarrow>
     (\<exists>vs. cbuf (writechan ch) = p # vs \<and> ch' = ch\<lparr>writechan := (writechan ch)\<lparr>cbuf := vs\<rparr>\<rparr>)
     \<or> cbuf (writechan ch) = [] \<and> cclosed (writechan ch) \<and> p = [] \<and> ch' = ch"
  by (auto simp: recv_payload_def chan_recv_def split: list.splits)

subsection \<open>The write side on any connection\<close>

text \<open>
  The relation between what was pushed and what is on the wire: the frames written are a
  prefix of the payloads pushed, what is missing is still in the queue; after a close, when
  the queue is empty, empty frames may follow.
\<close>

definition delivered :: "(byte \<Rightarrow> bytes \<Rightarrow> bytes) \<Rightarrow> bytes \<Rightarrow> bytes list \<Rightarrow> ChannelImpl \<Rightarrow> bool" where
  "delivered wr w0 ps ch \<longleftrightarrow> (\<exists>sent k. wbuf (c_out (ch_conn ch)) = w0 @ frames_text wr (sent @ replicate k [])
     \<and> sent @ cbuf (writechan ch) = ps \<and> (0 < k \<longrightarrow> ch_once ch \<and> cbuf (writechan ch) = []))"

definition wl_inv :: "(byte \<Rightarrow> bytes \<Rightarrow> bytes) \<Rightarrow> bytes \<Rightarrow> bytes list \<Rightarrow> ChannelImpl \<Rightarrow> bool" where
  "wl_inv wr w0 ps ch \<longleftrightarrow> ch_inv ch \<and> working (ch_conn ch) \<and> delivered wr w0 ps ch"

text \<open>Steps of the write loop alone.\<close>

fun write_steps :: "'f Conn \<Rightarrow> nat \<Rightarrow> go_time \<Rightarrow> wl_pc \<times> ChannelImpl \<Rightarrow> wl_pc \<times> ChannelImpl" where
  "write_steps ops 0 now s = s"
| "write_steps ops (Suc n) now s =
     (case writeloop ops False now (fst s) (snd s) of Some s' \<Rightarrow> write_steps ops n now s' | None \<Rightarrow> s)"

lemma write_steps_Suc:
  "writeloop ops False now pc ch = Some s \<Longrightarrow> write_steps ops (Suc n) now (pc, ch) = write_steps ops n now s"
  by simp

declare write_steps.simps(2) [simp del]

lemma delivered_mono:
  assumes "delivered wr w0 ps ch" "c_out (ch_conn ch') = c_out (ch_conn ch)"
    "cbuf (writechan ch') = cbuf (writechan ch)" "ch_once ch \<Longrightarrow> ch_once ch'"
  shows "delivered wr w0 ps ch'"
  using assms unfolding delivered_def by auto

lemma wl_inv_New: "working c \<Longrightarrow> wl_inv wr (wbuf (c_out c)) [] (NewChannel i c)"
  unfolding wl_inv_def delivered_def
  by (auto simp: NewChannel_def make_chan_def intro!: exI [of _ "[]"] exI [of _ 0])
    (auto simp: NewChannel_def [symmetric] make_chan_def [symmetric] simp flip: make_chan_def)

context frame_conn
begin

lemma write_working:
  assumes "working (ch_conn ch)"
  shows "\<exists>c. ch_WriteFrame ops t code p ch = (None, ch\<lparr>ch_conn := c\<rparr>) \<and> working c \<and> c_in c = c_in (ch_conn ch)
    \<and> wbuf (c_out c) = wbuf (c_out (ch_conn ch)) @ wr code p"
proof -
  let ?c = "(ch_conn ch)\<lparr>c_wdl := Some (time_add t (writeWait ch))\<rparr>"
  have "working ?c" using assms by (simp add: working_def)
  from write_frame [OF this] assms show ?thesis
    by (intro exI [of _ "sent_on (wr code p) ?c"]) (simp add: ch_WriteFrame_def SetWriteDeadline_def working_def sent_on_def)
qed

lemma wl_inv_write_one:
  assumes inv: "wl_inv wr w0 ps ch" and r: "recv_payload ch = Some (p, ch')"
  shows "\<exists>ch''. ch_WriteFrame ops t OpBinary p ch' = (None, ch'') \<and> wl_inv wr w0 ps ch''"
proof -
  from r have c: "ch_conn ch' = ch_conn ch" by (auto simp: recv_payload_Some)
  with inv obtain cn where w: "ch_WriteFrame ops t OpBinary p ch' = (None, ch'\<lparr>ch_conn := cn\<rparr>)" "working cn"
    "wbuf (c_out cn) = wbuf (c_out (ch_conn ch)) @ wr OpBinary p"
    using write_working [of ch' t OpBinary p] by (auto simp: wl_inv_def)
  from inv obtain sent k where d: "wbuf (c_out (ch_conn ch)) = w0 @ frames_text wr (sent @ replicate k [])"
    "sent @ cbuf (writechan ch) = ps" "0 < k \<longrightarrow> ch_once ch \<and> cbuf (writechan ch) = []"
    by (auto simp: wl_inv_def delivered_def)
  from r [unfolded recv_payload_Some] have "delivered wr w0 ps (ch'\<lparr>ch_conn := cn\<rparr>)"
  proof (elim disjE exE conjE)
    fix vs assume "cbuf (writechan ch) = p # vs" "ch' = ch\<lparr>writechan := (writechan ch)\<lparr>cbuf := vs\<rparr>\<rparr>"
    with d w(3) show ?thesis
      unfolding delivered_def by (intro exI [of _ "sent @ [p]"] exI [of _ 0]) auto
  next
    assume "cbuf (writechan ch) = []" "cclosed (writechan ch)" "p = []" "ch' = ch"
    with d w(3) inv show ?thesis
      unfolding delivered_def
      by (intro exI [of _ sent] exI [of _ "Suc k"]) (auto simp: wl_inv_def ch_inv_def simp flip: replicate_append_same)
  qed
  moreover have "ch_inv ch'" using inv r
    by (auto simp: wl_inv_def ch_inv_def recv_payload_Some chan_ok_def)
  then have "ch_inv (ch'\<lparr>ch_conn := cn\<rparr>)" by (simp add: ch_inv_def)
  ultimately show ?thesis using w by (auto simp: wl_inv_def)
qed

lemma wl_inv_writeloop:
  assumes "wl_inv wr w0 ps ch" and "writeloop ops pick now pc ch = Some (pc', ch')"
  shows "wl_inv wr w0 ps ch'"
proof (cases "recv_payload ch")
  case None
  with assms show ?thesis
    by (cases "(ops, pick, now, pc, ch)" rule: writeloop.cases) (auto simp: flush split: if_splits)
next
  case (Some pr)
  obtain p ch1 where p: "pr = (p, ch1)" by (cases pr)
  with Some wl_inv_write_one [OF assms(1), of p ch1 now] obtain ch2
    where "ch_WriteFrame ops now OpBinary p ch1 = (None, ch2)" "wl_inv wr w0 ps ch2" by auto
  with Some p assms show ?thesis
    by (cases "(ops, pick, now, pc, ch)" rule: writeloop.cases) (auto simp: flush split: if_splits)
qed

lemma wl_inv_step:
  assumes "wl_inv wr w0 ps (snd s)" and "ch_step ops s l t"
  shows "wl_inv wr w0 (ps @ pushes [l]) (snd t)"
  using assms(2)
proof (cases rule: ch_step.cases)
  case (push p ch ch' pc)
  with assms(1) show ?thesis
    by (auto simp: wl_inv_def Push_inv split: if_splits) (auto simp: ch_inv_def chan_ok_def delivered_def)
next
  case (refuse p ch e ch' pc)
  with assms(1) show ?thesis by (auto simp: wl_inv_def Push_inv split: if_splits)
next
  case (emit pick now pc ch pc' ch')
  with assms(1) show ?thesis by (auto intro: wl_inv_writeloop)
next
  case (close ch ch' pc)
  with assms(1) Close_inv [of ch] show ?thesis
    by (auto simp: wl_inv_def intro: delivered_mono) (auto simp: ch_inv_def chan_ok_def)
qed

lemma wl_inv_run:
  "ch_run ops s ls t \<Longrightarrow> wl_inv wr w0 [] (snd s) \<Longrightarrow> wl_inv wr w0 (pushes ls) (snd t)"
  by (induction rule: ch_run.induct) (auto dest: wl_inv_step)

lemma run_order:
  assumes "working c" and "ch_run ops (AtSelect, NewChannel i c) ls (pc, ch)"
  shows "\<exists>sent k. wbuf (c_out (ch_conn ch)) = wbuf (c_out c) @ frames_text wr (sent @ replicate k [])
    \<and> sent @ cbuf (writechan ch) = pushes ls \<and> length (cbuf (writechan ch)) \<le> 5
    \<and> (0 < k \<longrightarrow> HasFired (ch_closed ch) \<and> cbuf (writechan ch) = [])"
proof -
  have "wl_inv wr (wbuf (c_out c)) (pushes ls) ch"
    using wl_inv_run [OF assms(2)] wl_inv_New [OF assms(1)] by simp
  then show ?thesis by (auto simp: wl_inv_def delivered_def ch_inv_def chan_ok_def)
qed

lemma write_one:
  assumes "working (ch_conn ch)" "cbuf (writechan ch) = p # ps"
  obtains ch1 ch2 where "recv_payload ch = Some (p, ch1)" "ch_WriteFrame ops now OpBinary p ch1 = (None, ch2)"
    "working (ch_conn ch2)" "cbuf (writechan ch2) = ps"
    "wbuf (c_out (ch_conn ch2)) = wbuf (c_out (ch_conn ch)) @ wr OpBinary p"
  using assms write_working [of "ch\<lparr>writechan := (writechan ch)\<lparr>cbuf := ps\<rparr>\<rparr>" now OpBinary p]
  by (force simp: recv_payload_Some)

lemma write_steps_inner:
  assumes "working (ch_conn ch)" "cbuf (writechan ch) = ps"
  shows "\<exists>ch'. write_steps ops (Suc (length ps)) now (Inner (length ps), ch) = (AtSelect, ch')
    \<and> cbuf (writechan ch') = [] \<and> wbuf (c_out (ch_conn ch')) = wbuf (c_out (ch_conn ch)) @ frames_text wr ps"
  using assms
proof (induction ps arbitrary: ch)
  case Nil
  then show ?case by (simp add: write_steps.simps(2) flush)
next
  case (Cons p ps)
  obtain ch1 ch2 where w: "recv_payload ch = Some (p, ch1)" "ch_WriteFrame ops now OpBinary p ch1 = (None, ch2)"
    "working (ch_conn ch2)" "cbuf (writechan ch2) = ps"
    "wbuf (c_out (ch_conn ch2)) = wbuf (c_out (ch_conn ch)) @ wr OpBinary p"
    using write_one [OF Cons.prems] by blast
  then have "writeloop ops False now (Inner (length (p # ps))) ch = Some (Inner (length ps), ch2)" by simp
  from write_steps_Suc [OF this, of "Suc (length ps)"] Cons.IH [OF w(3,4)] w(5) show ?case by auto
qed

lemma drains:
  assumes "working (ch_conn ch)" and "ch_inv ch" and "\<not> HasFired (ch_closed ch)"
    and "cbuf (writechan ch) \<noteq> []"
  shows "\<exists>ch'. write_steps ops (Suc (length (cbuf (writechan ch)))) now (AtSelect, ch) = (AtSelect, ch')
    \<and> cbuf (writechan ch') = []
    \<and> wbuf (c_out (ch_conn ch')) = wbuf (c_out (ch_conn ch)) @ frames_text wr (cbuf (writechan ch))"
proof -
  from assms(4) obtain p ps where b: "cbuf (writechan ch) = p # ps" by (auto simp: neq_Nil_conv)
  obtain ch1 ch2 where w: "recv_payload ch = Some (p, ch1)" "ch_WriteFrame ops now OpBinary p ch1 = (None, ch2)"
    "working (ch_conn ch2)" "cbuf (writechan ch2) = ps"
    "wbuf (c_out (ch_conn ch2)) = wbuf (c_out (ch_conn ch)) @ wr OpBinary p"
    using write_one [OF assms(1) b] by blast
  have "\<not> done_ready (ch_closed ch)" using assms(2,3) by (simp add: ch_inv_def done_ready_iff)
  with w have "writeloop ops False now AtSelect ch = Some (Inner (length ps), ch2)" by simp
  from write_steps_Suc [OF this, of "Suc (length ps)"] write_steps_inner [OF w(3,4), of now] w(5) b
  show ?thesis by auto
qed

end

subsection \<open>The read side on any connection\<close>

context frame_conn
begin

definition code_of :: "'f \<Rightarrow> byte" where
  "code_of f = fm_GetOpCode (cn_frames ops) f"

definition body_of :: "'f \<Rightarrow> bytes" where
  "body_of f = fst (fm_GetPayload (cn_frames ops) f)"

lemma read_open:
  assumes "\<not> c_closed c" "ok f" "c_in c = \<lparr>rbuf = rd f @ r, rend = e\<rparr>"
  shows "cn_ReadFrame ops (snd (SetReadDeadline t c)) = (Inr f, c\<lparr>c_rdl := Some t, c_in := \<lparr>rbuf = r, rend = e\<rparr>\<rparr>)"
  using assms read_frame [of "c\<lparr>c_rdl := Some t\<rparr>" f r e] by (simp add: SetReadDeadline_def)

lemma read_stop:
  assumes "\<not> c_closed c" "c_in c = \<lparr>rbuf = [], rend = e\<rparr>"
  shows "cn_ReadFrame ops (snd (SetReadDeadline t c)) = (Inl e, c\<lparr>c_rdl := Some t\<rparr>)"
  using assms read_end [of "c\<lparr>c_rdl := Some t\<rparr>" e] by (simp add: SetReadDeadline_def)

text \<open>What the frames other than close frames make the read loop do.\<close>

definition handed_over :: "'f list \<Rightarrow> bytes list" where
  "handed_over fs = map body_of (filter (\<lambda>f. code_of f \<noteq> OpPing \<and> body_of f \<noteq> []) fs)"

definition answers :: "'f list \<Rightarrow> bytes" where
  "answers fs = concat (map (\<lambda>_. wr OpPong []) (filter (\<lambda>f. code_of f = OpPing) fs))"

text \<open>How the input ends: with an error of the connection, or with a close frame.\<close>

definition input_end :: "bytes \<Rightarrow> error \<Rightarrow> error \<Rightarrow> bool" where
  "input_end fin e err \<longleftrightarrow>
     fin = [] \<and> err = e
     \<or> (\<exists>f more. fin = rd f @ more \<and> ok f \<and> code_of f = OpClose \<and> err = ErrorMsg ''remote side close the channel'')"

lemma serves_end:
  assumes "\<not> c_closed (ch_conn ch)" "c_in (ch_conn ch) = \<lparr>rbuf = fin, rend = e\<rparr>" "input_end fin e err"
  shows "\<exists>c. Readloop ops now ch = Some (err, [], ch\<lparr>ch_conn := c\<rparr>) \<and> c_out c = c_out (ch_conn ch) \<and> \<not> c_closed c"
  using assms(3) unfolding input_end_def
proof (elim disjE exE conjE)
  assume "fin = []" "err = e"
  with read_stop [OF assms(1), of e] assms(2) show ?thesis
    by (intro exI [of _ "(ch_conn ch)\<lparr>c_rdl := Some (time_add (now 0) (readwait ch))\<rparr>"]) (simp add: Readloop_error assms(1))
next
  fix f more assume f: "fin = rd f @ more" "ok f" "code_of f = OpClose" "err = ErrorMsg ''remote side close the channel''"
  let ?c = "(ch_conn ch)\<lparr>c_rdl := Some (time_add (now 0) (readwait ch)), c_in := \<lparr>rbuf = more, rend = e\<rparr>\<rparr>"
  from f Readloop_frame [OF read_open [OF assms(1) f(2), of more e] refl refl, of now] assms(2) show ?thesis
    by (intro exI [of _ ?c]) (simp add: code_of_def assms(1))
qed

lemma serves:
  assumes "working (ch_conn ch)" "c_in (ch_conn ch) = \<lparr>rbuf = concat (map rd fs) @ fin, rend = e\<rparr>"
    and "list_all ok fs" "\<forall>f \<in> set fs. code_of f \<noteq> OpClose" "input_end fin e err"
  shows "\<exists>ch'. Readloop ops now ch = Some (err, handed_over fs, ch')
    \<and> wbuf (c_out (ch_conn ch')) = wbuf (c_out (ch_conn ch)) @ answers fs \<and> writechan ch' = writechan ch
    \<and> ch' = ch\<lparr>ch_conn := ch_conn ch'\<rparr> \<and> working (ch_conn ch')"
  using assms
proof (induction fs arbitrary: ch now)
  case Nil
  with serves_end [of ch fin e err now] show ?case by (auto simp: working_def handed_over_def answers_def)
next
  case (Cons f fs)
  let ?ch1 = "ch\<lparr>ch_conn := (ch_conn ch)\<lparr>c_rdl := Some (time_add (now 0) (readwait ch)),
    c_in := \<lparr>rbuf = concat (map rd fs) @ fin, rend = e\<rparr>\<rparr>\<rparr>"
  have "\<not> c_closed (ch_conn ch)" "ok f" "c_in (ch_conn ch) = \<lparr>rbuf = rd f @ concat (map rd fs) @ fin, rend = e\<rparr>"
    using Cons.prems by (auto simp: working_def)
  note r = Readloop_frame [OF read_open [OF this] refl refl, folded code_of_def body_of_def]
  have w1: "working (ch_conn ?ch1)" using Cons.prems(1) by (simp add: working_def)
  show ?case
  proof (cases "code_of f = OpPing")
    case True
    from write_working [OF w1, of "now 1" OpPong "[]"] obtain c where
      c: "ch_WriteFrame ops (now 1) OpPong [] ?ch1 = (None, ?ch1\<lparr>ch_conn := c\<rparr>)" "working c"
      "c_in c = \<lparr>rbuf = concat (map rd fs) @ fin, rend = e\<rparr>" "wbuf (c_out c) = wbuf (c_out (ch_conn ch)) @ wr OpPong []"
      by auto
    from Cons.IH [of "?ch1\<lparr>ch_conn := c\<rparr>" "\<lambda>i. now (i + 2)"] c Cons.prems True show ?thesis
      by (simp add: r handed_over_def answers_def)
  next
    case False
    from Cons.IH [of ?ch1 "\<lambda>i. now (i + 1)"] w1 Cons.prems False show ?thesis
      by (auto simp: r handed_over_def answers_def)
  qed
qed

end

subsection \<open>Properties of the write side over TCP\<close>

text \<open>
  C15: whatever the interleaving of pushes, steps of the write loop and closes on a connection
  that works, the frames on the wire are the pushed payloads in the order of the pushes: a
  prefix of them, the rest, at most five, still waiting in the queue; nothing is lost,
  duplicated or reordered. Only after a close, and then with the queue drained, can frames
  appear that nobody pushed, and these are empty.
\<close>

theorem push_order_kept:
  assumes "working c" and "ch_run tcp_conn (AtSelect, NewChannel i c) ls (pc, ch)"
  shows "\<exists>sent k. wbuf (c_out (ch_conn ch)) = wbuf (c_out c) @ bin_frames (sent @ replicate k [])
    \<and> sent @ cbuf (writechan ch) = pushes ls \<and> length (cbuf (writechan ch)) \<le> 5
    \<and> (0 < k \<longrightarrow> HasFired (ch_closed ch) \<and> cbuf (writechan ch) = [])"
  using tcpc.run_order [OF assms] by (simp only: frames_text_tcp)

lemma ch_run_two_pushes:
  "\<exists>ch. ch_run ops (AtSelect, NewChannel ''a'' open_conn) [Pushed [1], Pushed [2]] (AtSelect, ch)"
proof -
  let ?s = "(AtSelect, NewChannel ''a'' open_conn)"
  obtain ch1 where 1: "Push [1] (NewChannel ''a'' open_conn) = Ret (None, ch1)" "ch_once ch1 = False"
    "ch_inv ch1" "length (cbuf (writechan ch1)) = 1"
    using ch_inv_New [of "''a''" open_conn]
    by (simp add: Push_inv) (simp add: NewChannel_def make_chan_def ch_inv_def chan_ok_def)
  then obtain ch2 where "Push [2] ch1 = Ret (None, ch2)" by (simp add: Push_inv)
  with 1 ch_run.snoc [OF ch_run.snoc [OF ch_run.start [of ops ?s] ch_step.push] ch_step.push]
  show ?thesis by (metis append_Cons append_Nil)
qed

theorem push_order_kept_witness:
  "\<exists>(ch :: ChannelImpl) sent k. wbuf (c_out (ch_conn ch)) = bin_frames (sent @ replicate k [])
    \<and> sent @ cbuf (writechan ch) = [[1], [2]] \<and> length (cbuf (writechan ch)) \<le> 5
    \<and> (0 < k \<longrightarrow> HasFired (ch_closed ch) \<and> cbuf (writechan ch) = [])"
proof -
  obtain ch where "ch_run tcp_conn (AtSelect, NewChannel ''a'' open_conn) [Pushed [1], Pushed [2]] (AtSelect, ch)"
    using ch_run_two_pushes by blast
  from push_order_kept [OF working_open_conn(1) this] show ?thesis by - (rule exI [of _ ch], simp)
qed

text \<open>
  C21: the write loop drains the queue: left alone on an open channel with a working
  connection, it writes everything that is waiting, in order, and is back at its
  \<open>select\<close> with an empty queue after a number of steps that is known in advance.
\<close>

theorem writeloop_drains:
  assumes "working (ch_conn ch)" and "ch_inv ch" and "\<not> HasFired (ch_closed ch)"
    and "cbuf (writechan ch) \<noteq> []"
  shows "\<exists>ch'. write_steps tcp_conn (Suc (length (cbuf (writechan ch)))) now (AtSelect, ch) = (AtSelect, ch')
    \<and> cbuf (writechan ch') = []
    \<and> wbuf (c_out (ch_conn ch')) = wbuf (c_out (ch_conn ch)) @ bin_frames (cbuf (writechan ch))"
  using tcpc.drains [OF assms, of now] by (simp only: frames_text_tcp)

theorem writeloop_drains_witness:
  "\<exists>ch'. write_steps tcp_conn 3 zero_time (AtSelect, (NewChannel ''a'' open_conn)\<lparr>writechan := \<lparr>cbuf = [[1], [2]], ccap = 5, cclosed = False\<rparr>\<rparr>) = (AtSelect, ch')
    \<and> cbuf (writechan ch') = [] \<and> wbuf (c_out (ch_conn ch')) = bin_frames [[1], [2]]"
  using writeloop_drains [of "(NewChannel ''a'' open_conn)\<lparr>writechan := \<lparr>cbuf = [[1], [2]], ccap = 5, cclosed = False\<rparr>\<rparr>" zero_time]
    ch_inv_New [of "''a''" open_conn]
  by (simp add: NewChannel_def ch_inv_def chan_ok_def eval_nat_numeral del: write_steps.simps)

subsection \<open>Closing\<close>

text \<open>
  \<open>Close\<close> can be called any number of times: it never panics and never blocks, the second
  call changes nothing, and every later \<open>Push\<close> is refused with an error instead of being
  queued.
\<close>

theorem Close_idempotent:
  assumes "ch_inv ch"
  shows "\<exists>ch'. Close ch = Ret ch' \<and> Close ch' = Ret ch' \<and> ch_inv ch'
    \<and> Push p ch' = Ret (Some (ErrorMsg (''channel '' @ ch_id ch @ '' has closed'')), ch')"
proof -
  from Close_inv [OF assms] obtain ev where
    "Close ch = Ret (ch\<lparr>writechan := (writechan ch)\<lparr>cclosed := True\<rparr>, ch_closed := ev, ch_once := True\<rparr>)"
    "event_inv ev" "HasFired ev" by blast
  with assms show ?thesis
    by (simp add: ch_inv_def chan_ok_def Push_def) (simp add: Close_def once_do_def)
qed

theorem Close_idempotent_witness:
  "\<exists>ch'. Close (NewChannel ''a'' open_conn) = Ret ch' \<and> Close ch' = Ret ch' \<and> ch_inv ch'
    \<and> Push [1] ch' = Ret (Some (ErrorMsg ''channel a has closed''), ch')"
  using Close_idempotent [OF ch_inv_New, of "''a''" open_conn "[1]"] by (simp add: NewChannel_def)

lemma ch_WriteFrame_queue:
  "ch_WriteFrame ops t op p (ch\<lparr>writechan := wc, ch_closed := ev, ch_once := on\<rparr>) =
     map_prod id (\<lambda>ch. ch\<lparr>writechan := wc, ch_closed := ev, ch_once := on\<rparr>) (ch_WriteFrame ops t op p ch)"
  by (simp add: ch_WriteFrame_def split: prod.splits)

lemma ch_WriteFrame_in [simp]: "c_in (ch_conn (snd (ch_WriteFrame tcp_conn t op p ch))) = c_in (ch_conn ch)"
  by (auto simp: ch_WriteFrame_def conn_WriteFrame_def SetWriteDeadline_def split: prod.splits)

text \<open>Over TCP every frame read shortens the input, so the read loop ends on every input.\<close>

lemma tcp_read_cases:
  obtains e c where "cn_ReadFrame tcp_conn (snd (SetReadDeadline t c0)) = (Inl e, c)"
  | f c where "cn_ReadFrame tcp_conn (snd (SetReadDeadline t c0)) = (Inr f, c)" "length (rbuf (c_in c)) < length (rbuf (c_in c0))"
proof (cases "conn_ReadFrame (snd (SetReadDeadline t c0))")
  case (Pair r c)
  with that conn_ReadFrame_shorter [of "snd (SetReadDeadline t c0)" _ c] show ?thesis by (cases r) simp_all
qed

lemma Readloop_returns: "Readloop tcp_conn now ch \<noteq> None"
proof (induction "length (rbuf (c_in (ch_conn ch)))" arbitrary: now ch rule: less_induct)
  case less
  show ?case
  proof (rule tcp_read_cases [of "time_add (now 0) (readwait ch)" "ch_conn ch"], goal_cases)
    case (1 e c)
    then show ?case by (simp add: Readloop_error)
  next
    case (2 f c)
    have "Readloop tcp_conn now' (ch\<lparr>ch_conn := c\<rparr>) \<noteq> None"
      "Readloop tcp_conn now' (snd (ch_WriteFrame tcp_conn t OpPong [] (ch\<lparr>ch_conn := c\<rparr>))) \<noteq> None" for now' t
      using 2(2) by (intro less; simp)+
    then show ?case unfolding Readloop_frame [of tcp_conn now ch, OF 2(1) refl refl] by (simp del: not_None_eq)
  qed
qed

lemma Readloop_queue:
  "Readloop tcp_conn now (ch\<lparr>writechan := wc, ch_closed := ev, ch_once := on\<rparr>) =
     map_option (map_prod id (map_prod id (\<lambda>ch. ch\<lparr>writechan := wc, ch_closed := ev, ch_once := on\<rparr>))) (Readloop tcp_conn now ch)"
proof (induction "length (rbuf (c_in (ch_conn ch)))" arbitrary: now ch rule: less_induct)
  case less
  let ?u = "\<lambda>ch. ch\<lparr>writechan := wc, ch_closed := ev, ch_once := on\<rparr>"
  show ?case
  proof (rule tcp_read_cases [of "time_add (now 0) (readwait ch)" "ch_conn ch"], goal_cases)
    case (1 e c)
    then have "cn_ReadFrame tcp_conn (snd (SetReadDeadline (time_add (now 0) (readwait (?u ch))) (ch_conn (?u ch)))) = (Inl e, c)" by simp
    with 1 show ?case by (simp add: Readloop_error)
  next
    case (2 f c)
    then have c': "cn_ReadFrame tcp_conn (snd (SetReadDeadline (time_add (now 0) (readwait (?u ch))) (ch_conn (?u ch)))) = (Inr f, c)" by simp
    have u: "(?u ch)\<lparr>ch_conn := c\<rparr> = ?u (ch\<lparr>ch_conn := c\<rparr>)" by simp
    have IH: "Readloop tcp_conn now' (?u (ch\<lparr>ch_conn := c\<rparr>)) =
        map_option (map_prod id (map_prod id ?u)) (Readloop tcp_conn now' (ch\<lparr>ch_conn := c\<rparr>))"
      "Readloop tcp_conn now' (snd (ch_WriteFrame tcp_conn t OpPong [] (?u (ch\<lparr>ch_conn := c\<rparr>)))) =
        map_option (map_prod id (map_prod id ?u)) (Readloop tcp_conn now' (snd (ch_WriteFrame tcp_conn t OpPong [] (ch\<lparr>ch_conn := c\<rparr>))))" for now' t
      using 2(2) less [of "ch\<lparr>ch_conn := c\<rparr>" now'] less [of "snd (ch_WriteFrame tcp_conn t OpPong [] (ch\<lparr>ch_conn := c\<rparr>))" now']
      unfolding ch_WriteFrame_queue by simp_all
    show ?case
      unfolding Readloop_frame [of tcp_conn now ch, OF 2(1) refl refl] Readloop_frame [of tcp_conn now "?u ch", OF c' refl refl] u IH
      by (simp add: option.map_comp prod.map_comp o_def)
  qed
qed

text \<open>
  \<open>Close\<close> does not touch the connection under the channel: neither this side's socket is
  closed nor anything written, so a channel closed by the server (a shutdown, or the end of
  the read loop) leaves its connection open, and the read loop goes on answering on it.
\<close>

theorem Close_leaves_connection:
  assumes "Close ch = Ret ch'"
  shows "ch_conn ch' = ch_conn ch
    \<and> (\<exists>err ps ch1 ch2. Readloop tcp_conn now ch = Some (err, ps, ch1) \<and> Readloop tcp_conn now ch' = Some (err, ps, ch2)
        \<and> ch_conn ch2 = ch_conn ch1)"
proof -
  obtain err ps ch1 where r: "Readloop tcp_conn now ch = Some (err, ps, ch1)"
    using Readloop_returns [of now ch] by auto
  from assms consider "ch' = ch"
    | wc ev where "ch' = ch\<lparr>writechan := wc, ch_closed := ev, ch_once := True\<rparr>"
    by (auto simp: Close_def once_do_def split: if_splits outcome.splits)
  then show ?thesis by cases (simp_all add: Readloop_queue r)
qed

theorem Close_leaves_connection_witness:
  "\<exists>ch'. Close (NewChannel ''a'' open_conn) = Ret ch' \<and> \<not> c_closed (ch_conn ch')"
proof -
  obtain ch' where "Close (NewChannel ''a'' open_conn) = Ret ch'"
    using Close_inv [OF ch_inv_New] by blast
  with Close_leaves_connection [OF this] show ?thesis by (simp add: NewChannel_def open_conn_def)
qed

text \<open>
  The check in \<open>Push\<close> and its send are not one step. If another goroutine runs \<open>Close\<close>
  between them, the send is a send on a closed channel and panics.
\<close>

theorem push_close_race_panics:
  assumes "ch_inv ch" and "\<not> HasFired (ch_closed ch)"
  shows "\<exists>ch'. Close ch = Ret ch' \<and> chan_send p (writechan ch') = Panic"
  using Close_inv [OF assms(1)] by (auto simp: chan_send_def)

theorem push_close_race_panics_witness:
  "\<exists>ch'. Close (NewChannel ''a'' open_conn) = Ret ch' \<and> chan_send [1] (writechan ch') = Panic"
  by (rule push_close_race_panics) (simp_all add: NewChannel_def ch_inv_New [unfolded NewChannel_def])

subsection \<open>Properties of the read side over TCP\<close>

text \<open>What a frame other than a close frame makes the read loop do.\<close>

definition handed :: "Frame list \<Rightarrow> bytes list" where
  "handed fs = map Payload (filter (\<lambda>f. OpCode f \<noteq> OpPing \<and> Payload f \<noteq> []) fs)"

definition pongs :: "Frame list \<Rightarrow> bytes" where
  "pongs fs = concat (map (\<lambda>_. enc_frame \<lparr>OpCode = OpPong, Payload = []\<rparr>) (filter (\<lambda>f. OpCode f = OpPing) fs))"

lemma handed_simps [simp]:
  "handed [] = []"
  "handed (f # fs) = (if OpCode f = OpPing \<or> Payload f = [] then handed fs else Payload f # handed fs)"
  "pongs [] = []"
  "pongs (f # fs) = (if OpCode f = OpPing then enc_frame \<lparr>OpCode = OpPong, Payload = []\<rparr> @ pongs fs else pongs fs)"
  by (simp_all add: handed_def pongs_def)

text \<open>How the input ends: with an error of the connection, or with a close frame.\<close>

definition stream_end :: "bytes \<Rightarrow> error \<Rightarrow> error \<Rightarrow> bool" where
  "stream_end fin e err \<longleftrightarrow>
     fin = [] \<and> err = e
     \<or> (\<exists>p more. fin = enc_frame \<lparr>OpCode = OpClose, Payload = p\<rparr> @ more \<and> fits32 p
          \<and> err = ErrorMsg ''remote side close the channel'')"

lemma handed_tcp: "tcpc.handed_over fs = handed fs" "tcpc.answers fs = pongs fs"
  by (simp_all add: tcpc.handed_over_def tcpc.answers_def tcpc.code_of_def tcpc.body_of_def handed_def pongs_def tcp_text_def)

lemma stream_end_tcp: "stream_end fin e err \<Longrightarrow> tcpc.input_end fin e err"
  by (auto simp: stream_end_def tcpc.input_end_def tcpc.code_of_def frame_ok_def)

text \<open>
  C20: on a working connection that delivers any sequence of frames and then an error or a
  close frame, the read loop ends, with that error; it has handed to the listener exactly
  the non-empty payloads of the frames that are not pings, in order; and it has answered
  each ping with one pong and written nothing else.
\<close>

theorem Readloop_serves:
  assumes "working (ch_conn ch)"
    and "c_in (ch_conn ch) = \<lparr>rbuf = concat (map enc_frame fs) @ fin, rend = e\<rparr>"
    and "list_all frame_ok fs" and "\<forall>f \<in> set fs. OpCode f \<noteq> OpClose" and "stream_end fin e err"
  shows "\<exists>ch'. Readloop tcp_conn now ch = Some (err, handed fs, ch')
    \<and> wbuf (c_out (ch_conn ch')) = wbuf (c_out (ch_conn ch)) @ pongs fs"
  using tcpc.serves [OF assms(1-3) _ stream_end_tcp [OF assms(5)], of now] assms(4)
  by (auto simp: handed_tcp tcpc.code_of_def)

theorem Readloop_serves_witness:
  "\<exists>ch'. Readloop tcp_conn (\<lambda>_. zero_time) (NewChannel ''a'' (open_conn\<lparr>c_in := \<lparr>rbuf =
        enc_frame \<lparr>OpCode = OpPing, Payload = []\<rparr> @ enc_frame \<lparr>OpCode = OpBinary, Payload = [5]\<rparr>
          @ enc_frame \<lparr>OpCode = OpClose, Payload = []\<rparr>, rend = EOF\<rparr>\<rparr>))
      = Some (ErrorMsg ''remote side close the channel'', [[5]], ch')
    \<and> wbuf (c_out (ch_conn ch')) = enc_frame \<lparr>OpCode = OpPong, Payload = []\<rparr>"
proof -
  let ?fs = "[\<lparr>OpCode = OpPing, Payload = []\<rparr>, \<lparr>OpCode = OpBinary, Payload = [5]\<rparr>]"
  let ?t = "enc_frame \<lparr>OpCode = OpClose, Payload = []\<rparr>"
  let ?ch = "NewChannel ''a'' (open_conn\<lparr>c_in := \<lparr>rbuf = concat (map enc_frame ?fs) @ ?t, rend = EOF\<rparr>\<rparr>)"
  have "stream_end ?t EOF (ErrorMsg ''remote side close the channel'')"
    unfolding stream_end_def by (intro disjI2 exI [of _ "[]"] exI [of _ "[]"]) (simp add: fits32_def)
  moreover have "working (ch_conn ?ch)"
    "c_in (ch_conn ?ch) = \<lparr>rbuf = concat (map enc_frame ?fs) @ ?t, rend = EOF\<rparr>"
    "wbuf (c_out (ch_conn ?ch)) = []"
    by (simp_all add: NewChannel_def working_def open_conn_def)
  ultimately show ?thesis
    using Readloop_serves [of ?ch ?fs ?t EOF "ErrorMsg ''remote side close the channel''" "\<lambda>_. zero_time"]
    by (simp add: frame_ok_def fits32_def)
qed

subsection \<open>Two writers on one connection\<close>

text \<open>
  \<open>WriteFrame\<close> is three calls of \<open>Write\<close>: opcode, length, payload. The pong of the read
  loop and the frames of the write loop (and, in the client, pings and submissions) use the
  same connection without a common lock, so the calls of two frames can interleave.
\<close>

definition frame_writes :: "Frame \<Rightarrow> bytes list" where
  "frame_writes f = [[OpCode f], PutUint32 (of_nat (length (Payload f))), Payload f]"

lemma frame_writes_alone: "concat (frame_writes f) = enc_frame f"
  by (simp add: frame_writes_def enc_frame_def enc_bytes_def)

fun interleaves :: "'a list \<Rightarrow> 'a list \<Rightarrow> 'a list list" where
  "interleaves [] ys = [ys]"
| "interleaves (x # xs) [] = [x # xs]"
| "interleaves (x # xs) (y # ys) =
     map ((#) x) (interleaves xs (y # ys)) @ map ((#) y) (interleaves (x # xs) ys)"

text \<open>
  For any non-empty message whose first byte is not the pong opcode (every message of the
  protocol starts with a brace) there is an interleaving of its frame with a pong after
  which the peer reads a first frame that is neither of the two: a binary frame of the right
  length with another payload, and the stream is out of step from there on.
\<close>

theorem unlocked_writes_garble:
  assumes "fits32 p" and "p \<noteq> []" and "hd p \<noteq> OpPong"
  shows "\<exists>ws f r. ws \<in> set (interleaves (frame_writes \<lparr>OpCode = OpBinary, Payload = p\<rparr>)
        (frame_writes \<lparr>OpCode = OpPong, Payload = []\<rparr>))
    \<and> ReadFrame \<lparr>rbuf = concat ws, rend = e\<rparr> = (Inr f, r)
    \<and> OpCode f = OpBinary \<and> length (Payload f) = length p \<and> Payload f \<noteq> p"
proof -
  let ?ws = "[[OpBinary], PutUint32 (of_nat (length p)), [OpPong], PutUint32 0, p, []]"
  let ?s = "OpPong # PutUint32 0 @ p"
  let ?q = "take (length p) ?s"
  let ?f = "\<lparr>OpCode = OpBinary, Payload = ?q\<rparr>"
  have "?ws \<in> set (interleaves (frame_writes \<lparr>OpCode = OpBinary, Payload = p\<rparr>)
      (frame_writes \<lparr>OpCode = OpPong, Payload = []\<rparr>))"
    by (simp add: frame_writes_def)
  moreover have "concat ?ws = enc_frame ?f @ drop (length p) ?s"
    by (simp add: enc_frame_def enc_bytes_def del: take_Suc_Cons drop_Suc_Cons)
  moreover have "frame_ok ?f" using assms(1) by (simp add: frame_ok_def fits32_def)
  ultimately have "ReadFrame \<lparr>rbuf = concat ?ws, rend = e\<rparr> = (Inr ?f, \<lparr>rbuf = drop (length p) ?s, rend = e\<rparr>)"
    using fr.rd_enc [of ?f] by simp
  moreover have "?q \<noteq> p" using assms(2,3) by (cases p) auto
  moreover have "length ?q = length p" by simp
  ultimately show ?thesis using \<open>?ws \<in> _\<close>
    by (intro exI [of _ ?ws] exI [of _ ?f] exI [of _ "\<lparr>rbuf = drop (length p) ?s, rend = e\<rparr>"])
      (auto simp del: take_Suc_Cons drop_Suc_Cons concat.simps interleaves.simps)
qed

theorem unlocked_writes_garble_witness:
  "\<exists>ws f r. ws \<in> set (interleaves (frame_writes \<lparr>OpCode = OpBinary, Payload = [123, 125]\<rparr>)
        (frame_writes \<lparr>OpCode = OpPong, Payload = []\<rparr>))
    \<and> ReadFrame \<lparr>rbuf = concat ws, rend = EOF\<rparr> = (Inr f, r)
    \<and> OpCode f = OpBinary \<and> length (Payload f) = length [123, 125 :: byte] \<and> Payload f \<noteq> [123, 125]"
  by (rule unlocked_writes_garble) (simp_all add: fits32_def OpPong_def)

subsection \<open>The table of channels as an interface\<close>

text \<open>
  What a server asks of a \<open>ChannelMap\<close>: a channel is found under its own identifier and no
  other, until it is removed, and a traversal sees each channel once.
\<close>

locale channel_map =
  fixes empty :: 'm
    and add :: "ChannelImpl \<Rightarrow> 'm \<Rightarrow> 'm"
    and remove :: "string \<Rightarrow> 'm \<Rightarrow> 'm"
    and get :: "string \<Rightarrow> 'm \<Rightarrow> ChannelImpl option"
    and keys :: "'m \<Rightarrow> string set"
    and all_in :: "string list \<Rightarrow> 'm \<Rightarrow> ChannelImpl list"
  assumes get_empty: "get i empty = None"
    and get_add: "get i (add ch m) = (if i = ch_id ch then Some ch else get i m)"
    and get_remove: "get i (remove j m) = (if i = j then None else get i m)"
    and keys_get: "keys m = {i. get i m \<noteq> None}"
    and all_get: "distinct order \<Longrightarrow> set order = keys m \<Longrightarrow> all_in order m = map (\<lambda>i. the (get i m)) order"
begin

text \<open>The tables a server can reach keep every channel under its identifier.\<close>

definition filed :: "'m \<Rightarrow> bool" where
  "filed m \<longleftrightarrow> (\<forall>i ch. get i m = Some ch \<longrightarrow> ch_id ch = i)"

lemma filed_steps: "filed empty" "filed m \<Longrightarrow> filed (add ch m)" "filed m \<Longrightarrow> filed (remove i m)"
  by (auto simp: filed_def get_empty get_add get_remove split: if_splits)

lemma all_once:
  assumes "filed m" "distinct order" "set order = keys m"
  shows "distinct (map ch_id (all_in order m)) \<and> set (all_in order m) = {ch. get (ch_id ch) m = Some ch}"
proof -
  have a: "all_in order m = map (\<lambda>i. the (get i m)) order" using assms all_get by blast
  have k: "get i m = Some (the (get i m)) \<and> ch_id (the (get i m)) = i" if "i \<in> set order" for i
    using that assms by (auto simp: keys_get filed_def)
  then have "map ch_id (all_in order m) = order" unfolding a by (simp add: map_idI)
  moreover have "set (all_in order m) = {ch. get (ch_id ch) m = Some ch}"
  proof (intro set_eqI iffI)
    fix ch assume "ch \<in> set (all_in order m)"
    then show "ch \<in> {ch. get (ch_id ch) m = Some ch}" using k unfolding a by auto
  next
    fix ch assume "ch \<in> {ch. get (ch_id ch) m = Some ch}"
    then have g: "get (ch_id ch) m = Some ch" by simp
    then have "ch_id ch \<in> set order" unfolding assms(3) keys_get by simp
    moreover have "ch = the (get (ch_id ch) m)" using g by simp
    ultimately show "ch \<in> set (all_in order m)" unfolding a set_map by (rule rev_image_eqI)
  qed
  ultimately show ?thesis using assms(2) by simp
qed

end

interpretation chans: channel_map "NewChannels n" chans_Add chans_Remove chans_Get dom chans_All
proof
  fix order :: "string list" and m :: ChannelsImpl
  assume "distinct order" "set order = dom m"
  then have "\<forall>i \<in> set order. m i \<noteq> None" by auto
  then show "chans_All order m = map (\<lambda>i. the (chans_Get i m)) order"
    unfolding chans_All_def chans_Get_def by (induction order) (auto simp: map_filter_simps)
qed (auto simp: NewChannels_def chans_Add_def chans_Remove_def chans_Get_def)

end
