(* ===== verification/Acceptor.thy ===== *)
theory Acceptor
  imports Coordination Channel
begin

text \<open>
  \<open>app/server/acceptor.go\<close>: the handshake of a new connection. The first frame must be a
  binary frame with an \<open>authorize\<close> request; the session gets a random channel identifier and
  the user's saved state. The random bytes (or the error of the random source) and the clock
  reading are arguments.
\<close>

definition restore_user :: "string \<Rightarrow> string \<Rightarrow> ('p, 's, 'q) Coordinator \<Rightarrow> ('p, 's, 'q) Coordinator" where
  "restore_user chID username c =
     (case state c of
        None \<Rightarrow> c
      | Some st \<Rightarrow>
          (case LoadUserState st username (backend c) of
             Inl _ \<Rightarrow> c
           | Inr (j, n, t) \<Rightarrow>
               (case sessions c chID of
                  None \<Rightarrow> c
                | Some s \<Rightarrow> put_session chID (s\<lparr>LatestJobID := j, LatestServerNonce := n, LastSubmitAt := t\<rparr>) c)))"

definition Accept :: "go_time \<Rightarrow> duration \<Rightarrow> error + bytes \<Rightarrow> conn \<Rightarrow> ('p, 's, 'q) Coordinator
    \<Rightarrow> (error + string) \<times> conn \<times> ('p, 's, 'q) Coordinator" where
  "Accept now timeout rnd conn0 c =
     (case conn_ReadFrame (snd (SetReadDeadline (time_add now timeout) conn0)) of
        (Inl err, conn1) \<Rightarrow> (Inl err, conn1, c)
      | (Inr frame, conn1) \<Rightarrow>
          if GetOpCode frame \<noteq> OpBinary then (Inl (ErrorMsg ''invalid opcode''), conn1, c)
          else (case Decode_Request (GetPayload frame) of
              (_, Some err) \<Rightarrow> (Inl err, conn1, c)
            | (req, None) \<Rightarrow>
                (case req_ID req of
                   None \<Rightarrow> (Inl (ErrorMsg ''unauthorized''), conn1, c)
                 | Some k \<Rightarrow>
                     if req_Method req \<noteq> ''authorize'' \<or> req_Params req = None
                     then (Inl (ErrorMsg ''unauthorized''), conn1, c)
                     else (case Decode_AuthorizeParams (raw_params req) of
                         (_, Some err) \<Rightarrow> (Inl err, conn1, c)
                       | (p, None) \<Rightarrow>
                           if auth_Username p = [] then (Inl (ErrorMsg ''unauthorized''), conn1, c)
                           else (case rnd of
                               Inl err \<Rightarrow> (Inl err, conn1, c)
                             | Inr buf \<Rightarrow>
                                 let chID = EncodeToString buf;
                                     c1 = RegisterSession chID (auth_Username p) c;
                                     c2 = restore_user chID (auth_Username p) c1;
                                     resp = Encode_Response \<lparr>resp_ID = k, resp_Result = True, resp_Error = None\<rparr>
                                 in (Inr chID, snd (conn_WriteFrame OpBinary resp conn1), c2))))))"

lemma restore_user_srv [simp]: "srv_obj (restore_user i u c) = srv_obj c"
  by (auto simp: restore_user_def Let_def put_session_def split: sum.splits prod.splits option.splits)

lemma Accept_srv: "srv_obj (snd (snd (Accept now t rnd cn c))) = srv_obj c"
  by (simp add: Accept_def Let_def RegisterSession_def split: sum.split prod.split option.split)

text \<open>The handshake's frame, as the client's first message must decode.\<close>

definition authorizes :: "bytes \<Rightarrow> string \<Rightarrow> int \<Rightarrow> bool" where
  "authorizes payload u k \<longleftrightarrow> (\<exists>req. Decode_Request payload = (req, None) \<and> req_ID req = Some k
     \<and> req_Method req = ''authorize'' \<and> req_Params req \<noteq> None
     \<and> Decode_AuthorizeParams (raw_params req) = (\<lparr>auth_Username = u\<rparr>, None) \<and> u \<noteq> [])"

text \<open>
  C8: the handshake succeeds exactly when a binary frame arrives that decodes to an
  \<open>authorize\<close> request with an identifier and a non-empty user name (and the random source
  works). Then exactly one session is added, under the identifier drawn, for that user, with
  no nonce used. In every other case the coordinator is unchanged.
\<close>

theorem accept_outcome:
  assumes "conn_ReadFrame (snd (SetReadDeadline (time_add now timeout) conn0)) = (r, conn1)"
  shows "case Accept now timeout rnd conn0 c of
      (Inl err, conn2, c') \<Rightarrow> c' = c \<and> conn2 = conn1
        \<and> (\<forall>f u k. r = Inr f \<and> OpCode f = OpBinary \<and> authorizes (Payload f) u k \<longrightarrow> rnd = Inl err)
    | (Inr chID, conn2, c') \<Rightarrow> \<exists>f u k buf s. r = Inr f \<and> OpCode f = OpBinary \<and> authorizes (Payload f) u k
        \<and> rnd = Inr buf \<and> chID = EncodeToString buf
        \<and> c' = c\<lparr>sessions := (sessions c)(chID \<mapsto> s)\<rparr> \<and> ChannelID s = chID \<and> Username s = u \<and> UsedNonces s = Map.empty
        \<and> conn2 = snd (conn_WriteFrame OpBinary (Encode_Response \<lparr>resp_ID = k, resp_Result = True, resp_Error = None\<rparr>) conn1)"
proof -
  have restored: "\<exists>s. restore_user i u (RegisterSession i u c) = c\<lparr>sessions := (sessions c)(i \<mapsto> s)\<rparr>
      \<and> ChannelID s = i \<and> Username s = u \<and> UsedNonces s = Map.empty" for i u
    by (auto simp: restore_user_def RegisterSession_def NewSession_def put_session_def split: option.splits sum.splits)
  show ?thesis
  proof (cases "\<exists>f u k buf. r = Inr f \<and> OpCode f = OpBinary \<and> authorizes (Payload f) u k \<and> rnd = Inr buf")
    case True
    then obtain f u k buf where *: "r = Inr f" "OpCode f = OpBinary" "authorizes (Payload f) u k" "rnd = Inr buf" by blast
    then have "Accept now timeout rnd conn0 c = (Inr (EncodeToString buf),
        snd (conn_WriteFrame OpBinary (Encode_Response \<lparr>resp_ID = k, resp_Result = True, resp_Error = None\<rparr>) conn1),
        restore_user (EncodeToString buf) u (RegisterSession (EncodeToString buf) u c))"
      using assms by (auto simp: Accept_def authorizes_def Let_def)
    with * restored [of "EncodeToString buf" u] show ?thesis by auto
  next
    case False
    with assms show ?thesis
      by (auto simp: Accept_def authorizes_def Let_def split: sum.splits prod.splits option.splits if_splits)
  qed
qed

end
