(* ===== verification/Sha256.thy ===== *)
theory Sha256
  imports Prelude
begin

text \<open>
  \<open>sha256.Sum256\<close> of \<open>crypto/sha256\<close> (FIPS 180-4): padding, message schedule and
  compression on 32-bit words. The server checks submissions with it and the client
  computes them with it.
\<close>

type_synonym word32 = "32 word"

definition rotr :: "nat \<Rightarrow> word32 \<Rightarrow> word32" where
  "rotr n x = drop_bit n x OR push_bit (32 - n) x"

text \<open>
  The constants are the first 32 bits of the fractional parts of roots of the first primes:
  cube roots of 64 primes for the rounds, square roots of 8 primes for the initial state.
  \<open>root_bits k m b x\<close> extends \<open>x\<close> by \<open>b\<close> more bits to the largest number whose \<open>k\<close>-th power
  is at most \<open>m\<close>; 36 bits are enough because the roots are below 16.
\<close>

primrec root_bits :: "nat \<Rightarrow> nat \<Rightarrow> nat \<Rightarrow> nat \<Rightarrow> nat" where
  "root_bits k m 0 x = x"
| "root_bits k m (Suc b) x = root_bits k m b (if (x + 2 ^ b) ^ k \<le> m then x + 2 ^ b else x)"

definition frac_root :: "nat \<Rightarrow> nat \<Rightarrow> word32" where
  "frac_root k p = of_nat (root_bits k (p * 2 ^ (32 * k)) 36 0)"

definition sha_primes :: "nat list" where
  "sha_primes = filter (\<lambda>n. list_all (\<lambda>d. n mod d \<noteq> 0) [2..<n]) [2..<312]"

definition sha_K :: "word32 list" where
  "sha_K = map (frac_root 3) sha_primes"

definition sha_init :: "word32 list" where
  "sha_init = map (frac_root 2) (take 8 sha_primes)"

definition sigma0 :: "word32 \<Rightarrow> word32" where
  "sigma0 x = rotr 7 x XOR rotr 18 x XOR drop_bit 3 x"

definition sigma1 :: "word32 \<Rightarrow> word32" where
  "sigma1 x = rotr 17 x XOR rotr 19 x XOR drop_bit 10 x"

definition Sigma0 :: "word32 \<Rightarrow> word32" where
  "Sigma0 x = rotr 2 x XOR rotr 13 x XOR rotr 22 x"

definition Sigma1 :: "word32 \<Rightarrow> word32" where
  "Sigma1 x = rotr 6 x XOR rotr 11 x XOR rotr 25 x"

text \<open>The message schedule; the list is kept with the newest word first.\<close>

fun schedule :: "nat \<Rightarrow> word32 list \<Rightarrow> word32 list" where
  "schedule 0 w = rev w"
| "schedule (Suc n) w = schedule n ((sigma1 (w ! 1) + w ! 6 + sigma0 (w ! 14) + w ! 15) # w)"

type_synonym regs = "word32 \<times> word32 \<times> word32 \<times> word32 \<times> word32 \<times> word32 \<times> word32 \<times> word32"

definition round_step :: "word32 \<times> word32 \<Rightarrow> regs \<Rightarrow> regs" where
  "round_step kw r =
     (case r of (a, b, c, d, e, f, g, h) \<Rightarrow>
        let t1 = h + Sigma1 e + ((e AND f) XOR (NOT e AND g)) + fst kw + snd kw;
            t2 = Sigma0 a + ((a AND b) XOR (a AND c) XOR (b AND c))
        in (t1 + t2, a, b, c, d + t1, e, f, g))"

fun be_words :: "bytes \<Rightarrow> word32 list" where
  "be_words (a # b # c # d # r) =
     (push_bit 24 (ucast a) OR push_bit 16 (ucast b) OR push_bit 8 (ucast c) OR ucast d) # be_words r"
| "be_words _ = []"

definition be_bytes :: "word32 \<Rightarrow> bytes" where
  "be_bytes w = [ucast (drop_bit 24 w), ucast (drop_bit 16 w), ucast (drop_bit 8 w), ucast w]"

definition sha_block :: "word32 list \<Rightarrow> bytes \<Rightarrow> word32 list" where
  "sha_block hs blk =
     (let ws = schedule 48 (rev (be_words blk));
          r0 = (hs ! 0, hs ! 1, hs ! 2, hs ! 3, hs ! 4, hs ! 5, hs ! 6, hs ! 7)
      in case fold round_step (zip sha_K ws) r0 of
        (a, b, c, d, e, f, g, h) \<Rightarrow> map2 (+) hs [a, b, c, d, e, f, g, h])"

text \<open>One 1 bit, zeros up to 56 modulo 64 bytes, the length in bits as a 64-bit number.\<close>

definition sha_pad :: "bytes \<Rightarrow> bytes" where
  "sha_pad m =
     (let n = length m; z = (119 - n mod 64) mod 64; l = (of_nat (8 * n) :: 64 word)
      in m @ [0x80] @ replicate z 0 @ be_bytes (ucast (drop_bit 32 l)) @ be_bytes (ucast l))"

function sha_blocks :: "word32 list \<Rightarrow> bytes \<Rightarrow> word32 list" where
  "sha_blocks hs m = (if length m < 64 then hs else sha_blocks (sha_block hs (take 64 m)) (drop 64 m))"
  by pat_completeness auto
termination
  by (relation "measure (length \<circ> snd)") auto

declare sha_blocks.simps [simp del]

definition Sum256 :: "bytes \<Rightarrow> bytes" where
  "Sum256 m = concat (map be_bytes (sha_blocks sha_init (sha_pad m)))"

subsection \<open>Shape of a digest\<close>

lemma length_sha_pad: "length (sha_pad m) mod 64 = 0"
proof -
  define q r where "q = length m div 64" and "r = length m mod 64"
  have n: "length m = 64 * q + r" and "r < 64" by (simp_all add: q_def r_def)
  have "(119 - r) mod 64 = (if r \<le> 55 then 55 - r else 119 - r)"
    using \<open>r < 64\<close> by (auto simp: mod_if)
  then have "64 * q + r + (119 - r) mod 64 + 9 = 64 * (q + (if r \<le> 55 then 1 else 2))"
    using \<open>r < 64\<close> by auto
  moreover have "length (sha_pad m) = length m + (119 - r) mod 64 + 9"
    by (simp add: sha_pad_def be_bytes_def Let_def r_def)
  ultimately have "length (sha_pad m) = 64 * (q + (if r \<le> 55 then 1 else 2))" using n by simp
  then show ?thesis by simp
qed

lemma length_sha_block: "length hs = 8 \<Longrightarrow> length (sha_block hs blk) = 8"
  by (simp add: sha_block_def Let_def split: prod.splits)

lemma length_sha_blocks: "length hs = 8 \<Longrightarrow> length (sha_blocks hs m) = 8"
proof (induction hs m rule: sha_blocks.induct)
  case (1 hs m)
  then show ?case by (subst sha_blocks.simps) (simp add: length_sha_block)
qed

lemma sha_primes_enough: "8 \<le> length sha_primes"
proof -
  define P where "P = (\<lambda>n :: nat. list_all (\<lambda>d. n mod d \<noteq> 0) [2..<n])"
  have "list_all P [2, 3, 5, 7, 11, 13, 17, 19]" unfolding P_def by code_simp
  moreover have "x \<in> set sha_primes \<longleftrightarrow> 2 \<le> x \<and> x < 312 \<and> P x" for x
    unfolding sha_primes_def P_def set_filter set_upt mem_Collect_eq atLeastLessThan_iff by blast
  ultimately have "set [2, 3, 5, 7, 11, 13, 17, 19] \<subseteq> set sha_primes" by simp
  then have "card (set [2, 3, 5, 7, 11, 13, 17, 19 :: nat]) \<le> card (set sha_primes)" by (intro card_mono) simp_all
  with card_length [of sha_primes] show ?thesis by simp
qed

lemma length_Sum256 [simp]: "length (Sum256 m) = 32"
proof -
  have "length (concat (map be_bytes ws)) = 4 * length ws" for ws
    by (induction ws) (simp_all add: be_bytes_def)
  moreover have "length (sha_blocks sha_init (sha_pad m)) = 8"
    by (rule length_sha_blocks) (simp add: sha_init_def sha_primes_enough)
  ultimately show ?thesis by (simp add: Sum256_def)
qed

end
