(* ===== verification/Listener.thy ===== *)
theory Listener
  imports Coordination Sha256
begin

text \<open>
  \<open>app/server/listener.go\<close>: what the server does with a message of an authorised client.
  \<open>handleSubmit\<close> works on the session in place, so a branch that ends in an error after
  the session was touched returns the touched session. Its two readings of the clock are
  arguments: \<open>tsince\<close> for \<open>time.Since\<close> and \<open>now\<close>.
\<close>

subsection \<open>Operations\<close>

definition submit_hash :: "string \<Rightarrow> string \<Rightarrow> string" where
  "submit_hash server_nonce client_nonce = EncodeToString (Sum256 (bytes_of (server_nonce @ client_nonce)))"

definition save_accepted :: "Session \<Rightarrow> SubmitParams \<Rightarrow> ('p, 's, 'q) Coordinator \<Rightarrow> ('p, 's, 'q) Coordinator" where
  "save_accepted s p c =
     (case state c of
        None \<Rightarrow> c
      | Some st \<Rightarrow>
          let b1 = snd (SaveUsedNonce st (Username s) (sub_JobID p) (sub_ClientNonce p) (backend c));
              b2 = snd (SaveUserState st (Username s) (LatestJobID s) (LatestServerNonce s) (LastSubmitAt s) b1)
          in c\<lparr>backend := b2\<rparr>)"

definition publish_event :: "SubmitEvent \<Rightarrow> ('p, 's, 'q) Coordinator \<Rightarrow> ('p, 's, 'q) Coordinator outcome" where
  "publish_event evt c =
     (case Publish (mq c) evt (mq_obj c) of
        Ret (_, q) \<Rightarrow> Ret (c\<lparr>mq_obj := q\<rparr>)
      | Block \<Rightarrow> Block
      | Panic \<Rightarrow> Panic)"

text \<open>The checks from the rate limit on, for a session \<open>s\<close> that is stored under \<open>channelID\<close>.\<close>

definition check_submit :: "string \<Rightarrow> SubmitParams \<Rightarrow> go_time \<Rightarrow> Session \<Rightarrow> ('p, 's, 'q) Coordinator
    \<Rightarrow> (error option \<times> ('p, 's, 'q) Coordinator) outcome" where
  "check_submit channelID p now s c =
     (if \<not> IsZero (LastSubmitAt s) \<and> time_sub now (LastSubmitAt s) < Second
      then Ret (Some (ErrorMsg ''Submission too frequent''), put_session channelID s c)
      else
        let m = (case UsedNonces s (sub_JobID p) of Some m \<Rightarrow> m | None \<Rightarrow> {});
            s1 = s\<lparr>UsedNonces := (UsedNonces s)(sub_JobID p \<mapsto> m)\<rparr>
        in if sub_ClientNonce p \<in> m
           then Ret (Some (ErrorMsg ''Duplicate submission''), put_session channelID s1 c)
           else if \<not> EqualFold (submit_hash (LatestServerNonce s1) (sub_ClientNonce p)) (sub_Result p)
           then Ret (Some (ErrorMsg ''Invalid result''), put_session channelID s1 c)
           else
             let s2 = s1\<lparr>UsedNonces := (UsedNonces s1)(sub_JobID p \<mapsto> insert (sub_ClientNonce p) m),
                         LastSubmitAt := now\<rparr>;
                 c1 = save_accepted s2 p (put_session channelID s2 c)
             in case publish_event \<lparr>ev_Username = Username s2, ev_Time = now\<rparr> c1 of
                  Ret c2 \<Rightarrow> Ret (None, c2)
                | Block \<Rightarrow> Block
                | Panic \<Rightarrow> Panic)"

definition handleSubmit :: "string \<Rightarrow> SubmitParams \<Rightarrow> go_time \<Rightarrow> go_time \<Rightarrow> ('p, 's, 'q) Coordinator
    \<Rightarrow> (error option \<times> ('p, 's, 'q) Coordinator) outcome" where
  "handleSubmit channelID p tsince now c =
     (case sessions c channelID of
        None \<Rightarrow> Ret (Some (ErrorMsg ''Task does not exist''), c)
      | Some s \<Rightarrow>
          if sub_JobID p \<noteq> LatestJobID s
          then (case history c (sub_JobID p) of
                  None \<Rightarrow> Ret (Some (ErrorMsg ''Task does not exist''), c)
                | Some rec \<Rightarrow>
                    let s' = s\<lparr>LatestServerNonce := Nonce rec\<rparr>
                    in if expireAfter c > 0 \<and> time_sub tsince (CreatedAt rec) > expireAfter c
                       then Ret (Some (ErrorMsg ''Task expired''), put_session channelID s' c)
                       else check_submit channelID p now s' c)
          else check_submit channelID p now s c)"

text \<open>The agent of a message: its identifier and its \<open>Push\<close>, acting on the connections.\<close>

record 'p Agent =
  ag_ID :: string
  ag_Push :: "bytes \<Rightarrow> 'p \<Rightarrow> (error option \<times> 'p) outcome"

definition agent_push :: "'p Agent \<Rightarrow> bytes \<Rightarrow> ('p, 's, 'q) Coordinator \<Rightarrow> ('p, 's, 'q) Coordinator outcome" where
  "agent_push ag dat c =
     (case ag_Push ag dat (srv_obj c) of Ret (_, p) \<Rightarrow> Ret (c\<lparr>srv_obj := p\<rparr>) | Block \<Rightarrow> Block | Panic \<Rightarrow> Panic)"

definition respondError :: "'p Agent \<Rightarrow> int \<Rightarrow> string \<Rightarrow> ('p, 's, 'q) Coordinator \<Rightarrow> ('p, 's, 'q) Coordinator outcome" where
  "respondError ag i msg c = agent_push ag (Encode_Response \<lparr>resp_ID = i, resp_Result = False, resp_Error = Some msg\<rparr>) c"

definition Receive :: "(error \<Rightarrow> string) \<Rightarrow> 'p Agent \<Rightarrow> bytes \<Rightarrow> go_time \<Rightarrow> go_time \<Rightarrow> ('p, 's, 'q) Coordinator
    \<Rightarrow> ('p, 's, 'q) Coordinator outcome" where
  "Receive wording ag payload tsince now c =
     (case Decode_Request payload of
        (_, Some _) \<Rightarrow> Ret c
      | (req, None) \<Rightarrow>
          (case req_ID req of
             None \<Rightarrow> Ret c
           | Some i \<Rightarrow>
               if req_Method req \<noteq> ''submit'' then Ret c
               else (case Decode_SubmitParams (raw_params req) of
                   (_, Some _) \<Rightarrow> respondError ag i ''Invalid result'' c
                 | (p, None) \<Rightarrow>
                     (case handleSubmit (ag_ID ag) p tsince now c of
                        Ret (Some err, c') \<Rightarrow> respondError ag i (error_text wording err) c'
                      | Ret (None, c') \<Rightarrow>
                          agent_push ag (Encode_Response \<lparr>resp_ID = i, resp_Result = True, resp_Error = None\<rparr>) c'
                      | Block \<Rightarrow> Block
                      | Panic \<Rightarrow> Panic))))"

definition Disconnect :: "string \<Rightarrow> ('p, 's, 'q) Coordinator \<Rightarrow> error option \<times> ('p, 's, 'q) Coordinator" where
  "Disconnect i c = (None, UnregisterSession i c)"

subsection \<open>The decision a submission meets\<close>

text \<open>
  The specification: the job a submission names must be the session's latest or one of the
  history, and fresh; then the rate limit, the duplicate check and the digest, in this order.
  \<open>job_nonce\<close> is the server nonce the digest is checked against.
\<close>

definition job_nonce :: "Session \<Rightarrow> int \<Rightarrow> ('p, 's, 'q) Coordinator \<Rightarrow> string option" where
  "job_nonce s j c =
     (if j = LatestJobID s then Some (LatestServerNonce s) else map_option Nonce (history c j))"

definition job_expired :: "Session \<Rightarrow> int \<Rightarrow> go_time \<Rightarrow> ('p, 's, 'q) Coordinator \<Rightarrow> bool" where
  "job_expired s j t c \<longleftrightarrow> j \<noteq> LatestJobID s \<and> expireAfter c > 0
     \<and> (\<exists>rec. history c j = Some rec \<and> time_sub t (CreatedAt rec) > expireAfter c)"

definition too_soon :: "Session \<Rightarrow> go_time \<Rightarrow> bool" where
  "too_soon s now \<longleftrightarrow> \<not> IsZero (LastSubmitAt s) \<and> time_sub now (LastSubmitAt s) < Second"

definition nonces_of :: "Session \<Rightarrow> int \<Rightarrow> string set" where
  "nonces_of s j = (case UsedNonces s j of Some m \<Rightarrow> m | None \<Rightarrow> {})"

definition verdict :: "Session option \<Rightarrow> SubmitParams \<Rightarrow> go_time \<Rightarrow> go_time \<Rightarrow> ('p, 's, 'q) Coordinator \<Rightarrow> string option" where
  "verdict os p tsince now c =
     (case os of
        None \<Rightarrow> Some ''Task does not exist''
      | Some s \<Rightarrow>
          (case job_nonce s (sub_JobID p) c of
             None \<Rightarrow> Some ''Task does not exist''
           | Some n \<Rightarrow>
               if job_expired s (sub_JobID p) tsince c then Some ''Task expired''
               else if too_soon s now then Some ''Submission too frequent''
               else if sub_ClientNonce p \<in> nonces_of s (sub_JobID p) then Some ''Duplicate submission''
               else if \<not> EqualFold (submit_hash n (sub_ClientNonce p)) (sub_Result p) then Some ''Invalid result''
               else None))"

text \<open>What an accepted submission leaves in the session.\<close>

definition accepted_session :: "Session \<Rightarrow> SubmitParams \<Rightarrow> string \<Rightarrow> go_time \<Rightarrow> Session" where
  "accepted_session s p n now = s\<lparr>LatestServerNonce := n,
     UsedNonces := (UsedNonces s)(sub_JobID p \<mapsto> insert (sub_ClientNonce p) (nonces_of s (sub_JobID p))),
     LastSubmitAt := now\<rparr>"

lemma save_accepted_simps [server_simps]:
  "sessions (save_accepted s p c) = sessions c" "history (save_accepted s p c) = history c"
  "jobID (save_accepted s p c) = jobID c" "serverNonce (save_accepted s p c) = serverNonce c" "mq (save_accepted s p c) = mq c"
  "mq_obj (save_accepted s p c) = mq_obj c" "state (save_accepted s p c) = state c"
  "store (save_accepted s p c) = store c" "srv (save_accepted s p c) = srv c" "srv_obj (save_accepted s p c) = srv_obj c"
  "expireAfter (save_accepted s p c) = expireAfter c" "stopCh (save_accepted s p c) = stopCh c"
  by (simp_all add: save_accepted_def Let_def split: option.splits)

text \<open>
  A rejected submission changes at most the one session, and of it only the server nonce it
  is checked against: the nonces used, the time of the last submission, the user and the
  latest job are as before.
\<close>

definition same_account :: "Session \<Rightarrow> Session \<Rightarrow> bool" where
  "same_account s s' \<longleftrightarrow> ChannelID s' = ChannelID s \<and> Username s' = Username s \<and> LatestJobID s' = LatestJobID s
     \<and> LastSubmitAt s' = LastSubmitAt s \<and> nonces_of s' = nonces_of s"

definition only_session :: "string \<Rightarrow> ('p, 's, 'q) Coordinator \<Rightarrow> ('p, 's, 'q) Coordinator \<Rightarrow> bool" where
  "only_session i c c' \<longleftrightarrow> (\<exists>m. c' = c\<lparr>sessions := m\<rparr> \<and> (\<forall>k. k \<noteq> i \<longrightarrow> m k = sessions c k)
     \<and> rel_option same_account (sessions c i) (m i))"

lemma same_account_refl [simp]: "same_account s s"
  by (simp add: same_account_def)

lemma only_session_put:
  "sessions c i = Some s \<Longrightarrow> same_account s s' \<Longrightarrow> only_session i c (put_session i s' c)"
  unfolding only_session_def by (intro exI [of _ "(sessions c)(i \<mapsto> s')"]) (simp add: put_session_def)

lemma only_session_refl: "only_session i c c"
  unfolding only_session_def
  by (intro exI [of _ "sessions c"]) (cases "sessions c i"; simp)

lemma same_account_touch:
  "same_account s (s\<lparr>LatestServerNonce := n\<rparr>)"
  "same_account s (s\<lparr>LatestServerNonce := n, UsedNonces := (UsedNonces s)(j \<mapsto> nonces_of s j)\<rparr>)"
  "same_account s (s\<lparr>UsedNonces := (UsedNonces s)(j \<mapsto> nonces_of s j)\<rparr>)"
  by (auto simp: same_account_def nonces_of_def fun_eq_iff)

text \<open>The second half of the handler, for a session whose server nonce is already chosen.\<close>

definition late_verdict :: "Session \<Rightarrow> SubmitParams \<Rightarrow> go_time \<Rightarrow> string option" where
  "late_verdict s p now =
     (if too_soon s now then Some ''Submission too frequent''
      else if sub_ClientNonce p \<in> nonces_of s (sub_JobID p) then Some ''Duplicate submission''
      else if \<not> EqualFold (submit_hash (LatestServerNonce s) (sub_ClientNonce p)) (sub_Result p) then Some ''Invalid result''
      else None)"

lemma check_submit_verdict:
  "check_submit i p now s c =
     (case late_verdict s p now of
        Some msg \<Rightarrow> Ret (Some (ErrorMsg msg), put_session i (if too_soon s now then s
          else s\<lparr>UsedNonces := (UsedNonces s)(sub_JobID p \<mapsto> nonces_of s (sub_JobID p))\<rparr>) c)
      | None \<Rightarrow>
          let s2 = accepted_session s p (LatestServerNonce s) now
          in (case publish_event \<lparr>ev_Username = Username s, ev_Time = now\<rparr> (save_accepted s2 p (put_session i s2 c)) of
                Ret c2 \<Rightarrow> Ret (None, c2) | Block \<Rightarrow> Block | Panic \<Rightarrow> Panic))"
  by (simp add: check_submit_def late_verdict_def too_soon_def nonces_of_def [symmetric] accepted_session_def Let_def)

lemma late_verdict_nonce:
  "late_verdict (s\<lparr>LatestServerNonce := n\<rparr>) p now =
     (if too_soon s now then Some ''Submission too frequent''
      else if sub_ClientNonce p \<in> nonces_of s (sub_JobID p) then Some ''Duplicate submission''
      else if \<not> EqualFold (submit_hash n (sub_ClientNonce p)) (sub_Result p) then Some ''Invalid result''
      else None)"
  by (simp add: late_verdict_def too_soon_def nonces_of_def)

lemma handleSubmit_cases:
  "handleSubmit i p tsince now c =
     (case sessions c i of
        None \<Rightarrow> Ret (Some (ErrorMsg ''Task does not exist''), c)
      | Some s \<Rightarrow>
          (case job_nonce s (sub_JobID p) c of
             None \<Rightarrow> Ret (Some (ErrorMsg ''Task does not exist''), c)
           | Some n \<Rightarrow>
               if job_expired s (sub_JobID p) tsince c
               then Ret (Some (ErrorMsg ''Task expired''), put_session i (s\<lparr>LatestServerNonce := n\<rparr>) c)
               else check_submit i p now (s\<lparr>LatestServerNonce := n\<rparr>) c))"
  by (auto simp: handleSubmit_def job_nonce_def job_expired_def Let_def split: option.splits)

lemma handleSubmit_rejects:
  assumes "verdict (sessions c i) p tsince now c = Some msg"
  shows "\<exists>c'. handleSubmit i p tsince now c = Ret (Some (ErrorMsg msg), c') \<and> only_session i c c'"
proof -

  consider "sessions c i = None" | s where "sessions c i = Some s" "job_nonce s (sub_JobID p) c = None"
    | s n where "sessions c i = Some s" "job_nonce s (sub_JobID p) c = Some n" by blast
  then show ?thesis
  proof cases
    case 3
    let ?s = "s\<lparr>LatestServerNonce := n\<rparr>"
    have touch: "only_session i c (put_session i ?s c)"
      "only_session i c (put_session i (?s\<lparr>UsedNonces := (UsedNonces ?s)(sub_JobID p \<mapsto> nonces_of ?s (sub_JobID p))\<rparr>) c)"
      using only_session_put [OF 3(1)] same_account_touch(1,2) by (auto simp: nonces_of_def)
    from 3 assms have "job_expired s (sub_JobID p) tsince c \<and> msg = ''Task expired''
        \<or> \<not> job_expired s (sub_JobID p) tsince c \<and> late_verdict ?s p now = Some msg"
      by (auto simp: verdict_def late_verdict_nonce split: if_splits)
    with 3 touch show ?thesis
      by (auto simp: handleSubmit_cases check_submit_verdict)
  qed (use assms in \<open>auto simp: handleSubmit_cases verdict_def only_session_refl\<close>)
qed

lemma handleSubmit_accepts:
  assumes "verdict (sessions c i) p tsince now c = None"
  obtains s n where "sessions c i = Some s" "job_nonce s (sub_JobID p) c = Some n"
    "\<not> job_expired s (sub_JobID p) tsince c" "\<not> too_soon s now" "sub_ClientNonce p \<notin> nonces_of s (sub_JobID p)"
    "EqualFold (submit_hash n (sub_ClientNonce p)) (sub_Result p)"
    "handleSubmit i p tsince now c =
      (case publish_event \<lparr>ev_Username = Username s, ev_Time = now\<rparr>
          (save_accepted (accepted_session s p n now) p (put_session i (accepted_session s p n now) c)) of
         Ret c2 \<Rightarrow> Ret (None, c2) | Block \<Rightarrow> Block | Panic \<Rightarrow> Panic)"
proof -
  from assms obtain s n where *: "sessions c i = Some s" "job_nonce s (sub_JobID p) c = Some n"
    "\<not> job_expired s (sub_JobID p) tsince c" "\<not> too_soon s now" "sub_ClientNonce p \<notin> nonces_of s (sub_JobID p)"
    "EqualFold (submit_hash n (sub_ClientNonce p)) (sub_Result p)"
    by (auto simp: verdict_def split: option.splits if_splits)
  then have "accepted_session (s\<lparr>LatestServerNonce := n\<rparr>) p n now = accepted_session s p n now"
    by (simp add: accepted_session_def nonces_of_def)
  with * have "handleSubmit i p tsince now c =
      (case publish_event \<lparr>ev_Username = Username s, ev_Time = now\<rparr>
          (save_accepted (accepted_session s p n now) p (put_session i (accepted_session s p n now) c)) of
         Ret c2 \<Rightarrow> Ret (None, c2) | Block \<Rightarrow> Block | Panic \<Rightarrow> Panic)"
    by (simp add: handleSubmit_cases check_submit_verdict late_verdict_nonce Let_def)
  with * that show ?thesis by blast
qed

subsection \<open>Properties of the handler\<close>

text \<open>
  C4: the handler implements the specified decision on every path. A rejected submission is
  answered with the text of the first check it fails (existence of the job, expiry, rate,
  duplicate, digest) and leaves everything but the server nonce of that one session as it
  was; an accepted one records the nonce and the time in the session, saves both, and then
  publishes one event for the session's user.
\<close>

theorem submit_decision:
  "case verdict (sessions c i) p tsince now c of
     Some msg \<Rightarrow> \<exists>c'. handleSubmit i p tsince now c = Ret (Some (ErrorMsg msg), c') \<and> only_session i c c'
   | None \<Rightarrow> \<exists>s n. sessions c i = Some s \<and> job_nonce s (sub_JobID p) c = Some n \<and>
       handleSubmit i p tsince now c =
         (case publish_event \<lparr>ev_Username = Username s, ev_Time = now\<rparr>
            (save_accepted (accepted_session s p n now) p (put_session i (accepted_session s p n now) c)) of
          Ret c2 \<Rightarrow> Ret (None, c2) | Block \<Rightarrow> Block | Panic \<Rightarrow> Panic)"
proof (cases "verdict (sessions c i) p tsince now c")
  case None
  then show ?thesis by (rule handleSubmit_accepts) (use None in auto)
next
  case (Some msg)
  with handleSubmit_rejects [OF Some] show ?thesis by simp
qed

lemma publish_event_Ret:
  "publish_event e c = Ret c' \<Longrightarrow> \<exists>r q. Publish (mq c) e (mq_obj c) = Ret (r, q) \<and> c' = c\<lparr>mq_obj := q\<rparr>"
  by (auto simp: publish_event_def split: outcome.splits)

lemma handleSubmit_None:
  assumes "handleSubmit i p tsince now c = Ret (None, c')"
  shows "verdict (sessions c i) p tsince now c = None"
  using handleSubmit_rejects [of c i p tsince now] assms by (cases "verdict (sessions c i) p tsince now c") auto

lemma handleSubmit_no_error:
  assumes "verdict (sessions c i) p tsince now c = None" "handleSubmit i p tsince now c = Ret (r, c')"
  shows "r = None"
  by (rule handleSubmit_accepts [OF assms(1)]) (use assms(2) in \<open>simp split: outcome.splits\<close>)

lemma accepted_effect:
  assumes "handleSubmit i p tsince now c = Ret (None, c')"
  obtains s n r q where "sessions c i = Some s" "job_nonce s (sub_JobID p) c = Some n" "\<not> too_soon s now"
    "\<not> job_expired s (sub_JobID p) tsince c"
    "sub_ClientNonce p \<notin> nonces_of s (sub_JobID p)" "EqualFold (submit_hash n (sub_ClientNonce p)) (sub_Result p)"
    "Publish (mq c) \<lparr>ev_Username = Username s, ev_Time = now\<rparr> (mq_obj c) = Ret (r, q)"
    "c' = (save_accepted (accepted_session s p n now) p (put_session i (accepted_session s p n now) c))\<lparr>mq_obj := q\<rparr>"
proof -
  from handleSubmit_accepts [OF handleSubmit_None [OF assms]] obtain s n where
    s: "sessions c i = Some s" "job_nonce s (sub_JobID p) c = Some n" "\<not> job_expired s (sub_JobID p) tsince c"
    "\<not> too_soon s now" "sub_ClientNonce p \<notin> nonces_of s (sub_JobID p)"
    "EqualFold (submit_hash n (sub_ClientNonce p)) (sub_Result p)"
    and h: "handleSubmit i p tsince now c =
      (case publish_event \<lparr>ev_Username = Username s, ev_Time = now\<rparr>
          (save_accepted (accepted_session s p n now) p (put_session i (accepted_session s p n now) c)) of
         Ret c2 \<Rightarrow> Ret (None, c2) | Block \<Rightarrow> Block | Panic \<Rightarrow> Panic)" by metis
  from h assms have "publish_event \<lparr>ev_Username = Username s, ev_Time = now\<rparr>
      (save_accepted (accepted_session s p n now) p (put_session i (accepted_session s p n now) c)) = Ret c'"
    by (auto split: outcome.splits)
  from publish_event_Ret [OF this] s that show ?thesis by (auto simp: server_simps)
qed

lemma rejected_effect:
  assumes "handleSubmit i p tsince now c = Ret (Some e, c')"
  shows "only_session i c c'"
proof (cases "verdict (sessions c i) p tsince now c")
  case None
  with handleSubmit_no_error [OF None assms] show ?thesis by simp
next
  case (Some msg)
  with handleSubmit_rejects [OF Some] assms show ?thesis by auto
qed

text \<open>Where the server nonce of a session can come from.\<close>

lemma rejected_nonce:
  assumes "handleSubmit i p tsince now c = Ret (Some e, c')" "sessions c' k = Some s'"
  shows "\<exists>s. sessions c k = Some s \<and> (LatestServerNonce s' = LatestServerNonce s
    \<or> (\<exists>rec. history c (sub_JobID p) = Some rec \<and> LatestServerNonce s' = Nonce rec))"
proof (cases "sessions c i")
  case None
  with assms show ?thesis by (auto simp: handleSubmit_cases)
next
  case (Some s)
  show ?thesis
  proof (cases "job_nonce s (sub_JobID p) c")
    case None
    with Some assms show ?thesis by (auto simp: handleSubmit_cases)
  next
    case n: (Some n)
    have src: "n = LatestServerNonce s \<or> (\<exists>rec. history c (sub_JobID p) = Some rec \<and> n = Nonce rec)"
      using n by (auto simp: job_nonce_def split: if_splits)
    have "\<exists>s1. c' = put_session i s1 c \<and> LatestServerNonce s1 = n"
      using assms(1) Some n
      by (auto simp: handleSubmit_cases check_submit_verdict Let_def split: if_splits option.splits outcome.splits)
    with Some src assms(2) show ?thesis by (auto simp: server_simps split: if_splits)
  qed
qed

text \<open>
  C30: a submission that names a job of the history other than the session's latest one
  replaces the server nonce of the latest job in the session, even when it is rejected:
  from then on submissions for the latest job are checked against the nonce of the old
  one, until the next broadcast.
\<close>

theorem old_job_submit_displaces_nonce:
  assumes "sessions c i = Some s" and "sub_JobID p \<noteq> LatestJobID s" and "history c (sub_JobID p) = Some rec"
    and "handleSubmit i p tsince now c = Ret (r, c')"
  shows "\<exists>s'. sessions c' i = Some s' \<and> LatestJobID s' = LatestJobID s
    \<and> job_nonce s' (LatestJobID s) c' = Some (Nonce rec)"
proof -
  have n: "job_nonce s (sub_JobID p) c = Some (Nonce rec)" using assms(2,3) by (simp add: job_nonce_def)
  let ?s = "s\<lparr>LatestServerNonce := Nonce rec\<rparr>"
  from assms(1,4) n consider "c' = put_session i ?s c" | "check_submit i p now ?s c = Ret (r, c')"
    by (auto simp: handleSubmit_cases split: if_splits)
  then show ?thesis
  proof cases
    case 1
    then show ?thesis by (simp add: server_simps job_nonce_def)
  next
    case 2
    then show ?thesis
      by (auto simp: check_submit_verdict server_simps job_nonce_def accepted_session_def Let_def
          split: option.splits outcome.splits if_splits dest!: publish_event_Ret)
  qed
qed

text \<open>
  A session that has seen no broadcast accepts a submission for job 0 although no such
  job exists: its latest job is the zero value, and the digest of the client nonce alone
  passes.
\<close>

theorem fresh_session_accepts_job_zero:
  "verdict (sessions (RegisterSession i u c) i)
     \<lparr>sub_JobID = 0, sub_ClientNonce = n, sub_Result = submit_hash [] n\<rparr> tsince now (RegisterSession i u c) = None"
  by (simp add: verdict_def RegisterSession_def NewSession_def job_nonce_def job_expired_def too_soon_def nonces_of_def)

text \<open>
  C6: the server answers a submit request exactly once, with the identifier of the request:
  success when the decision accepts, otherwise the text of the failed check.
\<close>

theorem submit_answered_once:
  assumes "Decode_Request payload = (req, None)" and "req_ID req = Some k" and "req_Method req = ''submit''"
    and "Decode_SubmitParams (raw_params req) = (p, None)"
    and "handleSubmit (ag_ID ag) p tsince now c = Ret (r, c1)"
  shows "Receive wording ag payload tsince now c = agent_push ag
    (Encode_Response \<lparr>resp_ID = k, resp_Result = (verdict (sessions c (ag_ID ag)) p tsince now c = None),
       resp_Error = verdict (sessions c (ag_ID ag)) p tsince now c\<rparr>) c1"
proof (cases "verdict (sessions c (ag_ID ag)) p tsince now c")
  case None
  with handleSubmit_no_error [OF None assms(5)] have "r = None" by simp
  with assms None show ?thesis by (simp add: Receive_def)
next
  case (Some msg)
  with handleSubmit_rejects [OF Some] assms(5) have "r = Some (ErrorMsg msg)" by auto
  with assms Some show ?thesis by (simp add: Receive_def respondError_def)
qed

text \<open>
  Messages that are not decodable, carry no identifier or are not submissions change
  nothing and are not answered; a submission whose parameters do not decode is answered
  \<open>Invalid result\<close> and changes nothing else.
\<close>

lemma other_messages_ignored:
  "case Decode_Request payload of (req, err) \<Rightarrow>
     if err \<noteq> None \<or> req_ID req = None \<or> req_Method req \<noteq> ''submit''
     then Receive wording ag payload tsince now c = Ret c
     else snd (Decode_SubmitParams (raw_params req)) \<noteq> None \<longrightarrow>
       Receive wording ag payload tsince now c = respondError ag (the (req_ID req)) ''Invalid result'' c"
  by (auto simp: Receive_def split: prod.splits option.splits)

end
