(* ===== verification/Tcp_Server.thy ===== *)
theory Tcp_Server
  imports Acceptor Listener
begin

text \<open>
  \<open>tcp/server.go\<close>: the table of channels, pushing to one of them, shutting all of them
  down, and what the goroutine of a connection does: handshake, registration of the
  channel, serving, removal. The server is the coordinator's pusher, so its state is the
  coordinator's \<open>srv_obj\<close>.
\<close>

subsection \<open>The server object\<close>

record ServerOptions =
  so_loginwait :: duration
  so_readwait :: duration
  so_writewait :: duration

record TcpServer =
  ts_listen :: string
  ts_chans :: ChannelsImpl
  ts_has_acceptor :: bool
  ts_has_listener :: bool
  ts_has_state :: bool
  ts_once :: bool
  ts_options :: ServerOptions
  ts_quit :: Event

definition NewServer :: "string \<Rightarrow> TcpServer" where
  "NewServer listen = \<lparr>ts_listen = listen, ts_chans = NewChannels 100, ts_has_acceptor = False, ts_has_listener = False,
     ts_has_state = False, ts_once = False,
     ts_options = \<lparr>so_loginwait = DefaultLoginWait, so_readwait = DefaultReadWait, so_writewait = Second * 10\<rparr>,
     ts_quit = NewEvent\<rparr>"

definition SetAcceptor :: "TcpServer \<Rightarrow> TcpServer" where "SetAcceptor s = s\<lparr>ts_has_acceptor := True\<rparr>"
definition SetMessageListener :: "TcpServer \<Rightarrow> TcpServer" where "SetMessageListener s = s\<lparr>ts_has_listener := True\<rparr>"
definition SetStateListener :: "TcpServer \<Rightarrow> TcpServer" where "SetStateListener s = s\<lparr>ts_has_state := True\<rparr>"

definition srv_SetReadWait :: "duration \<Rightarrow> TcpServer \<Rightarrow> TcpServer" where
  "srv_SetReadWait d s = s\<lparr>ts_options := (ts_options s)\<lparr>so_readwait := d\<rparr>\<rparr>"

definition SetChannelMap :: "ChannelsImpl \<Rightarrow> TcpServer \<Rightarrow> TcpServer" where
  "SetChannelMap m s = s\<lparr>ts_chans := m\<rparr>"

definition tcp_Push :: "string \<Rightarrow> bytes \<Rightarrow> TcpServer \<Rightarrow> (error option \<times> TcpServer) outcome" where
  "tcp_Push i dat s =
     (case chans_Get i (ts_chans s) of
        None \<Rightarrow> Ret (Some (ErrorMsg ''channel no found''), s)
      | Some ch \<Rightarrow>
          (case Push dat ch of
             Ret (e, ch') \<Rightarrow> Ret (e, s\<lparr>ts_chans := (ts_chans s)(i \<mapsto> ch')\<rparr>)
           | Block \<Rightarrow> Block
           | Panic \<Rightarrow> Panic))"

definition tcp_pusher :: "TcpServer ServerPusher" where
  "tcp_pusher = \<lparr>sp_Push = tcp_Push\<rparr>"

text \<open>
  \<open>Shutdown\<close>: close the channels one after the other; \<open>ctx_done k\<close> says whether the context
  is done after the \<open>k\<close>-th of them. The body runs once.
\<close>

fun close_channels :: "(nat \<Rightarrow> bool) \<Rightarrow> nat \<Rightarrow> ChannelImpl list \<Rightarrow> TcpServer \<Rightarrow> TcpServer outcome" where
  "close_channels ctx_done k [] s = Ret s"
| "close_channels ctx_done k (ch # chs) s =
     (case Close ch of
        Ret ch' \<Rightarrow>
          (let s' = s\<lparr>ts_chans := (ts_chans s)(ch_id ch \<mapsto> ch')\<rparr>
           in if ctx_done k then Ret s' else close_channels ctx_done (Suc k) chs s')
      | Block \<Rightarrow> Block
      | Panic \<Rightarrow> Panic)"

definition tcp_Shutdown :: "(nat \<Rightarrow> bool) \<Rightarrow> string list \<Rightarrow> TcpServer \<Rightarrow> (error option \<times> TcpServer) outcome" where
  "tcp_Shutdown ctx_done order s =
     (case once_do (ts_once s)
         (\<lambda>s. close_channels ctx_done 0 (chans_All order (ts_chans s)) (s\<lparr>ts_once := True\<rparr>)) s of
        Ret s' \<Rightarrow> Ret (None, s')
      | Block \<Rightarrow> Block
      | Panic \<Rightarrow> Panic)"

subsection \<open>Serving connections\<close>

text \<open>
  \<open>Start\<close> before its loop: without a state listener it refuses, without an acceptor it takes
  the default one; \<open>lst\<close> is the result of \<open>net.Listen\<close>.
\<close>

definition start_checks :: "error option \<Rightarrow> TcpServer \<Rightarrow> error option \<times> TcpServer" where
  "start_checks lst s =
     (if \<not> ts_has_state s then (Some (ErrorMsg ''StateListener is nil''), s)
      else (lst, if ts_has_acceptor s then s else s\<lparr>ts_has_acceptor := True\<rparr>))"

text \<open>
  The loop on one result of \<open>lst.Accept()\<close>. On an error the code calls \<open>Close\<close> on the
  connection it did not get, a nil interface. Otherwise the goroutine is started and the
  loop ends only when \<open>quit\<close> has fired.
\<close>

datatype accepted = Serve conn | Exited error conn

definition on_accept :: "error + conn \<Rightarrow> TcpServer \<Rightarrow> accepted outcome" where
  "on_accept r s =
     (case r of
        Inl err \<Rightarrow> Panic
      | Inr rawconn \<Rightarrow>
          if done_ready (ts_quit s) then Ret (Exited (ErrorMsg ''listen exited'') rawconn) else Ret (Serve rawconn))"

text \<open>
  \<open>Start\<close> on the results of \<open>lst.Accept()\<close> in turn: the connections for which a goroutine was
  started, and how the call ends; with no further result it waits in \<open>Accept\<close>.
\<close>

fun accept_loop :: "(error + conn) list \<Rightarrow> TcpServer \<Rightarrow> conn list \<times> error option outcome" where
  "accept_loop [] s = ([], Block)"
| "accept_loop (r # rs) s =
     (case on_accept r s of
        Ret (Serve cn) \<Rightarrow> (case accept_loop rs s of (cns, res) \<Rightarrow> (cn # cns, res))
      | Ret (Exited err cn) \<Rightarrow> ([cn], Ret (Some err))
      | Block \<Rightarrow> ([], Block)
      | Panic \<Rightarrow> ([], Panic))"

definition tcp_Start :: "error option \<Rightarrow> (error + conn) list \<Rightarrow> TcpServer \<Rightarrow> TcpServer \<times> conn list \<times> error option outcome" where
  "tcp_Start lst rs s =
     (case start_checks lst s of
        (Some err, s') \<Rightarrow> (s', [], Ret (Some err))
      | (None, s') \<Rightarrow> (s', accept_loop rs s'))"

text \<open>
  The goroutine up to the read loop. The result is the identifier under which the channel
  was added, or the connection that was refused and closed.
\<close>

definition refuse :: "string \<Rightarrow> conn \<Rightarrow> conn" where
  "refuse msg c = snd (conn_Close (snd (conn_WriteFrame OpClose (bytes_of msg) c)))"

definition open_channel :: "(error \<Rightarrow> string) \<Rightarrow> go_time \<Rightarrow> error + bytes \<Rightarrow> conn \<Rightarrow> (TcpServer, 's, 'q) Coordinator
    \<Rightarrow> (conn + string) \<times> (TcpServer, 's, 'q) Coordinator" where
  "open_channel wording now rnd rawconn c =
     (case Accept now (so_loginwait (ts_options (srv_obj c))) rnd rawconn c of
        (Inl err, cn, c') \<Rightarrow> (Inl (refuse (error_text wording err) cn), c')
      | (Inr i, cn, c') \<Rightarrow>
          if chans_Get i (ts_chans (srv_obj c')) \<noteq> None
          then (Inl (refuse ''channelId is repeated'' cn), c')
          else
            let s = srv_obj c';
                ch = SetWriteWait (so_writewait (ts_options s)) (SetReadWait (so_readwait (ts_options s)) (NewChannel i cn))
            in (Inr i, c'\<lparr>srv_obj := s\<lparr>ts_chans := chans_Add ch (ts_chans s)\<rparr>\<rparr>))"

text \<open>The agent of a channel is the channel itself; and what happens after its read loop.\<close>

definition channel_agent :: "string \<Rightarrow> TcpServer Agent" where
  "channel_agent i = \<lparr>ag_ID = i, ag_Push = (\<lambda>dat s. tcp_Push i dat s)\<rparr>"

definition close_channel :: "ChannelImpl \<Rightarrow> (TcpServer, 's, 'q) Coordinator \<Rightarrow> (ChannelImpl \<times> (TcpServer, 's, 'q) Coordinator) outcome" where
  "close_channel ch c =
     (let c1 = c\<lparr>srv_obj := (srv_obj c)\<lparr>ts_chans := chans_Remove (ch_id ch) (ts_chans (srv_obj c))\<rparr>\<rparr>;
          c2 = snd (Disconnect (ch_id ch) c1)
      in case Close ch of Ret ch' \<Rightarrow> Ret (ch', c2) | Block \<Rightarrow> Block | Panic \<Rightarrow> Panic)"

subsection \<open>The pusher contract\<close>

definition tcp_inbox :: "string \<Rightarrow> TcpServer \<Rightarrow> bytes list" where
  "tcp_inbox i s = (case ts_chans s i of None \<Rightarrow> [] | Some ch \<Rightarrow> cbuf (writechan ch))"

definition tcp_live :: "string \<Rightarrow> TcpServer \<Rightarrow> bool" where
  "tcp_live i s \<longleftrightarrow> (\<exists>ch. ts_chans s i = Some ch \<and> \<not> HasFired (ch_closed ch))"

lemma Push_cases:
  "Push dat ch = Ret (r, ch') \<Longrightarrow>
     HasFired (ch_closed ch) \<and> r \<noteq> None \<and> ch' = ch
     \<or> \<not> HasFired (ch_closed ch) \<and> r = None \<and> ch' = ch\<lparr>writechan := (writechan ch)\<lparr>cbuf := cbuf (writechan ch) @ [dat]\<rparr>\<rparr>"
  by (auto simp: Push_def chan_send_def split: if_splits)

lemma tcp_Push_cases:
  assumes "tcp_Push i dat s = Ret (r, s')"
  shows "\<not> tcp_live i s \<and> r \<noteq> None \<and> s' = s
    \<or> (\<exists>ch. ts_chans s i = Some ch \<and> \<not> HasFired (ch_closed ch) \<and> r = None \<and>
        s' = s\<lparr>ts_chans := (ts_chans s)(i \<mapsto> ch\<lparr>writechan := (writechan ch)\<lparr>cbuf := cbuf (writechan ch) @ [dat]\<rparr>\<rparr>)\<rparr>)"
proof (cases "ts_chans s i")
  case None
  with assms show ?thesis by (auto simp: tcp_Push_def chans_Get_def tcp_live_def)
next
  case (Some ch)
  with assms obtain ch' where "Push dat ch = Ret (r, ch')" "s' = s\<lparr>ts_chans := (ts_chans s)(i \<mapsto> ch')\<rparr>"
    by (auto simp: tcp_Push_def chans_Get_def split: outcome.splits)
  with Some Push_cases [of dat ch r ch'] show ?thesis by (auto simp: tcp_live_def fun_upd_idem)
qed

interpretation tcpp: pusher tcp_pusher tcp_inbox tcp_live
proof (unfold_locales, goal_cases)
  case (1 i p dat r p' k)
  with tcp_Push_cases [of i dat p r p'] show ?case
    by (auto simp: tcp_pusher_def tcp_live_def tcp_inbox_def)
next
  case (2 i p dat r p')
  with tcp_Push_cases [of i dat p r p'] show ?case
    by (auto simp: tcp_pusher_def tcp_live_def)
next
  case (3 i dat p r p' k)
  with tcp_Push_cases [of i dat p r p'] show ?case
    by (auto simp: tcp_pusher_def tcp_live_def split: if_splits)
qed

subsection \<open>Properties\<close>

text \<open>
  C9: one run of the ticker gives every session the new job, and puts exactly one message,
  the new job, on the queue of every open channel that has a session, whatever order the
  sessions are visited in; other channels get nothing. The job number is the next one and
  the history maps it to the nonce that was sent.
\<close>

theorem broadcast_reaches_all:
  assumes "coord_run t c = Ret c'" and "srv c = tcp_pusher"
    and "distinct (tk_order t)" and "set (tk_order t) = dom (sessions c)" and "filed_sessions (sessions c)"
  shows "(\<forall>i. sessions c' i = map_option (\<lambda>s. s\<lparr>LatestJobID := jobID c', LatestServerNonce := serverNonce c'\<rparr>) (sessions c i))
    \<and> (\<forall>k. tcp_inbox k (srv_obj c') = tcp_inbox k (srv_obj c)
          @ (if k \<in> dom (sessions c) \<and> tcp_live k (srv_obj c) then [job_data (jobID c') (serverNonce c')] else []))
    \<and> jobID c' = int64 (jobID c + 1) \<and> serverNonce c' = EncodeToString (tk_buf t)
    \<and> history c' = (history c)(jobID c' \<mapsto> \<lparr>Nonce = serverNonce c', CreatedAt = tk_now t\<rparr>)"
proof -
  from coord_run_Ret [OF assms(1,3-5)] have
    p: "push_each tcp_pusher (job_data (jobID c') (serverNonce c')) (tk_order t) (srv_obj c) = Ret (srv_obj c')"
    and r: "jobID c' = int64 (jobID c + 1)" "serverNonce c' = EncodeToString (tk_buf t)"
      "sessions c' = (\<lambda>i. map_option (on_job (jobID c') (serverNonce c')) (sessions c i))"
      "history c' = (history c)(jobID c' \<mapsto> \<lparr>Nonce = serverNonce c', CreatedAt = tk_now t\<rparr>)"
    using assms(2) by auto
  have "\<forall>k. tcp_inbox k (srv_obj c') = tcp_inbox k (srv_obj c)
      @ (if k \<in> dom (sessions c) \<and> tcp_live k (srv_obj c) then [job_data (jobID c') (serverNonce c')] else [])"
    using tcpp.push_each_inbox [OF p assms(3)] assms(4) by simp
  moreover have "\<forall>i. sessions c' i = map_option (\<lambda>s. s\<lparr>LatestJobID := jobID c', LatestServerNonce := serverNonce c'\<rparr>) (sessions c i)"
    unfolding r(3) by (simp add: on_job_def [abs_def])
  ultimately show ?thesis using r(1,2,4) by blast
qed

lemma close_channels_quit: "close_channels d k chs s = Ret s' \<Longrightarrow> ts_quit s' = ts_quit s \<and> ts_has_state s' = ts_has_state s"
  by (induction chs arbitrary: k s) (auto simp: Let_def split: outcome.splits if_splits)

lemma shutdown_frame:
  assumes "tcp_Shutdown ctx_done order s = Ret (r, s')"
  shows shutdown_state: "ts_has_state s' = ts_has_state s" and shutdown_quit: "ts_quit s' = ts_quit s"
  using assms by (auto simp: tcp_Shutdown_def once_do_def dest!: close_channels_quit split: outcome.splits if_splits)

lemma accept_loop_serves:
  assumes "ts_quit s = NewEvent"
  shows "accept_loop (map Inr cns @ rs) s = (case accept_loop rs s of (cns', res) \<Rightarrow> (cns @ cns', res))"
proof -
  have "on_accept (Inr cn) s = Ret (Serve cn)" for cn
    using assms by (simp add: on_accept_def done_ready_iff)
  then show ?thesis by (induction cns) (auto split: prod.splits)
qed

text \<open>
  C36: the accept loop serves every connection it gets until the first error of \<open>Accept\<close>, and
  there it panics, because the code closes the nil connection that came with the error. It
  never returns: without an error it waits for ever, also after \<open>Shutdown\<close>, which does not fire
  \<open>quit\<close>. Only a missing state listener or a failure to listen makes \<open>Start\<close> return.
\<close>

theorem start_serves_until_error:
  assumes "tcp_Shutdown ctx_done order (NewServer a) = Ret (r, s0)" and "s = NewServer a \<or> s = s0"
  shows "snd (tcp_Start None (map Inr cns) (SetStateListener s)) = (cns, Block)
    \<and> snd (tcp_Start None (map Inr cns @ Inl err # rs) (SetStateListener s)) = (cns, Panic)
    \<and> snd (tcp_Start (Some err) rs (SetStateListener s)) = ([], Ret (Some err))
    \<and> snd (tcp_Start lst rs s) = ([], Ret (Some (ErrorMsg ''StateListener is nil'')))"
proof -
  have q: "ts_quit s = NewEvent" using shutdown_quit [OF assms(1)] assms(2) by (auto simp: NewServer_def)
  have "\<not> ts_has_state s" using shutdown_state [OF assms(1)] assms(2) by (auto simp: NewServer_def)
  then have n: "snd (tcp_Start lst rs s) = ([], Ret (Some (ErrorMsg ''StateListener is nil'')))"
    by (simp add: tcp_Start_def start_checks_def)
  obtain s' where s': "start_checks None (SetStateListener s) = (None, s')" "ts_quit s' = NewEvent"
    using q by (simp add: start_checks_def SetStateListener_def)
  have "accept_loop (map Inr cns) s' = (cns, Block)" "accept_loop (map Inr cns @ Inl err # rs) s' = (cns, Panic)"
    using accept_loop_serves [OF s'(2), of cns "[]"] accept_loop_serves [OF s'(2), of cns "Inl err # rs"]
    by (simp_all add: on_accept_def)
  with n s'(1) show ?thesis by (simp add: tcp_Start_def) (simp add: start_checks_def SetStateListener_def)
qed

theorem start_serves_until_error_witness:
  "snd (tcp_Start None [Inr open_conn, Inl EOF] (SetStateListener (NewServer ''a''))) = ([open_conn], Panic)"
proof -
  have "tcp_Shutdown (\<lambda>_. False) [] (NewServer ''a'') = Ret (None, (NewServer ''a'')\<lparr>ts_once := True\<rparr>)"
    by (simp add: tcp_Shutdown_def once_do_def chans_All_def NewServer_def map_filter_simps)
  from start_serves_until_error [OF this, of "NewServer ''a''" "[open_conn]" EOF "[]"] show ?thesis by simp
qed

text \<open>The table of a server: every channel well formed and filed under its identifier.\<close>

definition ts_inv :: "TcpServer \<Rightarrow> bool" where
  "ts_inv s \<longleftrightarrow> (\<forall>i ch. ts_chans s i = Some ch \<longrightarrow> ch_id ch = i \<and> ch_inv ch)"

definition shut :: "ChannelImpl \<Rightarrow> ChannelImpl" where
  "shut ch = (case Close ch of Ret ch' \<Rightarrow> ch' | _ \<Rightarrow> ch)"

lemma Close_shut: "ch_inv ch \<Longrightarrow> Close ch = Ret (shut ch) \<and> ch_inv (shut ch) \<and> HasFired (ch_closed (shut ch))
    \<and> ch_id (shut ch) = ch_id ch \<and> ch_conn (shut ch) = ch_conn ch \<and> cbuf (writechan (shut ch)) = cbuf (writechan ch)"
  using Close_inv [of ch] by (auto simp: shut_def ch_inv_def chan_ok_def)

definition shut_into :: "ChannelImpl \<Rightarrow> ChannelsImpl \<Rightarrow> ChannelsImpl" where
  "shut_into ch m = m(ch_id ch \<mapsto> shut ch)"

lemma shut_into_simps [simp]:
  "shut_into ch m (ch_id ch) = Some (shut ch)" "i \<noteq> ch_id ch \<Longrightarrow> shut_into ch m i = m i"
  by (simp_all add: shut_into_def)

lemma close_channels_all:
  assumes "\<forall>ch \<in> set chs. ch_inv ch"
  shows "close_channels (\<lambda>_. False) k chs s
    = Ret (s\<lparr>ts_chans := fold shut_into chs (ts_chans s)\<rparr>)"
  using assms by (induction chs arbitrary: k s) (auto simp: Close_shut Let_def shut_into_def [symmetric])

lemma fold_shut_other: "i \<notin> ch_id ` set chs \<Longrightarrow> fold shut_into chs m i = m i"
  by (induction chs arbitrary: m) auto

lemma fold_shut_in:
  "distinct (map ch_id chs) \<Longrightarrow> ch \<in> set chs \<Longrightarrow> fold shut_into chs m (ch_id ch) = Some (shut ch)"
proof (induction chs arbitrary: m)
  case (Cons a chs)
  show ?case
  proof (cases "ch = a")
    case True
    with Cons.prems(1) fold_shut_other [of "ch_id a" chs] show ?thesis by simp
  next
    case False
    with Cons show ?thesis by simp
  qed
qed simp

lemma shutdown_effect:
  assumes "ts_inv s" and "\<not> ts_once s" and "distinct order" and "set order = dom (ts_chans s)"
  shows "\<exists>s'. tcp_Shutdown (\<lambda>_. False) order s = Ret (None, s')
    \<and> tcp_Shutdown ctx_done order' s' = Ret (None, s')
    \<and> (\<forall>i. rel_option (\<lambda>ch ch'. HasFired (ch_closed ch') \<and> ch_conn ch' = ch_conn ch
          \<and> cbuf (writechan ch') = cbuf (writechan ch)) (ts_chans s i) (ts_chans s' i))"
proof -
  let ?chs = "chans_All order (ts_chans s)"
  have f: "chans.filed (ts_chans s)" using assms(1) by (simp add: ts_inv_def chans.filed_def chans_Get_def)
  have a: "distinct (map ch_id ?chs)" "set ?chs = {ch. ts_chans s (ch_id ch) = Some ch}"
    using chans.all_once [OF f assms(3,4)] by (simp_all add: chans_Get_def)
  let ?m = "fold shut_into ?chs (ts_chans s)"
  have "\<forall>ch \<in> set ?chs. ch_inv ch" using a(2) assms(1) by (auto simp: ts_inv_def)
  then have r: "tcp_Shutdown (\<lambda>_. False) order s = Ret (None, s\<lparr>ts_once := True, ts_chans := ?m\<rparr>)"
    using assms(2) by (simp add: tcp_Shutdown_def once_do_def close_channels_all)
  have m: "rel_option (\<lambda>ch ch'. HasFired (ch_closed ch') \<and> ch_conn ch' = ch_conn ch
      \<and> cbuf (writechan ch') = cbuf (writechan ch)) (ts_chans s i) (?m i)" for i
  proof (cases "ts_chans s i")
    case None
    then have "i \<notin> ch_id ` set ?chs" unfolding a(2) by auto
    with None show ?thesis by (simp add: fold_shut_other)
  next
    case (Some ch)
    then have "ch_id ch = i" "ch_inv ch" using assms(1) by (auto simp: ts_inv_def)
    moreover from this Some have "ch \<in> set ?chs" unfolding a(2) by simp
    ultimately show ?thesis using fold_shut_in [OF a(1), of ch] Some Close_shut [of ch] by simp
  qed
  show ?thesis
    by (rule exI [of _ "s\<lparr>ts_once := True, ts_chans := ?m\<rparr>"])
      (use r m in \<open>auto simp: tcp_Shutdown_def [of ctx_done] once_do_def\<close>)
qed

text \<open>
  \<open>Shutdown\<close> closes every channel of the server when the context does not end first: no
  panic, every later push is refused, pending payloads stay queued; a second call does
  nothing. The connections under the channels stay open.
\<close>

theorem shutdown_closes_all:
  assumes "ts_inv s" and "\<not> ts_once s" and "distinct order" and "set order = dom (ts_chans s)"
  shows "\<exists>s'. tcp_Shutdown (\<lambda>_. False) order s = Ret (None, s')
    \<and> tcp_Shutdown ctx_done order' s' = Ret (None, s')
    \<and> (\<forall>i. rel_option (\<lambda>ch ch'. HasFired (ch_closed ch') \<and> ch_conn ch' = ch_conn ch
          \<and> cbuf (writechan ch') = cbuf (writechan ch)) (ts_chans s i) (ts_chans s' i))"
  using assms by (rule shutdown_effect)

theorem shutdown_closes_all_witness:
  "\<exists>s'. tcp_Shutdown (\<lambda>_. False) [''a''] ((NewServer ''l'')\<lparr>ts_chans := [''a'' \<mapsto> NewChannel ''a'' open_conn]\<rparr>) = Ret (None, s')
    \<and> (\<exists>ch. ts_chans s' ''a'' = Some ch \<and> HasFired (ch_closed ch) \<and> \<not> c_closed (ch_conn ch))"
proof -
  let ?s = "(NewServer ''l'')\<lparr>ts_chans := [''a'' \<mapsto> NewChannel ''a'' open_conn]\<rparr>"
  have "ts_inv ?s" by (simp add: ts_inv_def) (simp add: NewChannel_def)
  from shutdown_closes_all [OF this, of "[''a'']" "\<lambda>_. False" "[]"] obtain s' where
    "tcp_Shutdown (\<lambda>_. False) [''a''] ?s = Ret (None, s')"
    and m: "\<forall>i. rel_option (\<lambda>ch ch'. HasFired (ch_closed ch') \<and> ch_conn ch' = ch_conn ch
      \<and> cbuf (writechan ch') = cbuf (writechan ch)) (ts_chans ?s i) (ts_chans s' i)"
    by (auto simp: NewServer_def)
  moreover have "\<not> c_closed (ch_conn (NewChannel ''a'' open_conn))" by (simp add: NewChannel_def open_conn_def)
  ultimately show ?thesis using spec [OF m, of "''a''"] by (cases "ts_chans s' ''a''") auto
qed

subsection \<open>The table stays well formed\<close>

lemma ts_inv_put: "ts_inv s \<Longrightarrow> ch_inv ch \<Longrightarrow> ts_inv (s\<lparr>ts_chans := (ts_chans s)(ch_id ch \<mapsto> ch)\<rparr>)"
  by (simp add: ts_inv_def)

lemma close_channels_inv:
  "\<forall>ch \<in> set chs. ch_inv ch \<Longrightarrow> ts_inv s \<Longrightarrow> \<exists>s'. close_channels ctx_done k chs s = Ret s' \<and> ts_inv s'"
proof (induction chs arbitrary: k s)
  case (Cons ch chs)
  have c: "Close ch = Ret (shut ch)" "ch_inv (shut ch)" "ch_id (shut ch) = ch_id ch"
    using Close_shut [of ch] Close_inv [of ch] Cons.prems(1) by auto
  then have "ts_inv (s\<lparr>ts_chans := (ts_chans s)(ch_id ch \<mapsto> shut ch)\<rparr>)"
    using ts_inv_put [OF Cons.prems(2) c(2)] by simp
  with c(1) Cons.IH [OF _ this] Cons.prems(1) show ?case by (auto simp: Let_def)
qed simp

lemma set_chans_All: "ch \<in> set (chans_All order m) \<Longrightarrow> \<exists>i. m i = Some ch"
  by (auto simp: chans_All_def List.map_filter_def)

lemma close_channels_once: "close_channels d k chs s = Ret s' \<Longrightarrow> ts_once s' = ts_once s"
  by (induction d k chs s rule: close_channels.induct) (auto simp: Let_def split: outcome.splits if_splits)

lemma shutdown_inv:
  assumes "ts_inv s"
  shows "\<exists>s'. tcp_Shutdown ctx_done order s = Ret (None, s') \<and> ts_inv s' \<and> ts_once s'"
proof -
  have "\<forall>ch \<in> set (chans_All order (ts_chans s)). ch_inv ch"
    using assms by (auto simp: ts_inv_def dest!: set_chans_All)
  from close_channels_inv [OF this, of "s\<lparr>ts_once := True\<rparr>" ctx_done 0] assms obtain s' where
    s': "close_channels ctx_done 0 (chans_All order (ts_chans s)) (s\<lparr>ts_once := True\<rparr>) = Ret s'" "ts_inv s'"
    by (auto simp: ts_inv_def)
  with assms close_channels_once [OF s'(1)] show ?thesis by (cases "ts_once s") (auto simp: tcp_Shutdown_def once_do_def)
qed


end
