(* ===== verification/Queue.thy ===== *)
theory Queue
  imports Types
begin

text \<open>
  \<open>mq/memory.go\<close>: the in-process queue of submit events, a buffered channel with a flag. It
  is interpreted as a \<open>fifo\<close>; publishing to a full queue blocks, publishing after \<open>Close\<close>
  is dropped without an error.
\<close>

record MemoryQueue =
  mq_ch :: "SubmitEvent gochan"
  mq_once :: bool
  mq_closed :: bool

definition NewMemoryQueue :: "nat \<Rightarrow> MemoryQueue" where
  "NewMemoryQueue sz = \<lparr>mq_ch = make_chan sz, mq_once = False, mq_closed = False\<rparr>"

definition mem_Publish :: "SubmitEvent \<Rightarrow> MemoryQueue \<Rightarrow> (error option \<times> MemoryQueue) outcome" where
  "mem_Publish evt q =
     (if mq_closed q then Ret (None, q)
      else case chan_send evt (mq_ch q) of
          Ret c \<Rightarrow> Ret (None, q\<lparr>mq_ch := c\<rparr>)
        | Block \<Rightarrow> Block
        | Panic \<Rightarrow> Panic)"

text \<open>\<open>Subscribe\<close> returns the channel; \<open>mem_Recv\<close> is a receive from it.\<close>

definition Subscribe :: "MemoryQueue \<Rightarrow> SubmitEvent gochan" where
  "Subscribe q = mq_ch q"

definition mem_Recv :: "MemoryQueue \<Rightarrow> (SubmitEvent option \<times> MemoryQueue) outcome" where
  "mem_Recv q =
     (case chan_recv (Subscribe q) of
        Ret (v, c) \<Rightarrow> Ret (v, q\<lparr>mq_ch := c\<rparr>)
      | Block \<Rightarrow> Block
      | Panic \<Rightarrow> Panic)"

definition mem_Close :: "MemoryQueue \<Rightarrow> (error option \<times> MemoryQueue) outcome" where
  "mem_Close q =
     (case once_do (mq_once q)
         (\<lambda>q. case chan_close (mq_ch q) of
             Ret c \<Rightarrow> Ret (q\<lparr>mq_ch := c, mq_closed := True, mq_once := True\<rparr>)
           | Block \<Rightarrow> Block | Panic \<Rightarrow> Panic) q of
        Ret q' \<Rightarrow> Ret (None, q')
      | Block \<Rightarrow> Block
      | Panic \<Rightarrow> Panic)"

definition memory_queue :: "MemoryQueue MessageQueue" where
  "memory_queue = \<lparr>Publish = mem_Publish, q_Recv = mem_Recv, q_Close = mem_Close\<rparr>"

lemma memory_queue_simps [simp]:
  "Publish memory_queue = mem_Publish" "q_Recv memory_queue = mem_Recv" "q_Close memory_queue = mem_Close"
  by (simp_all add: memory_queue_def)

definition mq_pending :: "MemoryQueue \<Rightarrow> SubmitEvent list" where
  "mq_pending q = cbuf (mq_ch q)"

definition mq_inv :: "MemoryQueue \<Rightarrow> bool" where
  "mq_inv q \<longleftrightarrow> cclosed (mq_ch q) = mq_closed q \<and> mq_once q = mq_closed q \<and> chan_ok (mq_ch q)"

lemma mq_inv_New [simp]: "mq_inv (NewMemoryQueue n)" "mq_pending (NewMemoryQueue n) = []" "\<not> mq_closed (NewMemoryQueue n)"
  by (simp_all add: mq_inv_def NewMemoryQueue_def chan_ok_steps mq_pending_def) (simp_all add: make_chan_def)

lemma mem_Publish_cases:
  assumes "mq_inv q"
  shows "mem_Publish e q =
    (if mq_closed q then Ret (None, q)
     else if length (mq_pending q) < ccap (mq_ch q)
     then Ret (None, q\<lparr>mq_ch := (mq_ch q)\<lparr>cbuf := mq_pending q @ [e]\<rparr>\<rparr>) else Block)"
  using assms by (simp add: mem_Publish_def mq_inv_def chan_send_def mq_pending_def)

lemma mq_inv_steps:
  "mq_inv q \<Longrightarrow> mem_Publish e q = Ret (r, q') \<Longrightarrow> mq_inv q'"
  "mq_inv q \<Longrightarrow> mem_Recv q = Ret (v, q') \<Longrightarrow> mq_inv q'"
  "mq_inv q \<Longrightarrow> mem_Close q = Ret (r, q') \<Longrightarrow> mq_inv q'"
    apply (auto simp: mem_Publish_cases mq_inv_def chan_ok_def mq_pending_def split: if_splits)[1]
   apply (cases v; auto simp: mem_Recv_def Subscribe_def chan_recv_def mq_inv_def chan_ok_def split: outcome.splits list.splits if_splits)
  apply (auto simp: mem_Close_def once_do_def chan_close_def mq_inv_def chan_ok_def split: if_splits)
  done

text \<open>A put is an accepted publication.\<close>

definition mq_put :: "SubmitEvent \<Rightarrow> MemoryQueue \<Rightarrow> MemoryQueue outcome" where
  "mq_put e q = (case mem_Publish e q of Ret (_, q') \<Rightarrow> Ret q' | Block \<Rightarrow> Block | Panic \<Rightarrow> Panic)"

interpretation memq: fifo mq_put mem_Recv mq_pending "\<lambda>q. \<not> mq_closed q"
proof
  fix v s s' assume "mq_put v s = Ret s'" "\<not> mq_closed s"
  then show "mq_pending s' = mq_pending s @ [v] \<and> \<not> mq_closed s'"
    by (auto simp: mq_put_def mem_Publish_def mq_pending_def chan_send_def split: outcome.splits if_splits)
qed (auto simp: mem_Recv_def Subscribe_def mq_pending_def chan_recv_def neq_Nil_conv split: outcome.splits list.splits if_splits)

text \<open>
  The queue is first in, first out, whatever the interleaving of publications and
  receives while it is open: the events received followed by those still pending are exactly
  the events published, and the capacity is never exceeded.
\<close>

theorem memory_queue_fifo:
  assumes "queue_run mq_put mem_Recv ops (NewMemoryQueue n) = Some (published, received, q)"
  shows "published = received @ mq_pending q"
  using memq.queue_run_fifo [OF assms] by simp

theorem memory_queue_fifo_witness:
  "[\<lparr>ev_Username = ''a'', ev_Time = zero_time\<rparr>, \<lparr>ev_Username = ''b'', ev_Time = zero_time\<rparr>]
    = [\<lparr>ev_Username = ''a'', ev_Time = zero_time\<rparr>] @ mq_pending \<lparr>mq_ch = \<lparr>cbuf = [\<lparr>ev_Username = ''b'', ev_Time = zero_time\<rparr>],
        ccap = 2, cclosed = False\<rparr>, mq_once = False, mq_closed = False\<rparr>"
  by (rule memory_queue_fifo [where n = 2 and ops = "[QPut \<lparr>ev_Username = ''a'', ev_Time = zero_time\<rparr>,
        QPut \<lparr>ev_Username = ''b'', ev_Time = zero_time\<rparr>, QGet]"])
    (simp add: mq_put_def mem_Publish_def mem_Recv_def Subscribe_def NewMemoryQueue_def make_chan_def
      chan_send_def chan_recv_def)

text \<open>
  On every reachable queue \<open>Publish\<close> neither panics nor reports an error: an open queue
  with room takes the event, an open full one blocks the publisher, a closed one drops the
  event silently; and \<open>Close\<close> may be called twice.
\<close>

theorem memory_publish_outcome:
  assumes "mq_inv q"
  shows "mem_Publish e q \<noteq> Panic
    \<and> (mem_Publish e q = Block \<longleftrightarrow> \<not> mq_closed q \<and> length (mq_pending q) = ccap (mq_ch q))
    \<and> (\<forall>r q'. mem_Publish e q = Ret (r, q') \<longrightarrow> r = None
          \<and> mq_pending q' = mq_pending q @ (if mq_closed q then [] else [e]))
    \<and> (\<exists>q'. mem_Close q = Ret (None, q') \<and> mem_Close q' = Ret (None, q') \<and> mq_pending q' = mq_pending q)"
proof -
  have "length (mq_pending q) \<le> ccap (mq_ch q)" using assms by (simp add: mq_inv_def chan_ok_def mq_pending_def)
  moreover have "\<exists>q'. mem_Close q = Ret (None, q') \<and> mem_Close q' = Ret (None, q') \<and> mq_pending q' = mq_pending q"
    using assms by (auto simp: mem_Close_def once_do_def chan_close_def mq_inv_def mq_pending_def)
  ultimately show ?thesis
    using mem_Publish_cases [OF assms, of e] by (auto simp: mq_pending_def)
qed

theorem memory_publish_outcome_witness:
  "mem_Publish \<lparr>ev_Username = ''a'', ev_Time = zero_time\<rparr> (NewMemoryQueue 0) = Block"
  using memory_publish_outcome [OF mq_inv_New(1), of "\<lparr>ev_Username = ''a'', ev_Time = zero_time\<rparr>" 0]
  by (simp add: NewMemoryQueue_def make_chan_def mq_pending_def)

end
