(* ===== verification/Store.thy ===== *)
theory Store
  imports Coordination
begin

text \<open>
  \<open>stats/memory.go\<close>: the in-memory statistics and state store. Nested Go maps are nested
  partial functions, a missing inner map reads as the zero value. The store interprets both
  contracts of theory \<open>Types\<close>.
\<close>

record user_state =
  us_latestJobID :: int
  us_latestNonce :: string
  us_lastSubmit :: go_time

record MemoryStore =
  data :: "string \<rightharpoonup> (go_time \<rightharpoonup> int)"
  jobHist :: "int \<rightharpoonup> JobRecord"
  latestJobID :: int
  latestNonce :: string
  userStates :: "string \<rightharpoonup> user_state"
  used :: "string \<rightharpoonup> (int \<rightharpoonup> string set)"

definition NewMemoryStore :: MemoryStore where
  "NewMemoryStore = \<lparr>data = Map.empty, jobHist = Map.empty, latestJobID = 0, latestNonce = [],
     userStates = Map.empty, used = Map.empty\<rparr>"

text \<open>\<open>m[k]\<close> with the zero value for a missing key.\<close>

definition map_get :: "'v \<Rightarrow> ('k \<rightharpoonup> 'v) \<Rightarrow> 'k \<Rightarrow> 'v" where
  "map_get zero m k = (case m k of Some v \<Rightarrow> v | None \<Rightarrow> zero)"

definition mem_Increment :: "string \<Rightarrow> go_time \<Rightarrow> MemoryStore \<Rightarrow> error option \<times> MemoryStore" where
  "mem_Increment username minute s =
     (let m = Truncate minute Minute;
          u = (case data s username of Some u \<Rightarrow> u | None \<Rightarrow> Map.empty)
      in (None, s\<lparr>data := (data s)(username \<mapsto> u(m \<mapsto> int64 (map_get 0 u m + 1)))\<rparr>))"

definition mem_Get :: "string \<Rightarrow> go_time \<Rightarrow> MemoryStore \<Rightarrow> error + int" where
  "mem_Get username minute s =
     (let m = Truncate minute Minute
      in case data s username of None \<Rightarrow> Inr 0 | Some u \<Rightarrow> Inr (map_get 0 u m))"

definition mem_store_Close :: "MemoryStore \<Rightarrow> error option \<times> MemoryStore" where
  "mem_store_Close s = (None, s)"

definition mem_SaveJob :: "int \<Rightarrow> string \<Rightarrow> go_time \<Rightarrow> MemoryStore \<Rightarrow> error option \<times> MemoryStore" where
  "mem_SaveJob j nonce createdAt s =
     (None, s\<lparr>latestJobID := j, latestNonce := nonce,
        jobHist := (jobHist s)(j \<mapsto> \<lparr>Nonce = nonce, CreatedAt = createdAt\<rparr>)\<rparr>)"

definition mem_LoadLatestJob :: "MemoryStore \<Rightarrow> error + int \<times> string \<times> go_time" where
  "mem_LoadLatestJob s =
     (let rec = map_get zero_JobRecord (jobHist s) (latestJobID s)
      in Inr (latestJobID s, Nonce rec, CreatedAt rec))"

definition mem_LoadJobHistory :: "go_time \<Rightarrow> duration \<Rightarrow> MemoryStore \<Rightarrow> error + (int \<rightharpoonup> JobRecord)" where
  "mem_LoadJobHistory now since s =
     (let cutoff = time_add now (int64 (- since))
      in Inr (\<lambda>i. case jobHist s i of
           None \<Rightarrow> None
         | Some rec \<Rightarrow> if since = 0 \<or> After (CreatedAt rec) cutoff then Some rec else None))"

definition mem_LoadUserState :: "string \<Rightarrow> MemoryStore \<Rightarrow> error + int \<times> string \<times> go_time" where
  "mem_LoadUserState username s =
     (let st = map_get \<lparr>us_latestJobID = 0, us_latestNonce = [], us_lastSubmit = zero_time\<rparr> (userStates s) username
      in Inr (us_latestJobID st, us_latestNonce st, us_lastSubmit st))"

definition mem_SaveUserState :: "string \<Rightarrow> int \<Rightarrow> string \<Rightarrow> go_time \<Rightarrow> MemoryStore \<Rightarrow> error option \<times> MemoryStore" where
  "mem_SaveUserState username j nonce lastSubmitAt s =
     (None, s\<lparr>userStates := (userStates s)(username \<mapsto>
        \<lparr>us_latestJobID = j, us_latestNonce = nonce, us_lastSubmit = lastSubmitAt\<rparr>)\<rparr>)"

definition mem_SaveUsedNonce :: "string \<Rightarrow> int \<Rightarrow> string \<Rightarrow> MemoryStore \<Rightarrow> error option \<times> MemoryStore" where
  "mem_SaveUsedNonce username j clientNonce s =
     (let u = map_get Map.empty (used s) username; m = map_get {} u j
      in (None, s\<lparr>used := (used s)(username \<mapsto> u(j \<mapsto> insert clientNonce m))\<rparr>))"

definition mem_HasUsedNonce :: "string \<Rightarrow> int \<Rightarrow> string \<Rightarrow> MemoryStore \<Rightarrow> error + bool" where
  "mem_HasUsedNonce username j clientNonce s =
     (let u = map_get Map.empty (used s) username; m = map_get {} u j in Inr (clientNonce \<in> m))"

definition memory_stats :: "MemoryStore StatsStore" where
  "memory_stats = \<lparr>Increment = mem_Increment, Get = mem_Get, store_Close = mem_store_Close\<rparr>"

definition memory_state :: "MemoryStore StateStore" where
  "memory_state = \<lparr>SaveJob = mem_SaveJob, LoadLatestJob = mem_LoadLatestJob, LoadJobHistory = mem_LoadJobHistory,
     LoadUserState = mem_LoadUserState, SaveUserState = mem_SaveUserState, SaveUsedNonce = mem_SaveUsedNonce,
     HasUsedNonce = mem_HasUsedNonce, state_Close = mem_store_Close\<rparr>"

lemma memory_ops [simp]:
  "Increment memory_stats = mem_Increment" "Get memory_stats = mem_Get" "store_Close memory_stats = mem_store_Close"
  "SaveJob memory_state = mem_SaveJob" "LoadLatestJob memory_state = mem_LoadLatestJob"
  "LoadJobHistory memory_state = mem_LoadJobHistory" "LoadUserState memory_state = mem_LoadUserState"
  "SaveUserState memory_state = mem_SaveUserState" "SaveUsedNonce memory_state = mem_SaveUsedNonce"
  "HasUsedNonce memory_state = mem_HasUsedNonce"
  by (simp_all add: memory_stats_def memory_state_def)

lemma map_get_upd [simp]: "map_get z (m(k \<mapsto> v)) k' = (if k' = k then v else map_get z m k')"
  by (simp add: map_get_def)

subsection \<open>The statistics contract\<close>

interpretation memst: stats_store memory_stats "\<lambda>t. Truncate t Minute" NewMemoryStore
proof
  fix u t s n u' t' assume "Get memory_stats u t s = Inr n"
  then have "map_get 0 (map_get Map.empty (data s) u) (Truncate t Minute) = n"
    by (auto simp: mem_Get_def map_get_def split: option.splits)
  then show "Get memory_stats u t (snd (Increment memory_stats u' t' s))
      = Inr (if u = u' \<and> Truncate t Minute = Truncate t' Minute then int64 (n + 1) else n)"
    by (auto simp: mem_Get_def mem_Increment_def Let_def map_get_def split: option.splits)
qed (simp_all add: mem_Get_def mem_Increment_def NewMemoryStore_def Let_def)

text \<open>
  After any sequence of \<open>Increment\<close> calls on a new store, \<open>Get\<close> returns the number of
  them made for that user in that minute (as a Go \<open>int\<close>). Minutes are whole minutes since
  the zero time; two times in different locations count separately even when they are the
  same instant, because the map key is the whole \<open>time.Time\<close>.
\<close>

theorem memory_counts_increments:
  "mem_Get u t (increments memory_stats es NewMemoryStore)
    = Inr (int64 (int (length (filter (\<lambda>e. ev_Username e = u
        \<and> wall (ev_Time e) div Minute = wall t div Minute \<and> loc (ev_Time e) = loc t) es))))"
  using memst.get_increments [of u t es] by (simp add: hits_def Truncate_eq_iff)

subsection \<open>The state contract\<close>

definition mem_user :: "string \<Rightarrow> MemoryStore \<Rightarrow> int \<times> string \<times> go_time" where
  "mem_user u s = projr (mem_LoadUserState u s)"

definition mem_nonces :: "MemoryStore \<Rightarrow> (string \<times> int \<times> string) set" where
  "mem_nonces s = {(u, j, n). mem_HasUsedNonce u j n s = Inr True}"

lemmas mem_state_defs = mem_SaveJob_def mem_SaveUserState_def mem_SaveUsedNonce_def mem_LoadUserState_def
  mem_LoadLatestJob_def mem_HasUsedNonce_def Let_def

interpretation memstate: state_store memory_state jobHist mem_user mem_nonces
proof
  fix now w s
  show "\<exists>h. LoadJobHistory memory_state now w s = Inr h \<and> h \<subseteq>\<^sub>m jobHist s"
    by (auto simp: mem_LoadJobHistory_def Let_def map_le_def split: option.splits if_splits)
next
  fix now s
  show "LoadJobHistory memory_state now 0 s = Inr (jobHist s)"
    by (auto simp: mem_LoadJobHistory_def Let_def fun_eq_iff split: option.splits)
next
  fix u j n s
  show "mem_nonces (snd (SaveUsedNonce memory_state u j n s)) = insert (u, j, n) (mem_nonces s)"
    by (auto simp: mem_nonces_def mem_state_defs split: if_splits)
qed (auto simp: mem_state_defs mem_user_def mem_nonces_def)

end
