(* ===== verification/App_Server.thy ===== *)
theory App_Server
  imports Tcp_Server Queue Store
begin

text \<open>
  \<open>app/server/server.go\<close>: the server assembled from its parts, the goroutine that counts
  accepted submissions, and the shutdown with its retries.
\<close>

subsection \<open>Operations\<close>

record ShutdownStatus =
  StartAt :: go_time
  EndAt :: go_time
  MQStopped :: bool
  MQPending :: int
  MQErrors :: int
  StoreClosed :: bool
  ServerClosed :: bool
  Duration :: duration

definition zero_status :: ShutdownStatus where
  "zero_status = \<lparr>StartAt = zero_time, EndAt = zero_time, MQStopped = False, MQPending = 0, MQErrors = 0,
     StoreClosed = False, ServerClosed = False, Duration = 0\<rparr>"

record ('s, 'q) AppServer =
  coord :: "(TcpServer, 's, 'q) Coordinator"
  stopConsume :: "unit gochan"
  status :: ShutdownStatus

definition NewAppServer :: "string \<Rightarrow> 's StatsStore \<Rightarrow> 's StateStore option \<Rightarrow> 's \<Rightarrow> 'q MessageQueue \<Rightarrow> 'q
    \<Rightarrow> duration \<Rightarrow> duration \<Rightarrow> duration \<Rightarrow> ('s, 'q) AppServer" where
  "NewAppServer addr st stt b m mo interval expire hw =
     (let s = SetStateListener (SetMessageListener (SetAcceptor (NewServer addr)));
          c = NewCoordinator tcp_pusher s st stt b m mo interval expire hw
      in \<lparr>coord = c, stopConsume = make_chan 0, status = zero_status\<rparr>)"

text \<open>
  One round of the consumer on a receive from the queue: \<open>True\<close> when the loop goes on. The
  other cases of its \<open>select\<close>, the end of the context and \<open>stopConsume\<close>, end the loop
  without touching anything.
\<close>

definition consume :: "('s, 'q) AppServer \<Rightarrow> (bool \<times> ('s, 'q) AppServer) outcome" where
  "consume a =
     (let c = coord a in
      case q_Recv (mq c) (mq_obj c) of
        Ret (None, q) \<Rightarrow> Ret (False, a\<lparr>coord := c\<lparr>mq_obj := q\<rparr>\<rparr>)
      | Ret (Some evt, q) \<Rightarrow>
          (case Increment (store c) (ev_Username evt) (ev_Time evt) (backend c) of
             (err, b) \<Rightarrow> Ret (True, a\<lparr>coord := c\<lparr>mq_obj := q, backend := b\<rparr>,
               status := (if err = None then status a
                          else (status a)\<lparr>MQErrors := int64 (MQErrors (status a) + 1)\<rparr>)\<rparr>))
      | Block \<Rightarrow> Block
      | Panic \<Rightarrow> Panic)"

text \<open>
  The counting goroutine of \<open>Start\<close> on what its \<open>select\<close> chooses in turn; \<open>False\<close> when the goroutine has
  returned, \<open>True\<close> when it is back at its \<open>select\<close>.
\<close>

datatype consumer_choice = CtxDone | StopConsume | Received

fun consumer :: "consumer_choice list \<Rightarrow> ('s, 'q) AppServer \<Rightarrow> (bool \<times> ('s, 'q) AppServer) outcome" where
  "consumer [] a = Ret (True, a)"
| "consumer (CtxDone # cs) a = Ret (False, a)"
| "consumer (StopConsume # cs) a = Ret (False, a)"
| "consumer (Received # cs) a =
     (case consume a of
        Ret (True, a') \<Rightarrow> consumer cs a'
      | Ret (False, a') \<Rightarrow> Ret (False, a')
      | Block \<Rightarrow> Block
      | Panic \<Rightarrow> Panic)"

text \<open>
  \<open>Start\<close> starts the counting goroutine and that of the broadcasts, then the server: the
  goroutines started, the connections served and how the call ends. \<open>lst\<close> and \<open>rs\<close> are the results of
  \<open>net.Listen\<close> and of \<open>Accept\<close>.
\<close>

datatype goroutine = Consumer | Broadcaster

definition app_Start :: "error option \<Rightarrow> (error + conn) list \<Rightarrow> ('s, 'q) AppServer
    \<Rightarrow> ('s, 'q) AppServer \<times> goroutine list \<times> conn list \<times> error option outcome" where
  "app_Start lst rs a =
     (case tcp_Start lst rs (srv_obj (coord a)) of
        (s, cns, r) \<Rightarrow> (a\<lparr>coord := (coord a)\<lparr>srv_obj := s\<rparr>\<rparr>, [Consumer, Broadcaster], cns, r))"

text \<open>
  \<open>retry(n, backoff, f)\<close>: the error of the last attempt, how many times it slept, the state.
\<close>

fun retry :: "nat \<Rightarrow> ('s \<Rightarrow> (error option \<times> 's) outcome) \<Rightarrow> error option \<Rightarrow> 's
    \<Rightarrow> (error option \<times> nat \<times> 's) outcome" where
  "retry 0 f err s = Ret (err, 0, s)"
| "retry (Suc n) f err s =
     (case f s of
        Ret (None, s') \<Rightarrow> Ret (None, 0, s')
      | Ret (Some e, s') \<Rightarrow>
          (case retry n f (Some e) s' of
             Ret (r, k, s'') \<Rightarrow> Ret (r, Suc k, s'')
           | Block \<Rightarrow> Block
           | Panic \<Rightarrow> Panic)
      | Block \<Rightarrow> Block
      | Panic \<Rightarrow> Panic)"

definition close_store :: "('s, 'q) AppServer \<Rightarrow> ('s, 'q) AppServer outcome" where
  "close_store a =
     (case retry 3 (\<lambda>s. Ret (store_Close (store (coord a)) s)) None (backend (coord a)) of
        Ret (err, _, b) \<Rightarrow> Ret (a\<lparr>coord := (coord a)\<lparr>backend := b\<rparr>,
          status := (if err = None then (status a)\<lparr>StoreClosed := True\<rparr> else status a)\<rparr>)
      | Block \<Rightarrow> Block
      | Panic \<Rightarrow> Panic)"

definition close_mq :: "('s, 'q) AppServer \<Rightarrow> ('s, 'q) AppServer outcome" where
  "close_mq a =
     (case retry 3 (q_Close (mq (coord a))) None (mq_obj (coord a)) of
        Ret (_, _, q) \<Rightarrow> Ret (a\<lparr>coord := (coord a)\<lparr>mq_obj := q\<rparr>\<rparr>)
      | Block \<Rightarrow> Block
      | Panic \<Rightarrow> Panic)"

definition close_srv :: "(nat \<Rightarrow> bool) \<Rightarrow> string list \<Rightarrow> ('s, 'q) AppServer \<Rightarrow> ('s, 'q) AppServer outcome" where
  "close_srv ctx_done order a =
     (case tcp_Shutdown ctx_done order (srv_obj (coord a)) of
        Ret (err, s) \<Rightarrow> Ret (a\<lparr>coord := (coord a)\<lparr>srv_obj := s\<rparr>,
          status := (if err = None then (status a)\<lparr>ServerClosed := True\<rparr> else status a)\<rparr>)
      | Block \<Rightarrow> Block
      | Panic \<Rightarrow> Panic)"

text \<open>Doing one thing after the other, when the first returned.\<close>

definition bind_outcome :: "'a outcome \<Rightarrow> ('a \<Rightarrow> 'b outcome) \<Rightarrow> 'b outcome" where
  "bind_outcome r f = (case r of Ret x \<Rightarrow> f x | Block \<Rightarrow> Block | Panic \<Rightarrow> Panic)"

lemma bind_outcome_simps [simp]:
  "bind_outcome (Ret x) f = f x" "bind_outcome Block f = Block" "bind_outcome Panic f = Panic"
  by (simp_all add: bind_outcome_def)

definition stop_consumer :: "go_time \<Rightarrow> ('s, 'q) AppServer \<Rightarrow> ('s, 'q) AppServer outcome" where
  "stop_consumer t0 a =
     bind_outcome (chan_close (stopConsume a))
       (\<lambda>ch. Ret (a\<lparr>stopConsume := ch, status := (status a)\<lparr>StartAt := t0, MQStopped := True\<rparr>\<rparr>))"

definition stop_coord :: "('s, 'q) AppServer \<Rightarrow> ('s, 'q) AppServer outcome" where
  "stop_coord a = bind_outcome (Stop (coord a)) (\<lambda>c. Ret (a\<lparr>coord := c\<rparr>))"

text \<open>
  \<open>Shutdown\<close>. It waits for the counting of an event in progress, at most ten seconds, and
  then goes on in either case; \<open>t0\<close> and \<open>t1\<close> are its first and last reading of the clock.
\<close>

definition Shutdown :: "go_time \<Rightarrow> go_time \<Rightarrow> (nat \<Rightarrow> bool) \<Rightarrow> string list \<Rightarrow> ('s, 'q) AppServer
    \<Rightarrow> (error option \<times> ('s, 'q) AppServer) outcome" where
  "Shutdown t0 t1 ctx_done order a =
     bind_outcome (stop_consumer t0 a) (\<lambda>a1.
     bind_outcome (stop_coord a1) (\<lambda>a2.
     bind_outcome (close_mq a2) (\<lambda>a3.
     bind_outcome (close_store a3) (\<lambda>a4.
     bind_outcome (close_srv ctx_done order a4) (\<lambda>a5.
     Ret (None, a5\<lparr>status := (status a5)\<lparr>EndAt := t1, Duration := time_sub t1 (StartAt (status a5))\<rparr>\<rparr>))))))"

subsection \<open>Retrying\<close>

text \<open>The result of the \<open>k\<close>-th attempt when all before it failed.\<close>

fun attempt :: "('s \<Rightarrow> (error option \<times> 's) outcome) \<Rightarrow> nat \<Rightarrow> 's \<Rightarrow> (error option \<times> 's) outcome" where
  "attempt f 0 s = f s"
| "attempt f (Suc k) s = (case f s of Ret (Some e, s') \<Rightarrow> attempt f k s' | r \<Rightarrow> r)"

lemma retry_success:
  "attempt f k s = Ret (None, s') \<Longrightarrow> (\<And>j. j < k \<Longrightarrow> \<exists>e u. attempt f j s = Ret (Some e, u)) \<Longrightarrow> k < n \<Longrightarrow>
   retry n f err s = Ret (None, k, s')"
proof (induction k arbitrary: n s err)
  case 0
  then show ?case by (cases n) auto
next
  case (Suc k)
  then obtain m where n: "n = Suc m" "k < m" by (cases n) auto
  from Suc.prems(2) [of 0] obtain e u where f: "f s = Ret (Some e, u)" by auto
  have "\<exists>e w. attempt f j u = Ret (Some e, w)" if "j < k" for j
    using Suc.prems(2) [of "Suc j"] that f by simp
  with Suc.IH [of u m "Some e"] Suc.prems(1) n f show ?case by simp
qed

lemma retry_failure:
  "(\<And>j. j < n \<Longrightarrow> \<exists>u. attempt f j s = Ret (Some (e j), u)) \<Longrightarrow> 0 < n \<Longrightarrow>
   \<exists>u. retry n f err s = Ret (Some (e (n - 1)), n, u)"
proof (induction n arbitrary: s err e)
  case (Suc n)
  from Suc.prems(1) [of 0] obtain u where f: "f s = Ret (Some (e 0), u)" by auto
  show ?case
  proof (cases "n = 0")
    case True
    with f show ?thesis by simp
  next
    case False
    have "\<exists>w. attempt f j u = Ret (Some (e (Suc j)), w)" if "j < n" for j
      using Suc.prems(1) [of "Suc j"] that f by simp
    with Suc.IH [of u "\<lambda>j. e (Suc j)" "Some (e 0)"] False f show ?thesis by auto
  qed
qed simp

text \<open>
  \<open>retry\<close> stops at the first attempt that succeeds, having slept once per failure before
  it; when all \<open>n\<close> attempts fail it reports the last error, having slept after each of them,
  the last included.
\<close>

theorem retry_outcome:
  assumes "0 < n" and "\<forall>j < n. \<exists>r u. attempt f j s = Ret (r, u)"
  shows "(\<exists>k s'. k < n \<and> attempt f k s = Ret (None, s') \<and> retry n f None s = Ret (None, k, s'))
    \<or> (\<exists>e u. (\<forall>j < n. \<exists>e' w. attempt f j s = Ret (Some e', w)) \<and> retry n f None s = Ret (Some e, n, u)
        \<and> (\<exists>w. attempt f (n - 1) s = Ret (Some e, w)))"
proof (cases "\<exists>k < n. \<exists>s'. attempt f k s = Ret (None, s')")
  case True
  let ?P = "\<lambda>k. \<exists>s'. attempt f k s = Ret (None, s')"
  define k where "k = (LEAST k. ?P k)"
  from True obtain m where m: "m < n" "?P m" by blast
  have "?P k" unfolding k_def by (rule LeastI [of ?P, OF m(2)])
  then obtain s' where k: "attempt f k s = Ret (None, s')" by blast
  have "k \<le> m" unfolding k_def by (rule Least_le [of ?P, OF m(2)])
  with m(1) have "k < n" by simp
  have "\<exists>e u. attempt f j s = Ret (Some e, u)" if jk: "j < k" for j
  proof -
    from jk \<open>k < n\<close> have "j < n" by simp
    with assms(2) obtain r u where "attempt f j s = Ret (r, u)" by blast
    moreover have "\<not> ?P j" using jk unfolding k_def by (rule not_less_Least)
    ultimately show ?thesis by (cases r) auto
  qed
  with retry_success [OF k] \<open>k < n\<close> k show ?thesis by blast
next
  case False
  with assms(2) have "\<forall>j. \<exists>e'. j < n \<longrightarrow> (\<exists>w. attempt f j s = Ret (Some e', w))" by (metis not_None_eq)
  then obtain e where e: "\<And>j. j < n \<Longrightarrow> \<exists>w. attempt f j s = Ret (Some (e j), w)" by metis
  from retry_failure [of n f s e None, OF e assms(1)] e assms(1) show ?thesis by (metis diff_less zero_less_one)
qed

theorem retry_outcome_witness:
  "(\<exists>k s'. k < (3 :: nat) \<and> attempt (\<lambda>n. Ret (if n = (1 :: nat) then None else Some EOF, n + 1)) k 0 = Ret (None, s')
      \<and> retry 3 (\<lambda>n. Ret (if n = (1 :: nat) then None else Some EOF, n + 1)) None 0 = Ret (None, k, s'))
    \<or> (\<exists>e u. (\<forall>j < (3 :: nat). \<exists>e' w. attempt (\<lambda>n. Ret (if n = (1 :: nat) then None else Some EOF, n + 1)) j 0 = Ret (Some e', w))
        \<and> retry 3 (\<lambda>n. Ret (if n = (1 :: nat) then None else Some EOF, n + 1)) None 0 = Ret (Some e, 3, u)
        \<and> (\<exists>w. attempt (\<lambda>n. Ret (if n = (1 :: nat) then None else Some EOF, n + 1)) (3 - 1) 0 = Ret (Some e, w)))"
  by (rule retry_outcome) (auto simp: less_Suc_eq numeral_3_eq_3)

subsection \<open>Shutting down\<close>

text \<open>A server on the in-memory components that is running: nothing has been shut down yet.\<close>

definition running_memory :: "(MemoryStore, MemoryQueue) AppServer \<Rightarrow> bool" where
  "running_memory a \<longleftrightarrow> store (coord a) = memory_stats \<and> mq (coord a) = memory_queue \<and> mq_inv (mq_obj (coord a))
     \<and> ts_inv (srv_obj (coord a)) \<and> \<not> ts_once (srv_obj (coord a)) \<and> \<not> cclosed (stopConsume a) \<and> \<not> cclosed (stopCh (coord a))"

lemma close_mq_memory:
  assumes "mq (coord a) = memory_queue" "mq_inv (mq_obj (coord a))"
  obtains q where "close_mq a = Ret (a\<lparr>coord := (coord a)\<lparr>mq_obj := q\<rparr>\<rparr>)" "mq_pending q = mq_pending (mq_obj (coord a))" "mq_closed q"
proof -
  from assms obtain q where "mem_Close (mq_obj (coord a)) = Ret (None, q)" "mq_pending q = mq_pending (mq_obj (coord a))" "mq_closed q"
    by (cases "mq_once (mq_obj (coord a))")
      (auto simp: mem_Close_def once_do_def chan_close_def mq_inv_def mq_pending_def)
  with assms that show ?thesis by (simp add: close_mq_def numeral_3_eq_3)
qed

lemma close_store_memory:
  "store (coord a) = memory_stats \<Longrightarrow> close_store a = Ret (a\<lparr>status := (status a)\<lparr>StoreClosed := True\<rparr>\<rparr>)"
  by (simp add: close_store_def numeral_3_eq_3 mem_store_Close_def)

lemma shutdown_memory:
  assumes "running_memory a" and "tcp_Shutdown ctx order (srv_obj (coord a)) = Ret (None, s)"
  shows "\<exists>a'. Shutdown t0 t1 ctx order a = Ret (None, a')
    \<and> MQStopped (status a') \<and> StoreClosed (status a') \<and> ServerClosed (status a')
    \<and> MQPending (status a') = MQPending (status a) \<and> Duration (status a') = time_sub t1 t0
    \<and> mq_closed (mq_obj (coord a')) \<and> mq_pending (mq_obj (coord a')) = mq_pending (mq_obj (coord a))
    \<and> backend (coord a') = backend (coord a) \<and> srv_obj (coord a') = s
    \<and> Shutdown t2 t3 ctx_done order' a' = Panic"
proof -
  note r = assms(1) [unfolded running_memory_def]
  define a1 where "a1 = a\<lparr>stopConsume := (stopConsume a)\<lparr>cclosed := True\<rparr>, status := (status a)\<lparr>StartAt := t0, MQStopped := True\<rparr>\<rparr>"
  define a2 where "a2 = a1\<lparr>coord := (coord a)\<lparr>stopCh := (stopCh (coord a))\<lparr>cclosed := True\<rparr>\<rparr>\<rparr>"
  have 1: "stop_consumer t0 a = Ret a1" "stop_coord a1 = Ret a2"
    using r by (simp_all add: stop_consumer_def stop_coord_def Stop_def chan_close_def a1_def a2_def)
  obtain q where q: "close_mq a2 = Ret (a2\<lparr>coord := (coord a2)\<lparr>mq_obj := q\<rparr>\<rparr>)"
    "mq_pending q = mq_pending (mq_obj (coord a2))" "mq_closed q"
    by (rule close_mq_memory [of a2]) (use r in \<open>simp_all add: a2_def\<close>)
  define a3 where "a3 = a2\<lparr>coord := (coord a2)\<lparr>mq_obj := q\<rparr>\<rparr>"
  define a4 where "a4 = a3\<lparr>status := (status a3)\<lparr>StoreClosed := True\<rparr>\<rparr>"
  define a5 where "a5 = a4\<lparr>coord := (coord a4)\<lparr>srv_obj := s\<rparr>, status := (status a4)\<lparr>ServerClosed := True\<rparr>\<rparr>"
  define a6 where "a6 = a5\<lparr>status := (status a5)\<lparr>EndAt := t1, Duration := time_sub t1 (StartAt (status a5))\<rparr>\<rparr>"
  note defs = a1_def a2_def a3_def a4_def a5_def a6_def
  have "store (coord a3) = memory_stats" "srv_obj (coord a4) = srv_obj (coord a)" using r by (simp_all add: defs)
  then have "close_store a3 = Ret a4" "close_srv ctx order a4 = Ret a5"
    using assms(2) by (simp_all add: close_store_memory a4_def a5_def close_srv_def)
  then have "Shutdown t0 t1 ctx order a = Ret (None, a6)"
    unfolding Shutdown_def 1 bind_outcome_simps q(1) a3_def [symmetric] by (simp add: a6_def)
  moreover have "stop_consumer t2 a6 = Panic" by (simp add: stop_consumer_def chan_close_def defs)
  then have "Shutdown t2 t3 ctx_done order' a6 = Panic" by (simp add: Shutdown_def)
  ultimately show ?thesis using q(2,3) by (intro exI [of _ a6]) (simp add: defs)
qed

text \<open>
  What the counting goroutine does on the in-memory components: as long as its \<open>select\<close> takes events
  it counts them in order, one each; when it takes the end of the context or the stop it leaves
  the rest of the queue as it is.
\<close>

lemma consume_memory:
  assumes "running_memory a" "mq_pending (mq_obj (coord a)) = e # es"
  obtains q where "consume a = Ret (True, a\<lparr>coord := (coord a)\<lparr>mq_obj := q, backend := snd (mem_Increment (ev_Username e) (ev_Time e) (backend (coord a)))\<rparr>\<rparr>)"
    "mq_pending q = es" "mq_inv q"
proof -
  let ?q = "mq_obj (coord a)"
  have m: "store (coord a) = memory_stats" "mq (coord a) = memory_queue" "mq_inv ?q" using assms(1) by (auto simp: running_memory_def)
  obtain q where q: "mem_Recv ?q = Ret (Some e, q)" "mq_pending q = es"
    using assms(2) by (auto simp: mem_Recv_def Subscribe_def mq_pending_def chan_recv_def)
  have i: "fst (mem_Increment u t b) = None" for u t b by (simp add: mem_Increment_def Let_def)
  have "consume a = Ret (True, a\<lparr>coord := (coord a)\<lparr>mq_obj := q, backend := snd (mem_Increment (ev_Username e) (ev_Time e) (backend (coord a)))\<rparr>\<rparr>)"
    using m q i [of "ev_Username e" "ev_Time e" "backend (coord a)"]
    by (cases "mem_Increment (ev_Username e) (ev_Time e) (backend (coord a))") (simp add: consume_def Let_def)
  with q(2) mq_inv_steps(2) [OF m(3) q(1)] that show ?thesis by blast
qed

theorem consumer_counts:
  assumes "running_memory a" and "mq_pending (mq_obj (coord a)) = es @ rest" and "cs = [] \<or> cs = [StopConsume] \<or> cs = [CtxDone]"
  shows "\<exists>a'. consumer (replicate (length es) Received @ cs) a = Ret (cs = [], a')
    \<and> backend (coord a') = increments memory_stats es (backend (coord a)) \<and> mq_pending (mq_obj (coord a')) = rest \<and> status a' = status a"
  using assms
proof (induction es arbitrary: a)
  case Nil
  then show ?case by auto
next
  case (Cons e es)
  from Cons.prems(2) have "mq_pending (mq_obj (coord a)) = e # (es @ rest)" by simp
  from consume_memory [OF Cons.prems(1) this] obtain q where
    q: "consume a = Ret (True, a\<lparr>coord := (coord a)\<lparr>mq_obj := q, backend := snd (mem_Increment (ev_Username e) (ev_Time e) (backend (coord a)))\<rparr>\<rparr>)"
      (is "_ = Ret (True, ?a)")
    "mq_pending q = es @ rest" "mq_inv q" by blast
  have "running_memory ?a" using Cons.prems(1) q(3) by (simp add: running_memory_def)
  from Cons.IH [OF this _ Cons.prems(3)] q show ?case by simp
qed

theorem consumer_counts_witness:
  "\<exists>a'. consumer [Received, StopConsume] ((NewAppServer ''l'' memory_stats None NewMemoryStore memory_queue (NewMemoryQueue 1) Second 0 0)
        \<lparr>coord := (coord (NewAppServer ''l'' memory_stats None NewMemoryStore memory_queue (NewMemoryQueue 1) Second 0 0))
          \<lparr>mq_obj := (NewMemoryQueue 1)\<lparr>mq_ch := \<lparr>cbuf = [e], ccap = 1, cclosed = False\<rparr>\<rparr>\<rparr>\<rparr>) = Ret (False, a')
    \<and> mq_pending (mq_obj (coord a')) = []"
proof -
  let ?a = "NewAppServer ''l'' memory_stats None NewMemoryStore memory_queue (NewMemoryQueue 1) Second 0 0"
  let ?b = "?a\<lparr>coord := (coord ?a)\<lparr>mq_obj := (NewMemoryQueue 1)\<lparr>mq_ch := \<lparr>cbuf = [e], ccap = 1, cclosed = False\<rparr>\<rparr>\<rparr>\<rparr>"
  have "running_memory ?b" "mq_pending (mq_obj (coord ?b)) = [e] @ []"
    by (simp_all add: running_memory_def NewAppServer_def Let_def NewCoordinator_def ts_inv_def SetStateListener_def
        SetMessageListener_def SetAcceptor_def NewServer_def NewChannels_def make_chan_def mq_inv_def NewMemoryQueue_def chan_ok_def mq_pending_def)
  from consumer_counts [OF this, of "[StopConsume]"] show ?thesis by auto
qed

text \<open>
  When listening fails, \<open>Start\<close> returns that error with both goroutines running; \<open>main\<close> discards it, so
  the process goes on with jobs that reach nobody, and its health check still answers.
\<close>

lemma failed_listen:
  assumes "ts_has_state (srv_obj (coord a))"
  shows "\<exists>a'. app_Start (Some err) rs a = (a', [Consumer, Broadcaster], [], Ret (Some err))"
  using assms by (simp add: app_Start_def tcp_Start_def start_checks_def)

text \<open>
  C26: shutting down a running server on the in-memory components returns without error and
  reports consumer stopped, store closed and server closed. It does not wait for the queue
  to be emptied: the events still pending stay pending and uncounted, and the reported
  number of pending events stays 0. A second \<open>Shutdown\<close> panics (it closes a closed channel).
\<close>

theorem shutdown_reports:
  assumes "running_memory a" and "distinct order" and "set order = dom (ts_chans (srv_obj (coord a)))"
  shows "\<exists>a'. Shutdown t0 t1 (\<lambda>_. False) order a = Ret (None, a')
    \<and> MQStopped (status a') \<and> StoreClosed (status a') \<and> ServerClosed (status a')
    \<and> MQPending (status a') = MQPending (status a) \<and> Duration (status a') = time_sub t1 t0
    \<and> mq_closed (mq_obj (coord a')) \<and> mq_pending (mq_obj (coord a')) = mq_pending (mq_obj (coord a))
    \<and> backend (coord a') = backend (coord a)
    \<and> Shutdown t2 t3 ctx_done order' a' = Panic"
proof -
  obtain s where "tcp_Shutdown (\<lambda>_. False) order (srv_obj (coord a)) = Ret (None, s)"
    using shutdown_effect [of "srv_obj (coord a)" order] assms unfolding running_memory_def by blast
  from shutdown_memory [OF assms(1) this] show ?thesis by blast
qed

theorem shutdown_reports_witness:
  "\<exists>a'. Shutdown zero_time zero_time (\<lambda>_. False) []
      (NewAppServer ''l'' memory_stats None NewMemoryStore memory_queue (NewMemoryQueue 1) Second 0 0) = Ret (None, a')
    \<and> ServerClosed (status a') \<and> Shutdown zero_time zero_time (\<lambda>_. False) [] a' = Panic"
proof -
  let ?a = "NewAppServer ''l'' memory_stats None NewMemoryStore memory_queue (NewMemoryQueue 1) Second 0 0"
  have "running_memory ?a" "dom (ts_chans (srv_obj (coord ?a))) = {}"
    by (simp_all add: running_memory_def NewAppServer_def Let_def NewCoordinator_def ts_inv_def SetStateListener_def
        SetMessageListener_def SetAcceptor_def NewServer_def NewChannels_def make_chan_def)
  with shutdown_reports [of ?a "[]" zero_time zero_time zero_time zero_time "\<lambda>_. False" "[]"] show ?thesis by auto
qed

end
