(* ===== verification/Server_Runs.thy ===== *)
theory Server_Runs
  imports App_Server
begin

text \<open>
  Runs of the whole server on any store and queue, as interleavings of the operations of
  its goroutines: the restore and the ticks of the broadcast loop, handshakes, submissions, rounds of the
  counting goroutine, disconnections. Everything that happens to connections alone (pushes,
  frames written) is covered by a step that may change the table of channels in any way, and
  everything that happens outside the process (deliveries of a broker, other users of a
  database) by a step that may change the store and the queue in any way. The label of a step
  records what an observer sees; the invariants relate the state to the labels of the run. The
  in-memory store and queue belong to the process: their runs have no outside step. A submission is
  one step; two handlers of one session that overlap are the subject of \<open>submit_commit\<close> in the root theory.
\<close>

subsection \<open>Steps\<close>

type_synonym mem_app = "(MemoryStore, MemoryQueue) AppServer"

datatype app_label =
    LTick tick
  | LOpen string
  | LAccept string SubmitParams string go_time
  | LReject string error
  | LCount
  | LLeave string
  | LWire
  | LRestore
  | LOutside

inductive app_step :: "('s, 'q) AppServer \<Rightarrow> app_label \<Rightarrow> ('s, 'q) AppServer \<Rightarrow> bool" where
  ticked: "coord_run t (coord a) = Ret c' \<Longrightarrow> distinct (tk_order t) \<Longrightarrow> set (tk_order t) = dom (sessions (coord a)) \<Longrightarrow>
    app_step a (LTick t) (a\<lparr>coord := c'\<rparr>)"
| opened: "Accept now timeout rnd cn (coord a) = (Inr i, cn', c') \<Longrightarrow> app_step a (LOpen i) (a\<lparr>coord := c'\<rparr>)"
| accepted: "handleSubmit i p ts now (coord a) = Ret (None, c') \<Longrightarrow> sessions (coord a) i = Some s \<Longrightarrow>
    app_step a (LAccept i p (Username s) now) (a\<lparr>coord := c'\<rparr>)"
| rejected: "handleSubmit i p ts now (coord a) = Ret (Some e, c') \<Longrightarrow> app_step a (LReject i e) (a\<lparr>coord := c'\<rparr>)"
| counted: "consume a = Ret (True, a') \<Longrightarrow> app_step a LCount a'"
| left: "Disconnect i (coord a) = (e, c') \<Longrightarrow> app_step a (LLeave i) (a\<lparr>coord := c'\<rparr>)"
| wire: "app_step a LWire (a\<lparr>coord := (coord a)\<lparr>srv_obj := s\<rparr>\<rparr>)"
| restored: "app_step a LRestore (a\<lparr>coord := restore now (coord a)\<rparr>)"
| outside: "app_step a LOutside (a\<lparr>coord := (coord a)\<lparr>backend := b, mq_obj := q\<rparr>\<rparr>)"

inductive app_run :: "('s, 'q) AppServer \<Rightarrow> app_label list \<Rightarrow> ('s, 'q) AppServer \<Rightarrow> bool" where
  start: "app_run a [] a"
| snoc: "app_run a tr b \<Longrightarrow> app_step b l b' \<Longrightarrow> app_run a (tr @ [l]) b'"

text \<open>The initial server: in-memory store (also as state store, or none), queue of a given size.\<close>

definition fresh_app :: "bool \<Rightarrow> string \<Rightarrow> nat \<Rightarrow> duration \<Rightarrow> duration \<Rightarrow> duration \<Rightarrow> mem_app" where
  "fresh_app with_state addr sz interval expire hw =
     NewAppServer addr memory_stats (if with_state then Some memory_state else None) NewMemoryStore
       memory_queue (NewMemoryQueue sz) interval expire hw"

subsection \<open>What each step changes\<close>

text \<open>On any store and queue, an accepted submission and a round of the counting goroutine.\<close>

lemma accept_session:
  assumes "handleSubmit i p ts now c = Ret (None, c')" "sessions c i = Some s"
  obtains n where "job_nonce s (sub_JobID p) c = Some n" "\<not> too_soon s now"
    "sub_ClientNonce p \<notin> nonces_of s (sub_JobID p)" "EqualFold (submit_hash n (sub_ClientNonce p)) (sub_Result p)"
    "sessions c' = (sessions c)(i \<mapsto> accepted_session s p n now)" "history c' = history c" "jobID c' = jobID c"
proof -
  from assms(1) obtain s' n q where e: "sessions c i = Some s'" "job_nonce s' (sub_JobID p) c = Some n"
    "\<not> too_soon s' now" "sub_ClientNonce p \<notin> nonces_of s' (sub_JobID p)" "EqualFold (submit_hash n (sub_ClientNonce p)) (sub_Result p)"
    "c' = (save_accepted (accepted_session s' p n now) p (put_session i (accepted_session s' p n now) c))\<lparr>mq_obj := q\<rparr>"
    by (rule accepted_effect)
  have "s' = s" using e(1) assms(2) by simp
  with e(2-6) that [of n] show ?thesis by (simp add: server_simps)
qed

lemma consume_frame:
  assumes "consume a = Ret (r, b)"
  shows "sessions (coord b) = sessions (coord a) \<and> history (coord b) = history (coord a) \<and> jobID (coord b) = jobID (coord a)"
  using assms by (auto simp: consume_def Let_def split: outcome.splits option.splits prod.splits)

lemma restore_frame [simp]:
  "sessions (restore now c) = sessions c" "backend (restore now c) = backend c" "mq_obj (restore now c) = mq_obj c"
  "mq (restore now c) = mq c" "store (restore now c) = store c" "state (restore now c) = state c"
  by (auto simp: restore_def Let_def split: option.splits sum.splits prod.splits)

lemma filed_put: "filed_sessions m \<Longrightarrow> ChannelID s = i \<Longrightarrow> filed_sessions (m(i \<mapsto> s))"
  by (auto simp: filed_sessions_def)

lemma filed_accept:
  assumes "filed_sessions (sessions c)" "sessions c i = Some s"
  shows "filed_sessions ((sessions c)(i \<mapsto> accepted_session s p n now))"
  using assms by (intro filed_put) (auto simp: accepted_session_def filed_sessions_def)

text \<open>The in-memory parts: what never changes, and the queue's own invariant.\<close>

definition wired :: "mem_app \<Rightarrow> bool" where
  "wired a \<longleftrightarrow> store (coord a) = memory_stats \<and> mq (coord a) = memory_queue
     \<and> (state (coord a) = None \<or> state (coord a) = Some memory_state)
     \<and> mq_inv (mq_obj (coord a)) \<and> \<not> mq_closed (mq_obj (coord a)) \<and> filed_sessions (sessions (coord a))"

lemma fresh_wired: "wired (fresh_app b addr sz i e h)"
  by (simp add: wired_def fresh_app_def NewAppServer_def Let_def NewCoordinator_def filed_sessions_def)

lemma Accept_Inr:
  assumes "Accept now timeout rnd cn c = (Inr i, cn', c')"
  shows "\<exists>u. c' = restore_user i u (RegisterSession i u c)"
  using assms by (auto simp: Accept_def Let_def split: sum.splits prod.splits option.splits if_splits)

lemma restore_user_session:
  "\<exists>s. restore_user i u (RegisterSession i u c) = put_session i s c \<and> ChannelID s = i \<and> Username s = u
     \<and> UsedNonces s = Map.empty"
  by (auto simp: restore_user_def RegisterSession_def NewSession_def put_session_def split: option.splits sum.splits)

lemma only_session_cases:
  assumes "only_session i c c'" "sessions c' k = Some s'"
  shows "\<exists>s. sessions c k = Some s \<and> same_account s s'"
proof -
  from assms(1) obtain m where m: "c' = c\<lparr>sessions := m\<rparr>" "k \<noteq> i \<Longrightarrow> m k = sessions c k"
    "rel_option same_account (sessions c i) (m i)" by (auto simp: only_session_def)
  show ?thesis
  proof (cases "k = i")
    case True
    with m assms(2) show ?thesis by (cases "sessions c i") auto
  next
    case False
    with m assms(2) show ?thesis by auto
  qed
qed

lemma only_session_filed: "only_session i c c' \<Longrightarrow> filed_sessions (sessions c) \<Longrightarrow> filed_sessions (sessions c')"
  by (auto simp: filed_sessions_def same_account_def dest!: only_session_cases)

lemma data_frame [simp]:
  "data (snd (mem_SaveJob j n t s)) = data s" "data (snd (mem_SaveUserState u j n t s)) = data s"
  "data (snd (mem_SaveUsedNonce u j n s)) = data s"
  by (simp_all add: mem_state_defs)

lemma data_rotate:
  "state c = None \<or> state c = Some memory_state \<Longrightarrow> data (backend (rotateJob b t t' c)) = data (backend c)"
  by (auto simp: rotateJob_def Let_def)

lemma data_save_accepted:
  "state c = None \<or> state c = Some memory_state \<Longrightarrow> data (backend (save_accepted s p c)) = data (backend c)"
  by (auto simp: save_accepted_def Let_def)

lemma mem_Publish_open:
  assumes "mq_inv q" "\<not> mq_closed q" "mem_Publish e q = Ret (r, q')"
  shows "mq_pending q' = mq_pending q @ [e] \<and> mq_inv q' \<and> \<not> mq_closed q'"
  using assms mq_inv_steps(1) [OF assms(1,3)] by (auto simp: mem_Publish_cases mq_pending_def split: if_splits)

lemma mem_Recv_Some:
  assumes "mq_inv q" "mem_Recv q = Ret (Some e, q')"
  shows "mq_pending q = e # mq_pending q' \<and> mq_inv q' \<and> mq_closed q' = mq_closed q"
  using assms mq_inv_steps(2) [OF assms] memq.get_pending [OF assms(2)] by simp

text \<open>An accepted submission, in terms of the fields.\<close>

lemma accept_fields:
  assumes "wired a" "handleSubmit i p ts now (coord a) = Ret (None, c')" "sessions (coord a) i = Some s"
  obtains n where "job_nonce s (sub_JobID p) (coord a) = Some n" "\<not> too_soon s now"
    "sub_ClientNonce p \<notin> nonces_of s (sub_JobID p)" "EqualFold (submit_hash n (sub_ClientNonce p)) (sub_Result p)"
    "sessions c' = (sessions (coord a))(i \<mapsto> accepted_session s p n now)"
    "mq_pending (mq_obj c') = mq_pending (mq_obj (coord a)) @ [\<lparr>ev_Username = Username s, ev_Time = now\<rparr>]"
    "data (backend c') = data (backend (coord a))" "history c' = history (coord a)" "jobID c' = jobID (coord a)"
    "wired (a\<lparr>coord := c'\<rparr>)" "backend c' = backend (save_accepted (accepted_session s p n now) p (coord a))"
proof -
  from assms(2) obtain s' n r q where e: "sessions (coord a) i = Some s'" "job_nonce s' (sub_JobID p) (coord a) = Some n"
    "\<not> too_soon s' now" "sub_ClientNonce p \<notin> nonces_of s' (sub_JobID p)" "EqualFold (submit_hash n (sub_ClientNonce p)) (sub_Result p)"
    "Publish (mq (coord a)) \<lparr>ev_Username = Username s', ev_Time = now\<rparr> (mq_obj (coord a)) = Ret (r, q)"
    "c' = (save_accepted (accepted_session s' p n now) p (put_session i (accepted_session s' p n now) (coord a)))\<lparr>mq_obj := q\<rparr>"
    by (rule accepted_effect)
  have "s' = s" using e(1) assms(3) by simp
  note e = e [unfolded this]
  have w: "mq (coord a) = memory_queue" "mq_inv (mq_obj (coord a))" "\<not> mq_closed (mq_obj (coord a))"
    "state (coord a) = None \<or> state (coord a) = Some memory_state" "filed_sessions (sessions (coord a))"
    using assms(1) by (auto simp: wired_def)
  have "mem_Publish \<lparr>ev_Username = Username s, ev_Time = now\<rparr> (mq_obj (coord a)) = Ret (r, q)"
    using e(6) unfolding w(1) by simp
  from mem_Publish_open [OF w(2,3) this]
  have q: "mq_pending q = mq_pending (mq_obj (coord a)) @ [\<lparr>ev_Username = Username s, ev_Time = now\<rparr>]"
    "mq_inv q" "\<not> mq_closed q" by simp_all
  have d: "data (backend c') = data (backend (coord a))"
    unfolding e(7) using w(4) by (simp add: data_save_accepted server_simps)
  have b: "backend c' = backend (save_accepted (accepted_session s p n now) p (coord a))"
    unfolding e(7) by (simp add: save_accepted_def put_session_def Let_def split: option.splits)
  from filed_accept [OF w(5) assms(3), of p n now] have "wired (a\<lparr>coord := c'\<rparr>)"
    using assms(1) e(7) q by (simp add: wired_def server_simps)
  with e(2-5) q(1) d b that [of n] show ?thesis by (simp add: e(7) server_simps)
qed

lemma count_fields:
  assumes "wired a" "consume a = Ret (True, b)"
  obtains e q where "mq_pending (mq_obj (coord a)) = e # mq_pending q" "mq_inv q" "\<not> mq_closed q"
    "b = a\<lparr>coord := (coord a)\<lparr>mq_obj := q, backend := snd (mem_Increment (ev_Username e) (ev_Time e) (backend (coord a)))\<rparr>\<rparr>"
proof -
  have w: "mq (coord a) = memory_queue" "store (coord a) = memory_stats" "mq_inv (mq_obj (coord a))" "\<not> mq_closed (mq_obj (coord a))"
    using assms(1) by (auto simp: wired_def)
  have i: "fst (mem_Increment u t s) = None" for u t s by (simp add: mem_Increment_def Let_def)
  from assms(2) w obtain e q where r: "mem_Recv (mq_obj (coord a)) = Ret (Some e, q)"
    by (auto simp: consume_def Let_def split: outcome.splits option.splits)
  with assms(2) w i [of "ev_Username e" "ev_Time e" "backend (coord a)"]
  have "b = a\<lparr>coord := (coord a)\<lparr>mq_obj := q, backend := snd (mem_Increment (ev_Username e) (ev_Time e) (backend (coord a)))\<rparr>\<rparr>"
    by (cases "mem_Increment (ev_Username e) (ev_Time e) (backend (coord a))") (simp add: consume_def Let_def)
  with mem_Recv_Some [OF w(3) r] w(4) that show ?thesis by simp
qed

lemma filed_step:
  assumes f: "filed_sessions (sessions (coord a))" and "app_step a l b"
  shows "filed_sessions (sessions (coord b))"
  using assms(2)
proof (cases rule: app_step.cases)
  case (ticked t c')
  from coord_run_Ret [OF ticked(3-5) f] ticked(2) f show ?thesis
    by (auto simp: filed_sessions_def on_job_def)
next
  case (opened now timeout rnd cn i cn' c')
  then obtain u s where "c' = put_session i s (coord a)" "ChannelID s = i" by (metis Accept_Inr restore_user_session)
  with opened(2) f show ?thesis by (simp add: server_simps filed_put)
next
  case (accepted i p ts now c' s)
  obtain n where "sessions c' = (sessions (coord a))(i \<mapsto> accepted_session s p n now)"
    by (rule accept_session [OF accepted(3,4)])
  with accepted(2) filed_accept [OF f accepted(4), of p n now] show ?thesis by simp
next
  case (rejected i p ts now e c')
  with only_session_filed [OF rejected_effect f] show ?thesis by simp
next
  case counted
  with consume_frame [OF counted(2)] f show ?thesis by simp
next
  case (left i e c')
  with f show ?thesis by (auto simp: Disconnect_def UnregisterSession_def filed_sessions_def split: if_splits)
qed (use f in simp_all)

lemma filed_run: "app_run a tr b \<Longrightarrow> filed_sessions (sessions (coord a)) \<Longrightarrow> filed_sessions (sessions (coord b))"
  by (induction rule: app_run.induct) (auto intro: filed_step)

lemma wired_step:
  assumes "wired a" "app_step a l b" "l \<noteq> LOutside"
  shows "wired b"
  using assms(2)
proof (cases rule: app_step.cases)
  case (ticked t c')
  have f: "filed_sessions (sessions (coord a))" using assms(1) by (simp add: wired_def)
  from coord_run_Ret [OF ticked(3-5) f] ticked(2) assms(1) show ?thesis
    by (auto simp: wired_def filed_sessions_def on_job_def)
next
  case (opened now timeout rnd cn i cn' c')
  then obtain u s where "c' = put_session i s (coord a)" "ChannelID s = i" by (metis Accept_Inr restore_user_session)
  with opened(2) assms(1) show ?thesis by (simp add: wired_def server_simps filed_put)
next
  case (accepted i p ts now c' s)
  then show ?thesis by (auto intro: accept_fields [OF assms(1) accepted(3,4)])
next
  case (rejected i p ts now e c')
  note o = rejected_effect [OF rejected(3)]
  then obtain m where "c' = (coord a)\<lparr>sessions := m\<rparr>" by (auto simp: only_session_def)
  with rejected(2) assms(1) only_session_filed [OF o] show ?thesis by (simp add: wired_def)
next
  case counted
  show ?thesis
    by (rule count_fields [OF assms(1) counted(2)]) (use assms(1) in \<open>simp add: wired_def\<close>)
next
  case (left i e c')
  with assms(1) show ?thesis
    by (auto simp: wired_def Disconnect_def UnregisterSession_def filed_sessions_def split: if_splits)
next
  case (wire s)
  with assms(1) show ?thesis by (simp add: wired_def)
next
  case (restored now)
  with assms(1) show ?thesis by (simp add: wired_def)
qed (use assms(3) in simp)

lemma wired_run: "app_run a tr b \<Longrightarrow> wired a \<Longrightarrow> LOutside \<notin> set tr \<Longrightarrow> wired b"
  by (induction rule: app_run.induct) (auto intro: wired_step)

subsection \<open>The log of a session\<close>

text \<open>
  \<open>log i tr\<close>: the submissions accepted on channel \<open>i\<close> since its last handshake, oldest
  first, each with the time of its acceptance.
\<close>

fun log_step :: "string \<Rightarrow> (SubmitParams \<times> go_time) list \<Rightarrow> app_label \<Rightarrow> (SubmitParams \<times> go_time) list" where
  "log_step i acc (LOpen k) = (if k = i then [] else acc)"
| "log_step i acc (LAccept k p u t) = (if k = i then acc @ [(p, t)] else acc)"
| "log_step i acc _ = acc"

definition log :: "string \<Rightarrow> app_label list \<Rightarrow> (SubmitParams \<times> go_time) list" where
  "log i tr = foldl (log_step i) [] tr"

lemma log_simps [simp]: "log i [] = []" "log i (tr @ [l]) = log_step i (log i tr) l"
  by (simp_all add: log_def)

definition job_key :: "SubmitParams \<times> go_time \<Rightarrow> int \<times> string" where
  "job_key e = (sub_JobID (fst e), sub_ClientNonce (fst e))"

fun spaced :: "go_time list \<Rightarrow> bool" where
  "spaced (t # u # ts) \<longleftrightarrow> (IsZero t \<or> Second \<le> time_sub u t) \<and> spaced (u # ts)"
| "spaced _ \<longleftrightarrow> True"

lemma spaced_snoc: "spaced (ts @ [u]) \<longleftrightarrow> spaced ts \<and> (ts = [] \<or> IsZero (last ts) \<or> Second \<le> time_sub u (last ts))"
  by (induction ts rule: spaced.induct) auto

text \<open>The session remembers its log: the nonces used per job and the time of the last acceptance.\<close>

definition remembers :: "(SubmitParams \<times> go_time) list \<Rightarrow> Session \<Rightarrow> bool" where
  "remembers es s \<longleftrightarrow> (\<forall>j n. n \<in> nonces_of s j \<longleftrightarrow> (j, n) \<in> job_key ` set es)
     \<and> (es \<noteq> [] \<longrightarrow> LastSubmitAt s = snd (last es))"

definition log_inv :: "app_label list \<Rightarrow> ('s, 'q) AppServer \<Rightarrow> bool" where
  "log_inv tr a \<longleftrightarrow> (\<forall>i. distinct (map job_key (log i tr)) \<and> spaced (map snd (log i tr))
     \<and> (\<forall>s. sessions (coord a) i = Some s \<longrightarrow> remembers (log i tr) s))"

lemma remembers_same: "same_account s s' \<Longrightarrow> remembers es s' = remembers es s"
  by (simp add: remembers_def same_account_def)

lemma remembers_on_job: "remembers es (on_job j n s) = remembers es s"
  by (simp add: remembers_def on_job_def nonces_of_def)

lemma nonces_accepted:
  "nonces_of (accepted_session s p n t) j = (if j = sub_JobID p then insert (sub_ClientNonce p) (nonces_of s j) else nonces_of s j)"
  by (simp add: nonces_of_def accepted_session_def)

lemma remembers_accept: "remembers es s \<Longrightarrow> remembers (es @ [(p, t)]) (accepted_session s p n t)"
  by (auto simp: remembers_def nonces_accepted job_key_def) (simp_all add: accepted_session_def)

lemma log_inv_other:
  assumes "log_inv tr a" "\<And>i. log i (tr @ [l]) = log i tr"
    "\<And>i s'. sessions (coord b) i = Some s' \<Longrightarrow> \<exists>s. sessions (coord a) i = Some s \<and> (\<forall>es. remembers es s' = remembers es s)"
  shows "log_inv (tr @ [l]) b"
  unfolding log_inv_def assms(2)
proof (intro allI conjI impI)
  fix i s' assume "sessions (coord b) i = Some s'"
  with assms(3) obtain s where "sessions (coord a) i = Some s" "\<forall>es. remembers es s' = remembers es s" by blast
  with assms(1) show "remembers (log i tr) s'" by (simp add: log_inv_def)
qed (use assms(1) in \<open>simp_all add: log_inv_def\<close>)

lemma log_inv_accept:
  assumes inv: "log_inv tr a"
    and h: "handleSubmit i p ts now (coord a) = Ret (None, c')" "sessions (coord a) i = Some s"
  shows "log_inv (tr @ [LAccept i p (Username s) now]) (a\<lparr>coord := c'\<rparr>)"
proof -
  obtain n where n: "\<not> too_soon s now" "sub_ClientNonce p \<notin> nonces_of s (sub_JobID p)"
    "sessions c' = (sessions (coord a))(i \<mapsto> accepted_session s p n now)"
    by (rule accept_session [OF h])
  have r: "remembers (log i tr) s" using inv h(2) by (simp add: log_inv_def)
  have new: "job_key (p, now) \<notin> job_key ` set (log i tr)"
    using r n(2) by (auto simp: remembers_def job_key_def)
  have gap: "spaced (map snd (log i tr) @ [now])"
    using r n(1) inv by (auto simp: spaced_snoc log_inv_def remembers_def too_soon_def last_map)
  show ?thesis unfolding log_inv_def
  proof (intro allI)
    fix k
    show "distinct (map job_key (log k (tr @ [LAccept i p (Username s) now])))
      \<and> spaced (map snd (log k (tr @ [LAccept i p (Username s) now])))
      \<and> (\<forall>s'. sessions (coord (a\<lparr>coord := c'\<rparr>)) k = Some s' \<longrightarrow> remembers (log k (tr @ [LAccept i p (Username s) now])) s')"
      using inv new gap remembers_accept [OF r, of p now n] n(3)
      by (cases "k = i") (auto simp: log_inv_def)
  qed
qed

lemma log_inv_step:
  assumes inv: "log_inv tr a" and f: "filed_sessions (sessions (coord a))" and st: "app_step a l b"
  shows "log_inv (tr @ [l]) b"
  using st
proof (cases rule: app_step.cases)
  case (ticked t c')
  from coord_run_Ret [OF ticked(3-5) f] have
    "sessions c' = (\<lambda>i. map_option (on_job (jobID c') (serverNonce c')) (sessions (coord a) i))" by blast
  with ticked show ?thesis by (intro log_inv_other [OF inv]) (auto simp: remembers_on_job)
next
  case (opened now timeout rnd cn i cn' c')
  then obtain u s where s: "c' = put_session i s (coord a)" "UsedNonces s = Map.empty"
    by (metis Accept_Inr restore_user_session)
  then have "remembers [] s" by (simp add: remembers_def nonces_of_def)
  with inv s(1) opened show ?thesis by (auto simp: log_inv_def server_simps)
next
  case (accepted i p ts now c' s)
  then show ?thesis using log_inv_accept [OF inv] by simp
next
  case (rejected i p ts now e c')
  note o = rejected_effect [OF rejected(3)]
  from rejected show ?thesis
    by (intro log_inv_other [OF inv]) (auto dest!: only_session_cases [OF o] simp: remembers_same)
next
  case counted
  with consume_frame [OF counted(2)] show ?thesis by (intro log_inv_other [OF inv]) auto
next
  case (left i e c')
  then show ?thesis
    by (intro log_inv_other [OF inv]) (auto simp: Disconnect_def UnregisterSession_def split: if_splits)
next
  case (wire s)
  then show ?thesis by (intro log_inv_other [OF inv]) auto
next
  case (restored now)
  then show ?thesis by (intro log_inv_other [OF inv]) auto
next
  case (outside bk q)
  then show ?thesis by (intro log_inv_other [OF inv]) auto
qed

lemma log_inv_run: "app_run a tr b \<Longrightarrow> sessions (coord a) = Map.empty \<Longrightarrow> log_inv tr b"
proof (induction rule: app_run.induct)
  case (start a)
  then show ?case by (simp add: log_inv_def)
next
  case (snoc a tr b l b')
  moreover have "filed_sessions (sessions (coord b))" using filed_run [OF snoc(1)] snoc.prems by (simp add: filed_sessions_def)
  ultimately show ?case by (auto intro: log_inv_step)
qed

subsection \<open>The books\<close>

fun event_of :: "app_label \<Rightarrow> SubmitEvent list" where
  "event_of (LAccept i p u t) = [\<lparr>ev_Username = u, ev_Time = t\<rparr>]"
| "event_of _ = []"

definition events_of :: "app_label list \<Rightarrow> SubmitEvent list" where
  "events_of tr = concat (map event_of tr)"

lemma events_of_simps [simp]: "events_of [] = []" "events_of (tr @ [l]) = events_of tr @ event_of l"
  by (simp_all add: events_of_def)

definition books_inv :: "app_label list \<Rightarrow> mem_app \<Rightarrow> bool" where
  "books_inv tr a \<longleftrightarrow> (\<exists>es. events_of tr = es @ mq_pending (mq_obj (coord a)) \<and> length es = count_list tr LCount
     \<and> data (backend (coord a)) = data (increments memory_stats es NewMemoryStore))"

lemma increments_snoc:
  "increments ops (es @ [e]) s = snd (Increment ops (ev_Username e) (ev_Time e) (increments ops es s))"
  by (induction es arbitrary: s) auto

lemma data_Increment_cong: "data s = data s' \<Longrightarrow> data (snd (mem_Increment u t s)) = data (snd (mem_Increment u t s'))"
  by (simp add: mem_Increment_def Let_def)

lemma mem_Get_cong: "data s = data s' \<Longrightarrow> mem_Get u t s = mem_Get u t s'"
  by (simp add: mem_Get_def Let_def)

lemma count_list_snoc [simp]: "count_list (tr @ [l]) x = count_list tr x + (if l = x then 1 else 0)"
  by simp

lemma books_inv_other:
  assumes "books_inv tr a" "event_of l = []" "l \<noteq> LCount" "mq_obj (coord b) = mq_obj (coord a)"
    "data (backend (coord b)) = data (backend (coord a))"
  shows "books_inv (tr @ [l]) b"
  using assms by (auto simp: books_inv_def)

lemma books_inv_step:
  assumes inv: "books_inv tr a" and w: "wired a" and st: "app_step a l b" and l: "l \<noteq> LOutside"
  shows "books_inv (tr @ [l]) b"
  using st
proof (cases rule: app_step.cases)
  case (ticked t c')
  have f: "filed_sessions (sessions (coord a))" using w by (simp add: wired_def)
  from coord_run_Ret [OF ticked(3-5) f] have "mq_obj c' = mq_obj (coord a)"
    "backend c' = backend (rotateJob (tk_buf t) (tk_now t) (tk_now' t) (coord a))" by blast+
  with ticked w show ?thesis by (intro books_inv_other [OF inv]) (auto simp: data_rotate wired_def)
next
  case (opened now timeout rnd cn i cn' c')
  then obtain u s where "c' = put_session i s (coord a)" by (metis Accept_Inr restore_user_session)
  with opened show ?thesis by (intro books_inv_other [OF inv]) (auto simp: server_simps)
next
  case (accepted i p ts now c' s)
  obtain n where "mq_pending (mq_obj c') = mq_pending (mq_obj (coord a)) @ [\<lparr>ev_Username = Username s, ev_Time = now\<rparr>]"
    "data (backend c') = data (backend (coord a))"
    by (rule accept_fields [OF w accepted(3,4)])
  with inv accepted(1,2) show ?thesis by (auto simp: books_inv_def)
next
  case (rejected i p ts now e c')
  from rejected_effect [OF rejected(3)] obtain m where "c' = (coord a)\<lparr>sessions := m\<rparr>" by (auto simp: only_session_def)
  with rejected show ?thesis by (intro books_inv_other [OF inv]) auto
next
  case counted
  obtain e q where c: "mq_pending (mq_obj (coord a)) = e # mq_pending q"
    "b = a\<lparr>coord := (coord a)\<lparr>mq_obj := q, backend := snd (mem_Increment (ev_Username e) (ev_Time e) (backend (coord a)))\<rparr>\<rparr>"
    by (rule count_fields [OF w counted(2)])
  from inv obtain es where es: "events_of tr = es @ mq_pending (mq_obj (coord a))" "length es = count_list tr LCount"
    "data (backend (coord a)) = data (increments memory_stats es NewMemoryStore)" by (auto simp: books_inv_def)
  from data_Increment_cong [OF es(3)] have
    "data (backend (coord b)) = data (increments memory_stats (es @ [e]) NewMemoryStore)"
    by (simp add: c(2) increments_snoc)
  with es c counted(1) show ?thesis unfolding books_inv_def by (intro exI [of _ "es @ [e]"]) simp
next
  case (left i e c')
  then show ?thesis by (intro books_inv_other [OF inv]) (auto simp: Disconnect_def UnregisterSession_def)
next
  case (wire s)
  then show ?thesis by (intro books_inv_other [OF inv]) auto
next
  case (restored now)
  then show ?thesis by (intro books_inv_other [OF inv]) auto
qed (use l in simp)

lemma fresh_simps:
  "sessions (coord (fresh_app b addr sz i e h)) = Map.empty" "history (coord (fresh_app b addr sz i e h)) = Map.empty"
  "jobID (coord (fresh_app b addr sz i e h)) = 0" "backend (coord (fresh_app b addr sz i e h)) = NewMemoryStore"
  "mq_obj (coord (fresh_app b addr sz i e h)) = NewMemoryQueue sz" "serverNonce (coord (fresh_app b addr sz i e h)) = []"
  "srv (coord (fresh_app b addr sz i e h)) = tcp_pusher"
  "state (coord (fresh_app b addr sz i e h)) = (if b then Some memory_state else None)"
  "expireAfter (coord (fresh_app b addr sz i e h)) = e"
  by (simp_all add: fresh_app_def NewAppServer_def Let_def NewCoordinator_def)

lemma new_sessions: "sessions (coord (NewAppServer addr st stt b m mo interval expire hw)) = Map.empty"
  by (simp add: NewAppServer_def Let_def NewCoordinator_def)

lemma books_inv_run: "app_run a tr b \<Longrightarrow> a = fresh_app ws addr sz i e h \<Longrightarrow> LOutside \<notin> set tr \<Longrightarrow> books_inv tr b"
proof (induction rule: app_run.induct)
  case (start a)
  then show ?case by (simp add: books_inv_def fresh_simps)
next
  case (snoc a tr b l b')
  then have "wired b" using wired_run [OF snoc(1)] by (simp add: fresh_wired)
  with snoc show ?case by (auto intro: books_inv_step)
qed

subsection \<open>Issued jobs\<close>

fun tick_of :: "app_label \<Rightarrow> tick list" where
  "tick_of (LTick t) = [t]"
| "tick_of _ = []"

definition ticks_of :: "app_label list \<Rightarrow> tick list" where
  "ticks_of tr = concat (map tick_of tr)"

lemma ticks_of_simps [simp]: "ticks_of [] = []" "ticks_of (tr @ [l]) = ticks_of tr @ tick_of l"
  by (simp_all add: ticks_of_def)

definition job_of :: "tick \<Rightarrow> JobRecord" where
  "job_of t = \<lparr>Nonce = EncodeToString (tk_buf t), CreatedAt = tk_now t\<rparr>"

text \<open>The numbers and the history, from a start with number \<open>j0\<close> and history \<open>h0\<close>.\<close>

definition jobs_inv :: "int \<Rightarrow> (int \<rightharpoonup> JobRecord) \<Rightarrow> tick list \<Rightarrow> ('p, 's, 'q) Coordinator \<Rightarrow> bool" where
  "jobs_inv j0 h0 ts c \<longleftrightarrow> jobID c = j0 + int (length ts)
     \<and> history c = (\<lambda>j. if j0 < j \<and> j \<le> j0 + int (length ts) then Some (job_of (ts ! (nat (j - j0) - 1))) else h0 j)"

lemma jobs_inv_rotate:
  assumes "jobs_inv j0 h0 ts c" "0 \<le> j0" "j0 + int (length ts) < MaxInt64" "jobID c' = int64 (jobID c + 1)"
    "history c' = (history c)(jobID c' \<mapsto> \<lparr>Nonce = EncodeToString (tk_buf t), CreatedAt = tk_now t\<rparr>)"
  shows "jobs_inv j0 h0 (ts @ [t]) c'"
proof -
  have j: "jobID c' = j0 + int (length ts) + 1"
    using assms(1-4) int64_Suc [of "j0 + int (length ts)"] by (simp add: jobs_inv_def)
  have "(history c)(j0 + int (length ts) + 1 \<mapsto> job_of t) =
    (\<lambda>j. if j0 < j \<and> j \<le> j0 + int (length (ts @ [t])) then Some (job_of ((ts @ [t]) ! (nat (j - j0) - 1))) else h0 j)"
    using assms(1) by (auto simp: jobs_inv_def fun_eq_iff nth_append)
  with assms(5) j show ?thesis by (simp add: jobs_inv_def job_of_def)
qed

lemma jobs_inv_step:
  assumes inv: "jobs_inv j0 h0 (ticks_of tr) (coord a)" and f: "filed_sessions (sessions (coord a))" and st: "app_step a l b"
    and bound: "0 \<le> j0" "j0 + int (length (ticks_of (tr @ [l]))) \<le> MaxInt64" and l: "l \<noteq> LRestore"
  shows "jobs_inv j0 h0 (ticks_of (tr @ [l])) (coord b)"
  using st
proof (cases rule: app_step.cases)
  case (ticked t c')
  from coord_run_Ret [OF ticked(3-5) f] have "jobID c' = int64 (jobID (coord a) + 1)"
    "history c' = (history (coord a))(jobID c' \<mapsto> \<lparr>Nonce = EncodeToString (tk_buf t), CreatedAt = tk_now t\<rparr>)" by auto
  from jobs_inv_rotate [OF inv bound(1) _ this] bound(2) ticked(1,2) show ?thesis by simp
next
  case (opened now timeout rnd cn i cn' c')
  then obtain u s where "c' = put_session i s (coord a)" by (metis Accept_Inr restore_user_session)
  with opened inv show ?thesis by (simp add: jobs_inv_def server_simps)
next
  case (accepted i p ts now c' s)
  obtain n where "history c' = history (coord a)" "jobID c' = jobID (coord a)"
    by (rule accept_session [OF accepted(3,4)])
  with inv accepted(1,2) show ?thesis by (simp add: jobs_inv_def)
next
  case (rejected i p ts now e c')
  from rejected_effect [OF rejected(3)] obtain m where "c' = (coord a)\<lparr>sessions := m\<rparr>" by (auto simp: only_session_def)
  with rejected inv show ?thesis by (simp add: jobs_inv_def)
next
  case counted
  with consume_frame [OF counted(2)] inv show ?thesis by (simp add: jobs_inv_def)
next
  case (left i e c')
  with inv show ?thesis by (auto simp: jobs_inv_def Disconnect_def UnregisterSession_def)
qed (use inv l in \<open>simp_all add: jobs_inv_def\<close>)

lemma jobs_inv_run:
  "app_run a tr b \<Longrightarrow> filed_sessions (sessions (coord a)) \<Longrightarrow> 0 \<le> jobID (coord a) \<Longrightarrow>
   jobID (coord a) + int (length (ticks_of tr)) \<le> MaxInt64 \<Longrightarrow> LRestore \<notin> set tr \<Longrightarrow>
   jobs_inv (jobID (coord a)) (history (coord a)) (ticks_of tr) (coord b)"
proof (induction rule: app_run.induct)
  case (start a)
  then show ?case by (auto simp: jobs_inv_def fun_eq_iff)
next
  case (snoc a tr b l b')
  have "jobID (coord a) + int (length (ticks_of tr)) \<le> MaxInt64" using snoc.prems(3) by simp
  with snoc show ?case by (intro jobs_inv_step [OF snoc.IH filed_run [OF snoc(1)]]) auto
qed

subsection \<open>Issued nonces\<close>

definition issued :: "app_label list \<Rightarrow> string set" where
  "issued tr = insert [] (EncodeToString ` tk_buf ` set (ticks_of tr))"

lemma issued_mono: "n \<in> issued tr \<Longrightarrow> n \<in> issued (tr @ [l])"
  by (auto simp: issued_def)

definition store_nonces :: "MemoryStore \<Rightarrow> string set" where
  "store_nonces s = us_latestNonce ` ran (userStates s) \<union> Nonce ` ran (jobHist s)"

text \<open>Every server nonce the server holds is one it has issued, or the empty one of a fresh session.\<close>

definition nonce_inv :: "app_label list \<Rightarrow> mem_app \<Rightarrow> bool" where
  "nonce_inv tr a \<longleftrightarrow> Nonce ` ran (history (coord a)) \<subseteq> issued tr
     \<and> LatestServerNonce ` ran (sessions (coord a)) \<subseteq> issued tr
     \<and> store_nonces (backend (coord a)) \<subseteq> issued tr"

definition vouched :: "string set \<Rightarrow> app_label \<Rightarrow> bool" where
  "vouched N l \<longleftrightarrow> (\<forall>i p u t. l = LAccept i p u t \<longrightarrow>
     (\<exists>n \<in> N. EqualFold (submit_hash n (sub_ClientNonce p)) (sub_Result p)))"

lemma nonce_invI:
  assumes "\<And>j r. history (coord b) j = Some r \<Longrightarrow> Nonce r \<in> issued tr"
    and "\<And>i s. sessions (coord b) i = Some s \<Longrightarrow> LatestServerNonce s \<in> issued tr"
    and "store_nonces (backend (coord b)) \<subseteq> issued tr"
  shows "nonce_inv tr b"
  using assms by (auto simp: nonce_inv_def ran_def)

lemma nonce_invD:
  assumes "nonce_inv tr a"
  shows "history (coord a) j = Some r \<Longrightarrow> Nonce r \<in> issued (tr @ [l])"
    and "sessions (coord a) i = Some s \<Longrightarrow> LatestServerNonce s \<in> issued (tr @ [l])"
    and "store_nonces (backend (coord a)) \<subseteq> issued (tr @ [l])"
  using assms unfolding nonce_inv_def by (blast intro: issued_mono ranI)+

lemma issued_Nil [simp]: "[] \<in> issued tr"
  by (simp add: issued_def)

lemma store_nonces_frame [simp]:
  "store_nonces (snd (mem_SaveUsedNonce u j n s)) = store_nonces s"
  "store_nonces (snd (mem_Increment u t s)) = store_nonces s"
  by (simp_all add: store_nonces_def mem_state_defs mem_Increment_def)

lemma store_nonces_save: "store_nonces (snd (mem_SaveUserState u j n t s)) \<subseteq> insert n (store_nonces s)"
  by (auto simp: store_nonces_def mem_state_defs ran_def split: if_splits)

lemma store_nonces_save_job: "store_nonces (snd (mem_SaveJob j n t s)) \<subseteq> insert n (store_nonces s)"
  by (auto simp: store_nonces_def mem_state_defs ran_def split: if_splits)

lemma restore_nonce:
  assumes "state c = None \<or> state c = Some memory_state" "history (restore now c) j = Some r"
  shows "history c j = Some r \<or> Nonce r \<in> insert [] (store_nonces (backend c))"
  using assms
  by (auto simp: restore_def Let_def mem_LoadLatestJob_def mem_LoadJobHistory_def map_get_def store_nonces_def ran_def
      zero_JobRecord_def map_add_def split: option.splits if_splits)

lemma LoadUserState_nonce: "mem_LoadUserState u s = Inr (j, n, t) \<Longrightarrow> n = [] \<or> n \<in> store_nonces s"
  by (auto simp: mem_LoadUserState_def Let_def map_get_def store_nonces_def ran_def split: option.splits)

lemma opened_nonce:
  assumes "wired a" "sessions (restore_user i u (RegisterSession i u (coord a))) k = Some s'"
  shows "LatestServerNonce s' \<in> insert [] (store_nonces (backend (coord a))) \<or> sessions (coord a) k = Some s'"
proof -
  have "state (coord a) = None \<or> state (coord a) = Some memory_state" using assms(1) by (simp add: wired_def)
  moreover obtain j n t where l: "mem_LoadUserState u (backend (coord a)) = Inr (j, n, t)"
    by (simp add: mem_LoadUserState_def Let_def)
  ultimately show ?thesis using assms(2) LoadUserState_nonce [OF l]
    by (auto simp: restore_user_def RegisterSession_def NewSession_def put_session_def split: if_splits)
qed

lemma save_accepted_nonces:
  assumes "state c = None \<or> state c = Some memory_state"
  shows "store_nonces (backend (save_accepted s p c)) \<subseteq> insert (LatestServerNonce s) (store_nonces (backend c))"
  using assms store_nonces_save by (fastforce simp: save_accepted_def Let_def)

lemma accepted_nonce_source:
  assumes "nonce_inv tr a" "sessions (coord a) i = Some s" "job_nonce s j (coord a) = Some n"
  shows "n \<in> issued (tr @ [l])"
  using assms(2,3) nonce_invD [OF assms(1)] by (auto simp: job_nonce_def split: if_splits)

lemma nonce_inv_step:
  assumes inv: "nonce_inv tr a" and w: "wired a" and st: "app_step a l b" and l: "l \<noteq> LOutside"
  shows "nonce_inv (tr @ [l]) b \<and> vouched (issued (tr @ [l])) l"
  using st
proof (cases rule: app_step.cases)
  case (ticked t c')
  have f: "filed_sessions (sessions (coord a))" using w by (simp add: wired_def)
  have s: "state (coord a) = None \<or> state (coord a) = Some memory_state" using w by (simp add: wired_def)
  from coord_run_Ret [OF ticked(3-5) f] have c:
    "history c' = (history (coord a))(jobID c' \<mapsto> \<lparr>Nonce = EncodeToString (tk_buf t), CreatedAt = tk_now t\<rparr>)"
    "sessions c' = (\<lambda>i. map_option (on_job (jobID c') (EncodeToString (tk_buf t))) (sessions (coord a) i))"
    "backend c' = backend (rotateJob (tk_buf t) (tk_now t) (tk_now' t) (coord a))" by auto
  have "store_nonces (backend c') \<subseteq> insert (EncodeToString (tk_buf t)) (store_nonces (backend (coord a)))"
    using s store_nonces_save_job unfolding c(3) by (auto simp: rotateJob_def Let_def dest!: subsetD [OF store_nonces_save_job])
  moreover have i: "EncodeToString (tk_buf t) \<in> issued (tr @ [l])" using ticked(1) by (simp add: issued_def)
  ultimately have "store_nonces (backend c') \<subseteq> issued (tr @ [l])" using nonce_invD(3) [OF inv, of l] by blast
  then have "nonce_inv (tr @ [l]) b"
    using ticked(2) c i nonce_invD(1,2) [OF inv] by (intro nonce_invI) (auto simp: on_job_def split: if_splits)
  with ticked(1) show ?thesis by (simp add: vouched_def)
next
  case (opened now timeout rnd cn i cn' c')
  then obtain u where u: "c' = restore_user i u (RegisterSession i u (coord a))" by (metis Accept_Inr)
  obtain s where "c' = put_session i s (coord a)" using u by (metis restore_user_session)
  then have "history c' = history (coord a)" "backend c' = backend (coord a)" by (simp_all add: server_simps)
  moreover have "LatestServerNonce s' \<in> issued (tr @ [l])" if "sessions c' k = Some s'" for k s'
    using opened_nonce [OF w that [unfolded u]] nonce_invD(2) [OF inv, of k s' l]
      subsetD [OF nonce_invD(3) [OF inv, of l]] by auto
  ultimately have "nonce_inv (tr @ [l]) b"
    unfolding opened(2) using nonce_invD [OF inv] by (intro nonce_invI) simp_all
  with opened(1) show ?thesis by (simp add: vouched_def)
next
  case (accepted i p ts now c' s)
  obtain n where n: "job_nonce s (sub_JobID p) (coord a) = Some n" "EqualFold (submit_hash n (sub_ClientNonce p)) (sub_Result p)"
    "sessions c' = (sessions (coord a))(i \<mapsto> accepted_session s p n now)" "history c' = history (coord a)"
    "backend c' = backend (save_accepted (accepted_session s p n now) p (coord a))"
    by (rule accept_fields [OF w accepted(3,4)])
  have i: "n \<in> issued (tr @ [l])" by (rule accepted_nonce_source [OF inv accepted(4) n(1)])
  have "LatestServerNonce (accepted_session s p n now) = n" by (simp add: accepted_session_def)
  with save_accepted_nonces [of "coord a" "accepted_session s p n now" p] w n(5)
  have "store_nonces (backend c') \<subseteq> insert n (store_nonces (backend (coord a)))" by (simp add: wired_def)
  with i nonce_invD(3) [OF inv, of l] have "store_nonces (backend c') \<subseteq> issued (tr @ [l])" by blast
  with i n(3,4) \<open>LatestServerNonce _ = n\<close> nonce_invD [OF inv] have "nonce_inv (tr @ [l]) b"
    unfolding accepted(2) by (intro nonce_invI) (simp_all split: if_splits)
  with i n(2) accepted(1) show ?thesis by (auto simp: vouched_def)
next
  case (rejected i p ts now e c')
  from rejected_effect [OF rejected(3)] obtain m where m: "c' = (coord a)\<lparr>sessions := m\<rparr>" by (auto simp: only_session_def)
  have "LatestServerNonce s' \<in> issued (tr @ [l])" if "sessions c' k = Some s'" for k s'
    using rejected_nonce [OF rejected(3) that] nonce_invD [OF inv] by auto
  then have "nonce_inv (tr @ [l]) b"
    unfolding rejected(2) using m nonce_invD [OF inv] by (intro nonce_invI) auto
  with rejected(1) show ?thesis by (simp add: vouched_def)
next
  case counted
  obtain e :: SubmitEvent and q where b: "b = a\<lparr>coord := (coord a)\<lparr>mq_obj := q, backend := snd (mem_Increment (ev_Username e) (ev_Time e) (backend (coord a)))\<rparr>\<rparr>"
    by (rule count_fields [OF w counted(2)]) blast
  have "nonce_inv (tr @ [l]) b" unfolding b using nonce_invD [OF inv] by (intro nonce_invI) auto
  with counted(1) show ?thesis by (simp add: vouched_def)
next
  case (left i e c')
  then have b: "b = a\<lparr>coord := (coord a)\<lparr>sessions := (sessions (coord a))(i := None)\<rparr>\<rparr>"
    by (simp add: Disconnect_def UnregisterSession_def)
  have "nonce_inv (tr @ [l]) b"
    unfolding b using nonce_invD [OF inv] by (intro nonce_invI) (simp_all split: if_splits)
  with left(1) show ?thesis by (simp add: vouched_def)
next
  case (wire s)
  have "nonce_inv (tr @ [l]) b" unfolding wire(2) using nonce_invD [OF inv] by (intro nonce_invI) simp_all
  with wire(1) show ?thesis by (simp add: vouched_def)
next
  case (restored now)
  have "state (coord a) = None \<or> state (coord a) = Some memory_state" using w by (simp add: wired_def)
  note r = restore_nonce [OF this]
  have "Nonce r \<in> issued (tr @ [l])" if "history (restore now (coord a)) j = Some r" for j r
    using r [OF that] nonce_invD(1) [OF inv, of j r l] subsetD [OF nonce_invD(3) [OF inv, of l]] by auto
  then have "nonce_inv (tr @ [l]) b"
    unfolding restored(2) using nonce_invD(2,3) [OF inv] by (intro nonce_invI) simp_all
  with restored(1) show ?thesis by (simp add: vouched_def)
qed (use l in simp)

lemma vouched_mono: "vouched (issued tr) x \<Longrightarrow> vouched (issued (tr @ [l])) x"
  unfolding vouched_def using issued_mono by blast

lemma nonce_inv_run:
  "app_run a tr b \<Longrightarrow> a = fresh_app ws addr sz i e h \<Longrightarrow> LOutside \<notin> set tr \<Longrightarrow> nonce_inv tr b \<and> list_all (vouched (issued tr)) tr"
proof (induction rule: app_run.induct)
  case (start a)
  then show ?case by (auto simp: nonce_inv_def fresh_simps store_nonces_def NewMemoryStore_def)
next
  case (snoc a tr b l b')
  then have "wired b" using wired_run [OF snoc(1)] by (simp add: fresh_wired)
  with nonce_inv_step [OF _ this snoc(2), of tr] snoc show ?case
    by (auto simp: list_all_iff intro: vouched_mono)
qed

end
