(* ===== verification/Tcp_Client.thy ===== *)
theory Tcp_Client
  imports Channel
begin

text \<open>
  \<open>tcp/client.go\<close>: the client side of a connection, with its state flag (0 or 1), its
  \<open>sync.Once\<close> for closing and its connection, nil until \<open>Connect\<close> succeeds. A method that
  dereferences the nil connection panics. The dialer is a function, the result of
  \<open>url.Parse\<close> an argument.
\<close>

subsection \<open>Operations\<close>

record ClientOptions =
  Heartbeat :: duration
  ReadWait :: duration
  WriteWait :: duration

record TcpClient =
  tc_once :: bool
  tc_id :: string
  tc_name :: string
  tc_conn :: "conn option"
  tc_state :: int
  tc_options :: ClientOptions

record DialerContext =
  dc_Id :: string
  dc_Name :: string
  dc_Address :: string
  dc_Timeout :: duration

type_synonym Dialer = "DialerContext \<Rightarrow> error + conn option"

definition tcp_NewClient :: "string \<Rightarrow> string \<Rightarrow> ClientOptions \<Rightarrow> TcpClient" where
  "tcp_NewClient i name opts =
     (let o1 = (if WriteWait opts = 0 then opts\<lparr>WriteWait := DefaultWriteWait\<rparr> else opts);
          o2 = (if ReadWait o1 = 0 then o1\<lparr>ReadWait := DefaultReadWait\<rparr> else o1);
          o3 = (if Heartbeat o2 = 0 then o2\<lparr>Heartbeat := DefaultHeartbeat\<rparr> else o2)
      in \<lparr>tc_once = False, tc_id = i, tc_name = name, tc_conn = None, tc_state = 0, tc_options = o3\<rparr>)"

definition CompareAndSwap :: "int \<Rightarrow> int \<Rightarrow> TcpClient \<Rightarrow> bool \<times> TcpClient" where
  "CompareAndSwap old new c = (if tc_state c = old then (True, c\<lparr>tc_state := new\<rparr>) else (False, c))"

text \<open>The boolean says whether the heartbeat goroutine was started.\<close>

definition Connect :: "error option \<Rightarrow> Dialer \<Rightarrow> string \<Rightarrow> TcpClient \<Rightarrow> error option \<times> bool \<times> TcpClient" where
  "Connect url_err dial addr c =
     (case url_err of
        Some err \<Rightarrow> (Some err, False, c)
      | None \<Rightarrow>
          (case CompareAndSwap 0 1 c of
             (False, c1) \<Rightarrow> (Some (ErrorMsg ''client has connected''), False, c1)
           | (True, c1) \<Rightarrow>
               (case dial \<lparr>dc_Id = tc_id c, dc_Name = tc_name c, dc_Address = addr, dc_Timeout = DefaultLoginWait\<rparr> of
                  Inl err \<Rightarrow> (Some err, False, snd (CompareAndSwap 1 0 c1))
                | Inr None \<Rightarrow> (Some (ErrorMsg ''conn is nil''), False, c1)
                | Inr (Some rawconn) \<Rightarrow> (None, Heartbeat (tc_options c) > 0, c1\<lparr>tc_conn := Some rawconn\<rparr>))))"

definition Send :: "go_time \<Rightarrow> bytes \<Rightarrow> TcpClient \<Rightarrow> (error option \<times> TcpClient) outcome" where
  "Send now payload c =
     (if tc_state c = 0 then Ret (Some (ErrorMsg ''connection is nil''), c)
      else case tc_conn c of
          None \<Rightarrow> Panic
        | Some cn \<Rightarrow>
            (case SetWriteDeadline (time_add now (WriteWait (tc_options c))) cn of
               (Some err, cn1) \<Rightarrow> Ret (Some err, c\<lparr>tc_conn := Some cn1\<rparr>)
             | (None, cn1) \<Rightarrow>
                 (case conn_WriteFrame OpBinary payload cn1 of (e, cn2) \<Rightarrow> Ret (e, c\<lparr>tc_conn := Some cn2\<rparr>))))"

definition tcp_Close :: "TcpClient \<Rightarrow> TcpClient" where
  "tcp_Close c =
     (if tc_once c then c
      else case tc_conn c of
          None \<Rightarrow> c\<lparr>tc_once := True\<rparr>
        | Some cn \<Rightarrow>
            let cn1 = snd (conn_WriteFrame OpClose [] cn); cn2 = snd (conn_Close cn1)
            in snd (CompareAndSwap 1 0 (c\<lparr>tc_once := True, tc_conn := Some cn2\<rparr>)))"

definition Read :: "go_time \<Rightarrow> TcpClient \<Rightarrow> (error + Frame) \<times> TcpClient" where
  "Read now c =
     (case tc_conn c of
        None \<Rightarrow> (Inl (ErrorMsg ''connection is nil''), c)
      | Some cn \<Rightarrow>
          let cn1 = (if Heartbeat (tc_options c) > 0
                     then snd (SetReadDeadline (time_add now (ReadWait (tc_options c))) cn) else cn)
          in (case conn_ReadFrame cn1 of
                (Inl err, cn2) \<Rightarrow> (Inl err, c\<lparr>tc_conn := Some cn2\<rparr>)
              | (Inr frame, cn2) \<Rightarrow>
                  if GetOpCode frame = OpClose
                  then (Inl (ErrorMsg ''remote side close the channel''), c\<lparr>tc_conn := Some cn2\<rparr>)
                  else (Inr frame, c\<lparr>tc_conn := Some cn2\<rparr>)))"

definition ping :: "go_time \<Rightarrow> TcpClient \<Rightarrow> (error option \<times> TcpClient) outcome" where
  "ping now c =
     (case tc_conn c of
        None \<Rightarrow> Panic
      | Some cn \<Rightarrow>
          (case SetWriteDeadline (time_add now (WriteWait (tc_options c))) cn of
             (Some err, cn1) \<Rightarrow> Ret (Some err, c\<lparr>tc_conn := Some cn1\<rparr>)
           | (None, cn1) \<Rightarrow>
               (case conn_WriteFrame OpPing [] cn1 of (e, cn2) \<Rightarrow> Ret (e, c\<lparr>tc_conn := Some cn2\<rparr>))))"

text \<open>The heartbeat loop on a sequence of ticks: it returns at the first ping that fails.\<close>

fun heartbealoop :: "go_time list \<Rightarrow> TcpClient \<Rightarrow> (error option \<times> TcpClient) outcome" where
  "heartbealoop [] c = Ret (None, c)"
| "heartbealoop (t # ts) c =
     (case ping t c of
        Ret (Some err, c') \<Rightarrow> Ret (Some err, c')
      | Ret (None, c') \<Rightarrow> heartbealoop ts c'
      | Block \<Rightarrow> Block
      | Panic \<Rightarrow> Panic)"

subsection \<open>Connected clients\<close>

definition connected :: "TcpClient \<Rightarrow> bool" where
  "connected c \<longleftrightarrow> tc_state c = 1 \<and> (\<exists>cn. tc_conn c = Some cn \<and> working cn)"

definition sent :: "TcpClient \<Rightarrow> bytes" where
  "sent c = (case tc_conn c of None \<Rightarrow> [] | Some cn \<Rightarrow> wbuf (c_out cn))"

text \<open>On a connected client a send is one binary frame on the wire.\<close>

lemma Send_connected:
  assumes "connected c"
  shows "\<exists>c'. Send now payload c = Ret (None, c') \<and> connected c'
    \<and> sent c' = sent c @ enc_frame \<lparr>OpCode = OpBinary, Payload = payload\<rparr>
    \<and> tc_options c' = tc_options c \<and> tc_once c' = tc_once c"
  using assms
  by (auto simp: connected_def Send_def SetWriteDeadline_def conn_WriteFrame_def working_def WriteFrame_ok sent_def)

lemma ping_connected:
  assumes "connected c"
  shows "\<exists>c'. ping now c = Ret (None, c') \<and> connected c'
    \<and> sent c' = sent c @ enc_frame \<lparr>OpCode = OpPing, Payload = []\<rparr>"
  using assms
  by (auto simp: connected_def ping_def SetWriteDeadline_def conn_WriteFrame_def working_def WriteFrame_ok sent_def)

text \<open>
  The life of a client. A successful \<open>Connect\<close> makes it connected; a second \<open>Connect\<close> is
  refused and changes nothing; a failed dial puts the state back, so that \<open>Connect\<close> can be
  tried again and, until it succeeds, \<open>Send\<close> reports an error; after \<open>Close\<close> the close frame
  is on the wire, the connection is closed and \<open>Send\<close> reports an error again.
\<close>

theorem client_lifecycle:
  assumes "tc_state c = 0" and "\<not> tc_once c"
    and "dial \<lparr>dc_Id = tc_id c, dc_Name = tc_name c, dc_Address = addr, dc_Timeout = DefaultLoginWait\<rparr> = Inr (Some cn)"
    and "working cn" and "dial' \<lparr>dc_Id = tc_id c, dc_Name = tc_name c, dc_Address = addr, dc_Timeout = DefaultLoginWait\<rparr> = Inl err"
  shows "\<exists>c1. Connect None dial addr c = (None, Heartbeat (tc_options c) > 0, c1) \<and> connected c1
    \<and> Connect None dial2 addr c1 = (Some (ErrorMsg ''client has connected''), False, c1)
    \<and> Connect None dial' addr c = (Some err, False, c)
    \<and> Send now payload c = Ret (Some (ErrorMsg ''connection is nil''), c)
    \<and> sent (tcp_Close c1) = sent c1 @ enc_frame \<lparr>OpCode = OpClose, Payload = []\<rparr>
    \<and> Send now payload (tcp_Close c1) = Ret (Some (ErrorMsg ''connection is nil''), tcp_Close c1)
    \<and> tcp_Close (tcp_Close c1) = tcp_Close c1"
  using assms
  by (auto simp: Connect_def CompareAndSwap_def connected_def Send_def tcp_Close_def sent_def Let_def
      conn_WriteFrame_def conn_Close_def working_def WriteFrame_ok)

theorem client_lifecycle_witness:
  "\<exists>c1. Connect None (\<lambda>_. Inr (Some open_conn)) ''a:1'' (tcp_NewClient ''u'' ''client'' \<lparr>Heartbeat = 0, ReadWait = 0, WriteWait = 0\<rparr>)
      = (None, True, c1)
    \<and> Send zero_time [1] (tcp_Close c1) = Ret (Some (ErrorMsg ''connection is nil''), tcp_Close c1)"
proof -
  let ?c = "tcp_NewClient ''u'' ''client'' \<lparr>Heartbeat = 0, ReadWait = 0, WriteWait = 0\<rparr>"
  have "tc_state ?c = 0" "\<not> tc_once ?c" "Heartbeat (tc_options ?c) > 0"
    by (simp_all add: tcp_NewClient_def Let_def DefaultHeartbeat_def Second_def)
  then show ?thesis
    using client_lifecycle [of ?c "\<lambda>_. Inr (Some open_conn)" "''a:1''" open_conn "\<lambda>_. Inl EOF" EOF "\<lambda>_. Inl EOF" zero_time "[1]"]
    by auto
qed

text \<open>
  A dialer that returns neither a connection nor an error leaves the client in the
  connected state without a connection: \<open>Connect\<close> is refused from then on and \<open>Send\<close>
  dereferences nil. And \<open>Close\<close> before \<open>Connect\<close> uses up the \<open>Once\<close>: a connection made
  afterwards can no longer be closed.
\<close>

theorem nil_dial_wedges_client:
  assumes "tc_state c = 0" and "tc_conn c = None"
    and "dial \<lparr>dc_Id = tc_id c, dc_Name = tc_name c, dc_Address = addr, dc_Timeout = DefaultLoginWait\<rparr> = Inr None"
    and "dial' \<lparr>dc_Id = tc_id c, dc_Name = tc_name c, dc_Address = addr, dc_Timeout = DefaultLoginWait\<rparr> = Inr (Some cn)"
  shows "\<exists>c1. Connect None dial addr c = (Some (ErrorMsg ''conn is nil''), False, c1)
      \<and> Connect None dial' addr c1 = (Some (ErrorMsg ''client has connected''), False, c1)
      \<and> Send now payload c1 = Panic
    \<and> (\<exists>c2 hb. Connect None dial' addr (tcp_Close c) = (None, hb, c2) \<and> tcp_Close c2 = c2 \<and> tc_conn c2 = Some cn)"
  using assms
  by (auto simp: Connect_def CompareAndSwap_def Send_def tcp_Close_def)

theorem nil_dial_wedges_client_witness:
  "\<exists>c1. Connect None (\<lambda>_. Inr None) ''a:1'' (tcp_NewClient ''u'' ''client'' \<lparr>Heartbeat = 0, ReadWait = 0, WriteWait = 0\<rparr>)
      = (Some (ErrorMsg ''conn is nil''), False, c1) \<and> Send zero_time [1] c1 = Panic"
  using nil_dial_wedges_client [of "tcp_NewClient ''u'' ''client'' \<lparr>Heartbeat = 0, ReadWait = 0, WriteWait = 0\<rparr>"
      "\<lambda>_. Inr None" "''a:1''" "\<lambda>_. Inr (Some open_conn)" open_conn zero_time "[1]"]
  by (auto simp: tcp_NewClient_def Let_def)

end
