(* ===== verification/App_Client.thy ===== *)
theory App_Client
  imports Tcp_Client Coordination Sha256
begin

text \<open>
  \<open>app/client/client.go\<close>: the mining client. \<open>Run\<close> is a loop over the events its \<open>select\<close>
  receives: a frame from the reading goroutine, a tick of one of the two tickers, a read
  error or the end of the context. Each event that may submit carries the random bytes of its
  nonce and its readings of the clock.
\<close>

subsection \<open>Operations\<close>

record Client =
  cli :: TcpClient
  username :: string
  cl_jobID :: int
  cl_serverNonce :: string
  nextID :: int

definition NewClient :: "string \<Rightarrow> Client" where
  "NewClient u = \<lparr>cli = tcp_NewClient u ''client'' \<lparr>Heartbeat = 0, ReadWait = 0, WriteWait = 0\<rparr>,
     username = u, cl_jobID = 0, cl_serverNonce = [], nextID = 1\<rparr>"

definition randNonce :: "bytes \<Rightarrow> string" where
  "randNonce b = EncodeToString b"

definition computeSHA256Hex :: "string \<Rightarrow> string" where
  "computeSHA256Hex s = EncodeToString (Sum256 (bytes_of s))"

text \<open>\<open>data, _ := protocol.Encode(req)\<close>: nil when the encoder fails.\<close>

definition encoded :: "Request \<Rightarrow> bytes" where
  "encoded r = (case Encode_Request r of Inr d \<Rightarrow> d | Inl _ \<Rightarrow> [])"

definition submit_request :: "int \<Rightarrow> int \<Rightarrow> string \<Rightarrow> string \<Rightarrow> Request" where
  "submit_request i j server_nonce client_nonce =
     \<lparr>req_ID = Some i, req_Method = ''submit'',
      req_Params = Some (SubmitParams_json \<lparr>sub_JobID = j, sub_ClientNonce = client_nonce,
        sub_Result = computeSHA256Hex (server_nonce @ client_nonce)\<rparr>)\<rparr>"

text \<open>The local variable \<open>lastSubmit\<close> of \<open>Run\<close> together with the client.\<close>

record RunState =
  rs_client :: Client
  lastSubmit :: go_time

record draw =
  dr_buf :: bytes
  dr_send :: go_time
  dr_last :: go_time

definition submit :: "draw \<Rightarrow> RunState \<Rightarrow> RunState outcome" where
  "submit d rs =
     (let c = rs_client rs; clientNonce = randNonce (dr_buf d); i = nextID c;
          dat = encoded (submit_request i (cl_jobID c) (cl_serverNonce c) clientNonce)
      in case Send (dr_send d) dat (cli c) of
           Ret (_, t) \<Rightarrow> Ret (rs\<lparr>rs_client := c\<lparr>cli := t, nextID := int64 (i + 1)\<rparr>, lastSubmit := dr_last d\<rparr>)
         | Block \<Rightarrow> Block
         | Panic \<Rightarrow> Panic)"

definition on_frame :: "draw \<Rightarrow> Frame \<Rightarrow> RunState \<Rightarrow> RunState outcome" where
  "on_frame d frame rs =
     (if GetOpCode frame \<noteq> OpBinary then Ret rs
      else case Decode_Response (GetPayload frame) of (resp, err) \<Rightarrow>
        if err = None \<and> resp_ID resp \<noteq> 0 then Ret rs
        else case Decode_Request (GetPayload frame) of
            (_, Some _) \<Rightarrow> Ret rs
          | (msg, None) \<Rightarrow>
              if req_Method msg = ''job''
              then let p = fst (Decode_JobParams (raw_params msg));
                       c = rs_client rs
                   in submit d (rs\<lparr>rs_client := c\<lparr>cl_jobID := job_JobID p, cl_serverNonce := job_ServerNonce p\<rparr>\<rparr>)
              else Ret rs)"

definition on_tick :: "go_time \<Rightarrow> draw \<Rightarrow> RunState \<Rightarrow> RunState outcome" where
  "on_tick now d rs =
     (if cl_serverNonce (rs_client rs) = [] then Ret rs
      else if \<not> IsZero (lastSubmit rs) \<and> time_sub now (lastSubmit rs) < Second then Ret rs
      else submit d rs)"

definition on_minute :: "go_time \<Rightarrow> draw \<Rightarrow> RunState \<Rightarrow> RunState outcome" where
  "on_minute now d rs =
     (if cl_serverNonce (rs_client rs) = [] then Ret rs
      else if time_sub now (lastSubmit rs) \<ge> Minute then submit d rs
      else Ret rs)"

datatype run_event =
    FrameIn draw Frame
  | Tick go_time draw
  | MinuteTick go_time draw
  | ReadFailed error
  | CtxDone error

fun run_loop :: "run_event list \<Rightarrow> RunState \<Rightarrow> (error option \<times> RunState) outcome" where
  "run_loop [] rs = Ret (None, rs)"
| "run_loop (FrameIn d f # es) rs =
     (case on_frame d f rs of Ret rs' \<Rightarrow> run_loop es rs' | Block \<Rightarrow> Block | Panic \<Rightarrow> Panic)"
| "run_loop (Tick now d # es) rs =
     (case on_tick now d rs of Ret rs' \<Rightarrow> run_loop es rs' | Block \<Rightarrow> Block | Panic \<Rightarrow> Panic)"
| "run_loop (MinuteTick now d # es) rs =
     (case on_minute now d rs of Ret rs' \<Rightarrow> run_loop es rs' | Block \<Rightarrow> Block | Panic \<Rightarrow> Panic)"
| "run_loop (ReadFailed e # es) rs = Ret (Some e, rs)"
| "run_loop (CtxDone e # es) rs = Ret (Some e, rs)"

definition Run :: "run_event list \<Rightarrow> Client \<Rightarrow> (error option \<times> RunState) outcome" where
  "Run es c = run_loop es \<lparr>rs_client = c, lastSubmit = zero_time\<rparr>"

definition cl_Connect :: "error option \<Rightarrow> Dialer \<Rightarrow> string \<Rightarrow> Client \<Rightarrow> error option \<times> Client" where
  "cl_Connect url_err dial addr c =
     (case Connect url_err dial addr (cli c) of (e, _, t) \<Rightarrow> (e, c\<lparr>cli := t\<rparr>))"

definition cl_Close :: "Client \<Rightarrow> Client" where
  "cl_Close c = c\<lparr>cli := tcp_Close (cli c)\<rparr>"

text \<open>The dialer: connect (\<open>net_dial\<close>), then send the authorize request.\<close>

definition authorize_request :: "string \<Rightarrow> Request" where
  "authorize_request u = \<lparr>req_ID = Some 1, req_Method = ''authorize'',
     req_Params = Some (AuthorizeParams_json \<lparr>auth_Username = u\<rparr>)\<rparr>"

definition DialAndHandshake :: "(string \<Rightarrow> duration \<Rightarrow> error + conn) \<Rightarrow> string \<Rightarrow> Dialer" where
  "DialAndHandshake net_dial u ctx =
     (case net_dial (dc_Address ctx) (dc_Timeout ctx) of
        Inl err \<Rightarrow> Inl err
      | Inr cn \<Rightarrow> Inr (Some (snd (conn_WriteFrame OpBinary (encoded (authorize_request u)) cn))))"

subsection \<open>What the client sends decodes\<close>

lemma encoded_decodes:
  assumes "ok_Request r"
  shows "Decode_Request (encoded r) = (r, None)"
proof -
  from assms obtain t where "req_Params r = Some t" "clean_raw t" by (auto simp: ok_Request_def)
  from Encode_Request_clean [OF this] request_msg.dec_enc [OF assms] show ?thesis
    by (simp add: encoded_def Decode_encoded_def)
qed

lemma ok_submit_request:
  assumes "is_int64 i" "is_int64 j" "valid_utf8 n"
  shows "ok_Request (submit_request i j sn n)"
  unfolding submit_request_def
proof (rule ok_Request_params)
  show "clean_raw (SubmitParams_json \<lparr>sub_JobID = j, sub_ClientNonce = n, sub_Result = computeSHA256Hex (sn @ n)\<rparr>)"
    using assms by (intro clean_params) (simp add: ok_defs computeSHA256Hex_def valid_utf8_hex)
qed (use assms in simp_all)

lemma submit_params_decode:
  assumes "is_int64 j" "valid_utf8 n"
  shows "Decode_SubmitParams (raw_params (submit_request i j sn n))
    = (\<lparr>sub_JobID = j, sub_ClientNonce = n, sub_Result = computeSHA256Hex (sn @ n)\<rparr>, None)"
  using assms submit_msg.dec_enc [of "\<lparr>sub_JobID = j, sub_ClientNonce = n, sub_Result = computeSHA256Hex (sn @ n)\<rparr>"]
  by (simp add: raw_params_def submit_request_def ok_defs computeSHA256Hex_def valid_utf8_hex)

lemma ok_authorize_request: "valid_utf8 u \<Longrightarrow> ok_Request (authorize_request u)"
  unfolding authorize_request_def
  by (rule ok_Request_params) (simp_all add: clean_params ok_defs is_int64_def MinInt64_def MaxInt64_def)

lemma authorize_params_decode:
  "valid_utf8 u \<Longrightarrow> Decode_AuthorizeParams (raw_params (authorize_request u)) = (\<lparr>auth_Username = u\<rparr>, None)"
  using auth_msg.dec_enc [of "\<lparr>auth_Username = u\<rparr>"] by (simp add: raw_params_def authorize_request_def ok_defs)

subsection \<open>A connected client's submissions\<close>

definition submission :: "Client \<Rightarrow> bytes \<Rightarrow> bytes" where
  "submission c buf = encoded (submit_request (nextID c) (cl_jobID c) (cl_serverNonce c) (randNonce buf))"

definition client_ok :: "Client \<Rightarrow> bool" where
  "client_ok c \<longleftrightarrow> connected (cli c) \<and> is_int64 (nextID c) \<and> is_int64 (cl_jobID c)"

lemma submit_connected:
  assumes "client_ok (rs_client rs)"
  shows "\<exists>t. submit d rs = Ret (rs\<lparr>rs_client := (rs_client rs)\<lparr>cli := t, nextID := int64 (nextID (rs_client rs) + 1)\<rparr>,
        lastSubmit := dr_last d\<rparr>) \<and> connected t
    \<and> sent t = sent (cli (rs_client rs)) @ enc_frame \<lparr>OpCode = OpBinary, Payload = submission (rs_client rs) (dr_buf d)\<rparr>"
  using Send_connected [of "cli (rs_client rs)" "dr_send d" "submission (rs_client rs) (dr_buf d)"] assms
  by (auto simp: submit_def Let_def client_ok_def submission_def)

subsection \<open>Properties\<close>

lemma on_frame_job:
  assumes "is_int64 j" "valid_utf8 n"
  shows "on_frame d \<lparr>OpCode = OpBinary, Payload = job_data j n\<rparr> rs
    = submit d (rs\<lparr>rs_client := (rs_client rs)\<lparr>cl_jobID := j, cl_serverNonce := n\<rparr>\<rparr>)"
  using job_msg.dec_enc [of "\<lparr>job_JobID = j, job_ServerNonce = n\<rparr>"] assms
  by (simp add: on_frame_def job_data_response job_data_request raw_params_def ok_defs)

text \<open>
  A connected client answers every job message the server broadcasts with exactly one
  frame, a submit request that decodes to its next identifier, the job's number, the drawn
  nonce and the digest of the job's nonce followed by the drawn nonce; and it keeps the job
  and the nonce for its later submissions.
\<close>

theorem job_answered:
  assumes "client_ok (rs_client rs)" and "is_int64 j" and "valid_utf8 n"
  shows "\<exists>rs' dat req. on_frame d \<lparr>OpCode = OpBinary, Payload = job_data j n\<rparr> rs = Ret rs'
    \<and> cl_jobID (rs_client rs') = j \<and> cl_serverNonce (rs_client rs') = n \<and> lastSubmit rs' = dr_last d
    \<and> nextID (rs_client rs') = int64 (nextID (rs_client rs) + 1)
    \<and> sent (cli (rs_client rs')) = sent (cli (rs_client rs)) @ enc_frame \<lparr>OpCode = OpBinary, Payload = dat\<rparr>
    \<and> Decode_Request dat = (req, None) \<and> req_ID req = Some (nextID (rs_client rs)) \<and> req_Method req = ''submit''
    \<and> Decode_SubmitParams (raw_params req) = (\<lparr>sub_JobID = j, sub_ClientNonce = randNonce (dr_buf d),
        sub_Result = EncodeToString (Sum256 (bytes_of (n @ randNonce (dr_buf d))))\<rparr>, None)"
proof -
  let ?c = "(rs_client rs)\<lparr>cl_jobID := j, cl_serverNonce := n\<rparr>"
  let ?r = "submit_request (nextID (rs_client rs)) j n (randNonce (dr_buf d))"
  have u: "valid_utf8 (randNonce (dr_buf d))" by (simp add: randNonce_def valid_utf8_hex)
  have "client_ok ?c" using assms by (simp add: client_ok_def)
  with submit_connected [of "rs\<lparr>rs_client := ?c\<rparr>" d] obtain t where
    "submit d (rs\<lparr>rs_client := ?c\<rparr>) = Ret (rs\<lparr>rs_client := ?c\<lparr>cli := t, nextID := int64 (nextID (rs_client rs) + 1)\<rparr>,
        lastSubmit := dr_last d\<rparr>)"
    "sent t = sent (cli (rs_client rs)) @ enc_frame \<lparr>OpCode = OpBinary, Payload = encoded ?r\<rparr>"
    by (auto simp: submission_def)
  moreover have "Decode_Request (encoded ?r) = (?r, None)"
    using assms u by (intro encoded_decodes ok_submit_request) (simp_all add: client_ok_def)
  moreover have "Decode_SubmitParams (raw_params ?r) = (\<lparr>sub_JobID = j, sub_ClientNonce = randNonce (dr_buf d),
        sub_Result = EncodeToString (Sum256 (bytes_of (n @ randNonce (dr_buf d))))\<rparr>, None)"
    using submit_params_decode [OF assms(2) u] by (simp add: computeSHA256Hex_def)
  moreover have "req_ID ?r = Some (nextID (rs_client rs))" "req_Method ?r = ''submit''"
    by (simp_all add: submit_request_def)
  ultimately show ?thesis using on_frame_job [OF assms(2,3), of d rs] by (simp add: exI [of _ "encoded ?r"] exI [of _ ?r])
qed

definition sample_client :: Client where
  "sample_client = (NewClient ''bob'')\<lparr>cli := (cli (NewClient ''bob''))\<lparr>tc_state := 1, tc_conn := Some open_conn\<rparr>\<rparr>"

lemma sample_client_ok: "client_ok sample_client" "nextID sample_client = 1" "sent (cli sample_client) = []"
  by (simp_all add: sample_client_def client_ok_def connected_def NewClient_def is_int64_def MinInt64_def MaxInt64_def sent_def)

theorem job_answered_witness:
  "\<exists>rs' dat req. on_frame \<lparr>dr_buf = [7], dr_send = zero_time, dr_last = zero_time\<rparr>
      \<lparr>OpCode = OpBinary, Payload = job_data 3 ''ab''\<rparr> \<lparr>rs_client = sample_client, lastSubmit = zero_time\<rparr> = Ret rs'
    \<and> sent (cli (rs_client rs')) = enc_frame \<lparr>OpCode = OpBinary, Payload = dat\<rparr>
    \<and> Decode_Request dat = (req, None) \<and> req_ID req = Some 1
    \<and> Decode_SubmitParams (raw_params req) = (\<lparr>sub_JobID = 3, sub_ClientNonce = ''07'',
        sub_Result = EncodeToString (Sum256 (bytes_of ''ab07''))\<rparr>, None)"
proof -
  have "randNonce [7] = ''07''" by (simp add: randNonce_def hextable_def)
  then show ?thesis
    using job_answered [of "\<lparr>rs_client = sample_client, lastSubmit = zero_time\<rparr>" 3 "''ab''"
        "\<lparr>dr_buf = [7], dr_send = zero_time, dr_last = zero_time\<rparr>"]
    by (auto simp: sample_client_ok is_int64_def MinInt64_def MaxInt64_def)
qed

text \<open>One event: nothing is sent, or one submission for the job the client then has.\<close>

definition sends_one :: "RunState \<Rightarrow> RunState \<Rightarrow> bool" where
  "sends_one rs rs' \<longleftrightarrow> (\<exists>nonce. valid_utf8 nonce \<and>
     sent (cli (rs_client rs')) = sent (cli (rs_client rs)) @ enc_frame \<lparr>OpCode = OpBinary, Payload =
       encoded (submit_request (nextID (rs_client rs)) (cl_jobID (rs_client rs')) (cl_serverNonce (rs_client rs')) nonce)\<rparr>
     \<and> nextID (rs_client rs') = int64 (nextID (rs_client rs) + 1))"

definition handled :: "RunState \<Rightarrow> RunState outcome \<Rightarrow> bool" where
  "handled rs r \<longleftrightarrow> (\<exists>rs'. r = Ret rs' \<and> client_ok (rs_client rs') \<and> (rs' = rs \<or> sends_one rs rs'))"

lemma handled_submit:
  assumes "client_ok (rs_client rs)" "is_int64 j"
  shows "handled rs (submit d (rs\<lparr>rs_client := (rs_client rs)\<lparr>cl_jobID := j, cl_serverNonce := n\<rparr>\<rparr>))"
proof -
  let ?rs = "rs\<lparr>rs_client := (rs_client rs)\<lparr>cl_jobID := j, cl_serverNonce := n\<rparr>\<rparr>"
  have "client_ok (rs_client ?rs)" using assms by (simp add: client_ok_def)
  from submit_connected [OF this, of d] obtain t where s:
    "submit d ?rs = Ret (?rs\<lparr>rs_client := (rs_client ?rs)\<lparr>cli := t, nextID := int64 (nextID (rs_client ?rs) + 1)\<rparr>,
        lastSubmit := dr_last d\<rparr>)" "connected t"
    "sent t = sent (cli (rs_client ?rs)) @ enc_frame \<lparr>OpCode = OpBinary, Payload = submission (rs_client ?rs) (dr_buf d)\<rparr>"
    by blast
  then have "sends_one rs (?rs\<lparr>rs_client := (rs_client ?rs)\<lparr>cli := t, nextID := int64 (nextID (rs_client ?rs) + 1)\<rparr>,
        lastSubmit := dr_last d\<rparr>)"
    unfolding sends_one_def
    by (intro exI [of _ "randNonce (dr_buf d)"]) (simp add: submission_def randNonce_def valid_utf8_hex)
  with s assms show ?thesis by (simp add: handled_def client_ok_def)
qed

lemma handled_submit_same: "client_ok (rs_client rs) \<Longrightarrow> handled rs (submit d rs)"
  using handled_submit [of rs "cl_jobID (rs_client rs)" d "cl_serverNonce (rs_client rs)"] by (simp add: client_ok_def)

lemma handled_events:
  assumes "client_ok (rs_client rs)"
  shows "handled rs (on_frame d f rs)" "handled rs (on_tick now d rs)" "handled rs (on_minute now d rs)"
  using assms handled_submit [OF assms Decode_JobParams_int64] handled_submit_same [OF assms]
  by (auto simp: on_frame_def on_tick_def on_minute_def Let_def handled_def [of _ "Ret rs"] split: prod.splits option.splits)

lemma int64_next: "1 \<le> n \<Longrightarrow> n + int k \<le> MaxInt64 \<Longrightarrow> 0 < k \<Longrightarrow> int64 (n + 1) = n + 1"
  by (rule int64_Suc) auto

lemma run_loop_ids:
  assumes "client_ok (rs_client rs)" "1 \<le> nextID (rs_client rs)" "nextID (rs_client rs) + int (length es) \<le> MaxInt64"
  shows "\<exists>e rs' reqs. run_loop es rs = Ret (e, rs') \<and> client_ok (rs_client rs')
    \<and> sent (cli (rs_client rs')) = sent (cli (rs_client rs)) @ bin_frames (map encoded reqs)
    \<and> map req_ID reqs = map (\<lambda>k. Some (nextID (rs_client rs) + int k)) [0..<length reqs]
    \<and> list_all (\<lambda>r. ok_Request r \<and> req_Method r = ''submit'') reqs
    \<and> length reqs \<le> length es"
  using assms
proof (induction es arbitrary: rs)
  case Nil
  then show ?case by (intro exI [of _ None] exI [of _ rs] exI [of _ "[]"]) simp
next
  case (Cons ev es)
  have stop: ?case if "run_loop (ev # es) rs = Ret (Some e, rs)" for e
    using that Cons.prems(1) by (intro exI [of _ "Some e"] exI [of _ rs] exI [of _ "[]"]) simp
  have go: ?case if h: "handled rs h" and l: "run_loop (ev # es) rs = (case h of Ret rs' \<Rightarrow> run_loop es rs' | Block \<Rightarrow> Block | Panic \<Rightarrow> Panic)" for h
  proof -
    from h obtain rs1 where rs1: "h = Ret rs1" "client_ok (rs_client rs1)" "rs1 = rs \<or> sends_one rs rs1" by (auto simp: handled_def)
    with l have run: "run_loop (ev # es) rs = run_loop es rs1" by simp
    from rs1(3) show ?thesis
    proof
      assume "rs1 = rs"
      with Cons run show ?thesis by (fastforce intro: le_SucI)
    next
      assume "sends_one rs rs1"
      then obtain nonce where n: "valid_utf8 nonce"
        "sent (cli (rs_client rs1)) = sent (cli (rs_client rs)) @ bin_frames [encoded (submit_request (nextID (rs_client rs)) (cl_jobID (rs_client rs1)) (cl_serverNonce (rs_client rs1)) nonce)]"
        "nextID (rs_client rs1) = int64 (nextID (rs_client rs) + 1)" by (auto simp: sends_one_def)
      let ?r = "submit_request (nextID (rs_client rs)) (cl_jobID (rs_client rs1)) (cl_serverNonce (rs_client rs1)) nonce"
      have id: "nextID (rs_client rs1) = nextID (rs_client rs) + 1"
        using n(3) Cons.prems int64_next [of "nextID (rs_client rs)" "length (ev # es)"] by simp
      with Cons.IH [OF rs1(2)] Cons.prems obtain e rs' reqs where IH: "run_loop es rs1 = Ret (e, rs')" "client_ok (rs_client rs')"
        "sent (cli (rs_client rs')) = sent (cli (rs_client rs1)) @ bin_frames (map encoded reqs)"
        "map req_ID reqs = map (\<lambda>k. Some (nextID (rs_client rs1) + int k)) [0..<length reqs]"
        "list_all (\<lambda>r. ok_Request r \<and> req_Method r = ''submit'') reqs" "length reqs \<le> length es"
        by auto
      have "ok_Request ?r" using n(1) rs1(2) Cons.prems(1) by (intro ok_submit_request) (simp_all add: client_ok_def)
      moreover have "map (\<lambda>k. Some (nextID (rs_client rs) + int k)) [0..<length (?r # reqs)]
          = req_ID ?r # map req_ID reqs"
        unfolding IH(4) id by (simp add: submit_request_def upt_conv_Cons map_Suc_upt [symmetric] o_def algebra_simps del: upt_Suc)
      ultimately show ?thesis
        using IH n(2) run by (intro exI [of _ e] exI [of _ rs'] exI [of _ "?r # reqs"])
          (simp add: bin_frames_def, simp add: submit_request_def)
    qed
  qed
  show ?case
    using stop go handled_events [OF Cons.prems(1)] by (cases ev) auto
qed

text \<open>
  Over any sequence of frames, ticks and errors a connected client does not panic; all it
  ever sends are well-formed submit requests, one frame each, and their identifiers are
  consecutive from its first one (up to the largest \<open>int\<close>).
\<close>

theorem client_run_ids:
  assumes "client_ok c" and "1 \<le> nextID c" and "nextID c + int (length es) \<le> MaxInt64"
  shows "\<exists>e rs reqs. Run es c = Ret (e, rs)
    \<and> sent (cli (rs_client rs)) = sent (cli c) @ bin_frames (map encoded reqs)
    \<and> map req_ID reqs = map (\<lambda>k. Some (nextID c + int k)) [0..<length reqs]
    \<and> list_all (\<lambda>r. Decode_Request (encoded r) = (r, None) \<and> req_Method r = ''submit'') reqs"
proof -
  from run_loop_ids [of "\<lparr>rs_client = c, lastSubmit = zero_time\<rparr>" es] assms obtain e rs reqs where
    "Run es c = Ret (e, rs)" "sent (cli (rs_client rs)) = sent (cli c) @ bin_frames (map encoded reqs)"
    "map req_ID reqs = map (\<lambda>k. Some (nextID c + int k)) [0..<length reqs]"
    "list_all (\<lambda>r. ok_Request r \<and> req_Method r = ''submit'') reqs" by (auto simp: Run_def)
  then show ?thesis by (intro exI [of _ e] exI [of _ rs] exI [of _ reqs]) (auto simp: list_all_iff encoded_decodes)
qed

theorem client_run_ids_witness:
  "\<exists>e rs reqs. Run [Tick zero_time \<lparr>dr_buf = [7], dr_send = zero_time, dr_last = zero_time\<rparr>, CtxDone EOF] sample_client = Ret (e, rs)
    \<and> sent (cli (rs_client rs)) = bin_frames (map encoded reqs)
    \<and> map req_ID reqs = map (\<lambda>k. Some (1 + int k)) [0..<length reqs]"
  using client_run_ids [of sample_client "[Tick zero_time \<lparr>dr_buf = [7], dr_send = zero_time, dr_last = zero_time\<rparr>, CtxDone EOF]"]
  by (auto simp: sample_client_ok MaxInt64_def)

text \<open>
  On a tick of its ticker a client that has a job submits exactly when at least a second
  has passed since its last submission (or it has not submitted yet); a client without a
  job, or with a recent submission, sends nothing.
\<close>

theorem tick_spacing:
  assumes "client_ok (rs_client rs)"
  shows "if cl_serverNonce (rs_client rs) = [] \<or> \<not> IsZero (lastSubmit rs) \<and> time_sub now (lastSubmit rs) < Second
    then on_tick now d rs = Ret rs
    else \<exists>rs'. on_tick now d rs = Ret rs' \<and> lastSubmit rs' = dr_last d
      \<and> sent (cli (rs_client rs')) = sent (cli (rs_client rs)) @ enc_frame \<lparr>OpCode = OpBinary,
          Payload = submission (rs_client rs) (dr_buf d)\<rparr>"
  using submit_connected [OF assms, of d] by (auto simp: on_tick_def)

theorem tick_spacing_witness:
  "on_tick zero_time \<lparr>dr_buf = [7], dr_send = zero_time, dr_last = zero_time\<rparr> \<lparr>rs_client = sample_client, lastSubmit = zero_time\<rparr>
    = Ret \<lparr>rs_client = sample_client, lastSubmit = zero_time\<rparr>"
  using tick_spacing [of "\<lparr>rs_client = sample_client, lastSubmit = zero_time\<rparr>" zero_time "\<lparr>dr_buf = [7], dr_send = zero_time, dr_last = zero_time\<rparr>"]
  by (simp add: sample_client_ok) (simp add: sample_client_def NewClient_def)

end
