(* ===== verification/End_To_End.thy ===== *)
theory End_To_End
  imports Server_Runs App_Client
begin

text \<open>
  Client and server together: the bytes one side writes are the bytes the other side reads.
  The handshake of the client is accepted by the server, a job broadcast by the server makes
  the client send a submission the server accepts, and what happens to a client that
  reconnects.
\<close>

subsection \<open>Sizes\<close>

lemma length_hex_low [simp]: "length (hex_low n) = 2"
  by (simp add: hex_low_def)

lemma length_quote_ascii: "length (quote_ascii c) \<le> 6"
  by (simp add: quote_ascii_def)

lemma length_quote_body: "length (quote_body s) \<le> 6 * length s"
proof (induction s rule: quote_body.induct)
  case (1 s)
  show ?case
  proof (cases s)
    case (Cons c r)
    let ?u = "[CHR 0xE2, CHR 0x80, CHR 0xA8]" and ?v = "[CHR 0xE2, CHR 0x80, CHR 0xA9]"
    consider "in_range 0 127 c" | "\<not> in_range 0 127 c" "rune_width s = 0"
      | "\<not> in_range 0 127 c" "rune_width s \<noteq> 0" "take 3 s = ?u \<or> take 3 s = ?v"
      | "\<not> in_range 0 127 c" "rune_width s \<noteq> 0" "take 3 s \<noteq> ?u" "take 3 s \<noteq> ?v" by blast
    then show ?thesis
    proof cases
      case a: 1
      with 1(1) [OF Cons] Cons length_quote_ascii [of c] show ?thesis by (subst quote_body.simps) auto
    next
      case a: 2
      with 1(2) [OF Cons] Cons show ?thesis by (subst quote_body.simps) auto
    next
      case a: 3
      then have "3 \<le> length s" by (auto dest: arg_cong [where f = length])
      moreover have "length (quote_body (drop 3 s)) \<le> 6 * length (drop 3 s)" using a 1(3,4) [OF Cons] by auto
      moreover have "length (quote_body s) = 6 + length (quote_body (drop 3 s))"
        using a Cons by (subst quote_body.simps) auto
      ultimately show ?thesis by simp
    next
      case a: 4
      then have "length (quote_body s) = rune_width s + length (quote_body (drop (rune_width s) s))"
        using Cons rune_width_le [of s] by (subst quote_body.simps) auto
      with 1(5) [OF Cons] a rune_width_le [of s] show ?thesis by simp
    qed
  qed simp
qed

lemma length_json_string: "length (json_string s) \<le> 6 * length s + 2"
  using length_quote_body [of s] by (simp add: json_string_def)

lemma fits_authorize:
  assumes "valid_utf8 u" "length u \<le> 100000000"
  shows "fits32 (encoded (authorize_request u))"
proof -
  let ?p = "AuthorizeParams_json \<lparr>auth_Username = u\<rparr>"
  have "clean_raw ?p" using assms(1) by (intro clean_params) (simp add: ok_defs)
  then have e: "encoded (authorize_request u) = bytes_of (json_object [(''id'', show_int 1),
      (''method'', json_string ''authorize''), (''params'', ?p)])"
    by (simp add: encoded_def authorize_request_def Encode_Request_clean json_ptr_int_def)
  have "length ?p \<le> 6 * length u + 64"
    using length_json_string [of u] length_json_string [of "''username''"]
    by (simp add: AuthorizeParams_json_def json_object_def)
  moreover have "length (show_int 1) = 1" by (simp add: show_int_def show_nat.simps)
  ultimately have "length (encoded (authorize_request u)) \<le> 6 * length u + 400"
    using length_json_string [of "''id''"] length_json_string [of "''method''"] length_json_string [of "''authorize''"]
      length_json_string [of "''params''"]
    by (simp add: e json_object_def)
  with assms(2) show ?thesis by (simp add: fits32_def)
qed

subsection \<open>The handshake\<close>

lemma authorize_request_authorizes:
  assumes "valid_utf8 u" "u \<noteq> []"
  shows "authorizes (encoded (authorize_request u)) u 1"
  unfolding authorizes_def
  using encoded_decodes [OF ok_authorize_request [OF assms(1)]] authorize_params_decode [OF assms(1)] assms(2)
  by (intro exI [of _ "authorize_request u"]) (simp add: authorize_request_def)

lemma Accept_authorized:
  assumes "authorizes p u k" "fits32 p" "\<not> c_closed cn"
    "c_in cn = \<lparr>rbuf = enc_frame \<lparr>OpCode = OpBinary, Payload = p\<rparr> @ rest, rend = e\<rparr>"
  shows "\<exists>cn'. Accept now timeout (Inr buf) cn c
    = (Inr (EncodeToString buf), cn', restore_user (EncodeToString buf) u (RegisterSession (EncodeToString buf) u c))"
proof -
  have "ReadFrame (c_in cn) = (Inr \<lparr>OpCode = OpBinary, Payload = p\<rparr>, \<lparr>rbuf = rest, rend = e\<rparr>)"
    unfolding assms(4) using assms(2) by (intro fr.rd_enc) (simp add: frame_ok_def)
  from conn_ReadFrame_open [OF assms(3) this, of "time_add now timeout"] assms(1) show ?thesis
    by (auto simp: Accept_def authorizes_def Let_def)
qed

text \<open>
  C7: the client's handshake is accepted. When the client dials on a working connection and
  the server reads the bytes it wrote, the server registers exactly one new session for that
  user, under the identifier it drew; the user name has to be non-empty valid UTF-8.
\<close>

theorem handshake_accepted:
  assumes "valid_utf8 u" and "u \<noteq> []" and "length u \<le> 100000000"
    and "net_dial (dc_Address ctx) (dc_Timeout ctx) = Inr ccn" and "working ccn" and "wbuf (c_out ccn) = []"
    and "DialAndHandshake net_dial u ctx = Inr (Some ccn')"
    and "\<not> c_closed cn" and "c_in cn = \<lparr>rbuf = wbuf (c_out ccn') @ rest, rend = e\<rparr>"
  shows "\<exists>cn' s. Accept now timeout (Inr buf) cn c
      = (Inr (EncodeToString buf), cn', c\<lparr>sessions := (sessions c)(EncodeToString buf \<mapsto> s)\<rparr>)
    \<and> Username s = u \<and> ChannelID s = EncodeToString buf \<and> UsedNonces s = Map.empty"
proof -
  let ?p = "encoded (authorize_request u)"
  have "wbuf (c_out ccn') = enc_frame \<lparr>OpCode = OpBinary, Payload = ?p\<rparr>"
    using assms(4-7) by (auto simp: DialAndHandshake_def conn_WriteFrame_def working_def WriteFrame_ok)
  with assms(9) have "c_in cn = \<lparr>rbuf = enc_frame \<lparr>OpCode = OpBinary, Payload = ?p\<rparr> @ rest, rend = e\<rparr>" by simp
  from Accept_authorized [OF authorize_request_authorizes [OF assms(1,2)] fits_authorize [OF assms(1,3)] assms(8) this,
      of now timeout buf c] restore_user_session [of "EncodeToString buf" u c]
  show ?thesis by (auto simp: put_session_def)
qed

theorem handshake_accepted_witness:
  "\<exists>cn' s. Accept zero_time Second (Inr [1])
      (open_conn\<lparr>c_in := \<lparr>rbuf = wbuf (c_out (snd (conn_WriteFrame OpBinary (encoded (authorize_request ''bob'')) open_conn))), rend = EOF\<rparr>\<rparr>)
      (coord (fresh_app True ''l'' 4 Second 0 0))
      = (Inr ''01'', cn', (coord (fresh_app True ''l'' 4 Second 0 0))\<lparr>sessions := [''01'' \<mapsto> s]\<rparr>)
    \<and> Username s = ''bob'' \<and> ChannelID s = ''01'' \<and> UsedNonces s = Map.empty"
proof -
  have b: "EncodeToString [1] = ''01''" by (simp add: hextable_def)
  show ?thesis
    using handshake_accepted [of "''bob''" "\<lambda>_ _. Inr open_conn" "\<lparr>dc_Id = [], dc_Name = [], dc_Address = [], dc_Timeout = 0\<rparr>" open_conn
        "snd (conn_WriteFrame OpBinary (encoded (authorize_request ''bob'')) open_conn)"
        "open_conn\<lparr>c_in := \<lparr>rbuf = wbuf (c_out (snd (conn_WriteFrame OpBinary (encoded (authorize_request ''bob'')) open_conn))), rend = EOF\<rparr>\<rparr>"
        "[]" EOF zero_time Second "[1]" "coord (fresh_app True ''l'' 4 Second 0 0)"]
    unfolding b fresh_simps by (simp add: DialAndHandshake_def) (simp add: open_conn_def)
qed

subsection \<open>A submission\<close>

lemma client_digest: "computeSHA256Hex (sn @ n) = submit_hash sn n"
  by (simp add: computeSHA256Hex_def submit_hash_def)

lemma submission_verdict:
  assumes "sessions c i = Some s" "LatestJobID s = j" "LatestServerNonce s = sn" "\<not> too_soon s now" "n \<notin> nonces_of s j"
  shows "verdict (sessions c i) \<lparr>sub_JobID = j, sub_ClientNonce = n, sub_Result = submit_hash sn n\<rparr> ts now c = None"
  using assms by (simp add: verdict_def job_nonce_def job_expired_def)

lemma submission_decodes:
  assumes "client_ok cl"
  shows "Decode_Request (submission cl buf) = (submit_request (nextID cl) (cl_jobID cl) (cl_serverNonce cl) (randNonce buf), None)"
    and "Decode_SubmitParams (raw_params (submit_request (nextID cl) (cl_jobID cl) (cl_serverNonce cl) (randNonce buf)))
      = (\<lparr>sub_JobID = cl_jobID cl, sub_ClientNonce = randNonce buf, sub_Result = submit_hash (cl_serverNonce cl) (randNonce buf)\<rparr>, None)"
proof -
  have u: "valid_utf8 (randNonce buf)" by (simp add: randNonce_def valid_utf8_hex)
  show "Decode_Request (submission cl buf) = (submit_request (nextID cl) (cl_jobID cl) (cl_serverNonce cl) (randNonce buf), None)"
    using assms u unfolding submission_def by (intro encoded_decodes ok_submit_request) (simp_all add: client_ok_def)
  show "Decode_SubmitParams (raw_params (submit_request (nextID cl) (cl_jobID cl) (cl_serverNonce cl) (randNonce buf)))
      = (\<lparr>sub_JobID = cl_jobID cl, sub_ClientNonce = randNonce buf, sub_Result = submit_hash (cl_serverNonce cl) (randNonce buf)\<rparr>, None)"
    using submit_params_decode [OF _ u] assms by (simp add: client_ok_def client_digest)
qed


subsection \<open>A concrete run\<close>

text \<open>
  The server starts, \<open>bob\<close> connects and gets channel \<open>01\<close>, the first job has nonce \<open>02\<close>, and
  a minute after the epoch of the clock bob's submission with nonce \<open>aa\<close> is accepted.
\<close>

definition app0 :: mem_app where
  "app0 = fresh_app True ''l'' 4 Second 0 0"

definition bob_conn :: conn where
  "bob_conn = open_conn\<lparr>c_in := \<lparr>rbuf = enc_frame \<lparr>OpCode = OpBinary, Payload = encoded (authorize_request ''bob'')\<rparr>, rend = EOF\<rparr>\<rparr>"

definition minute1 :: go_time where
  "minute1 = \<lparr>wall = Minute, mono = None, loc = UTC\<rparr>"

definition tick1 :: tick where
  "tick1 = \<lparr>tk_buf = [2], tk_now = minute1, tk_now' = minute1, tk_order = [''01'']\<rparr>"

definition submit1 :: SubmitParams where
  "submit1 = \<lparr>sub_JobID = 1, sub_ClientNonce = ''aa'', sub_Result = submit_hash ''02'' ''aa''\<rparr>"

lemma hex_samples: "EncodeToString [1] = ''01''" "EncodeToString [2] = ''02''"
  by (simp_all add: hextable_def)

lemma Accept_bob:
  "\<exists>cn'. Accept zero_time Second (Inr [1]) bob_conn c = (Inr ''01'', cn', restore_user ''01'' ''bob'' (RegisterSession ''01'' ''bob'' c))"
  using Accept_authorized [OF authorize_request_authorizes [of "''bob''"] fits_authorize [of "''bob''"], of bob_conn "[]" EOF zero_time Second "[1]" c]
  unfolding hex_samples by (simp add: bob_conn_def open_conn_def)

lemma restore_bob: "restore_user ''01'' ''bob'' (RegisterSession ''01'' ''bob'' (coord app0))
  = put_session ''01'' (NewSession ''01'' ''bob'') (coord app0)"
  by (simp add: restore_user_def RegisterSession_def NewSession_def app0_def fresh_simps mem_LoadUserState_def
      NewMemoryStore_def map_get_def put_session_def)

definition bob_coord :: "(TcpServer, MemoryStore, MemoryQueue) Coordinator" where
  "bob_coord = put_session ''01'' (NewSession ''01'' ''bob'') (coord app0)"

definition bob_session :: Session where
  "bob_session = on_job 1 ''02'' (NewSession ''01'' ''bob'')"

lemma app0_chans: "ts_chans (srv_obj (coord app0)) = Map.empty"
  by (simp add: app0_def fresh_app_def NewAppServer_def Let_def NewCoordinator_def SetStateListener_def
      SetMessageListener_def SetAcceptor_def NewServer_def NewChannels_def)

lemma run_tick1:
  "\<exists>c2. coord_run tick1 bob_coord = Ret c2 \<and> sessions c2 ''01'' = Some bob_session \<and> mq c2 = memory_queue \<and> mq_obj c2 = NewMemoryQueue 4
     \<and> state c2 = Some memory_state"
proof -
  let ?c = "rotateJob (tk_buf tick1) (tk_now tick1) (tk_now' tick1) bob_coord"
  have f: "srv ?c = tcp_pusher" "ts_chans (srv_obj ?c) = Map.empty" "jobID ?c = 1" "serverNonce ?c = ''02''"
    "sessions ?c = [''01'' \<mapsto> NewSession ''01'' ''bob'']" "mq ?c = memory_queue" "mq_obj ?c = NewMemoryQueue 4" "state ?c = Some memory_state"
    using app0_chans
    by (simp_all add: server_simps bob_coord_def tick1_def hextable_def)
      (simp_all add: app0_def fresh_simps int64_def fresh_app_def NewAppServer_def Let_def NewCoordinator_def)
  then have "broadcastJob [''01''] ?c = Ret (?c\<lparr>sessions := [''01'' \<mapsto> bob_session]\<rparr>)"
    by (simp add: broadcastJob_def tcp_pusher_def tcp_Push_def chans_Get_def bob_session_def on_job_def NewSession_def)
  moreover have "coord_run tick1 bob_coord = broadcastJob [''01''] ?c" by (simp add: coord_run_def) (simp add: tick1_def)
  ultimately have "coord_run tick1 bob_coord = Ret (?c\<lparr>sessions := [''01'' \<mapsto> bob_session]\<rparr>)" by simp
  with f(6-8) show ?thesis by (intro exI [of _ "?c\<lparr>sessions := [''01'' \<mapsto> bob_session]\<rparr>"]) simp
qed

text \<open>The server after the handshake and the first job.\<close>

lemma sample_ticked:
  obtains a where "app_run app0 [LOpen ''01'', LTick tick1] a" "wired a" "sessions (coord a) ''01'' = Some bob_session"
    "mq (coord a) = memory_queue" "mq_obj (coord a) = NewMemoryQueue 4" "state (coord a) = Some memory_state"
proof -
  let ?a1 = "app0\<lparr>coord := bob_coord\<rparr>"
  have 1: "app_step app0 (LOpen ''01'') ?a1"
    using Accept_bob [of "coord app0"] restore_bob by (auto simp: bob_coord_def intro: app_step.opened)
  obtain c2 where c2: "coord_run tick1 bob_coord = Ret c2" "sessions c2 ''01'' = Some bob_session" "mq c2 = memory_queue"
    "mq_obj c2 = NewMemoryQueue 4" "state c2 = Some memory_state" using run_tick1 by blast
  have d: "dom (sessions bob_coord) = {''01''}" by (simp add: bob_coord_def server_simps app0_def fresh_simps)
  have 2: "app_step ?a1 (LTick tick1) (?a1\<lparr>coord := c2\<rparr>)"
    by (rule app_step.ticked) (use c2(1) d in \<open>simp_all add: tick1_def\<close>)
  from app_run.snoc [OF app_run.snoc [OF app_run.start 1] 2]
  have r: "app_run app0 [LOpen ''01'', LTick tick1] (?a1\<lparr>coord := c2\<rparr>)" by simp
  have "wired (?a1\<lparr>coord := c2\<rparr>)" by (rule wired_run [OF r]) (simp_all add: app0_def fresh_wired)
  with r c2(2-) show ?thesis by (intro that [of "?a1\<lparr>coord := c2\<rparr>"]) simp_all
qed

lemma bob_session_simps [simp]:
  "Username bob_session = ''bob''" "LatestJobID bob_session = 1" "LatestServerNonce bob_session = ''02''"
  "\<not> too_soon bob_session t" "nonces_of bob_session j = {}"
  by (simp_all add: bob_session_def on_job_def NewSession_def too_soon_def nonces_of_def)

text \<open>On the empty queue an accepted submission is published.\<close>

lemma sample_submit:
  assumes "verdict (sessions c i) p ts now c = None" "sessions c i = Some s" "mq c = memory_queue" "mq_obj c = NewMemoryQueue 4"
  obtains c' where "handleSubmit i p ts now c = Ret (None, c')" "mq_pending (mq_obj c') = [\<lparr>ev_Username = Username s, ev_Time = now\<rparr>]"
proof -
  let ?acc = "\<lambda>n. save_accepted (accepted_session s p n now) p (put_session i (accepted_session s p n now) c)"
  obtain n where h: "handleSubmit i p ts now c =
    (case publish_event \<lparr>ev_Username = Username s, ev_Time = now\<rparr> (?acc n) of Ret c \<Rightarrow> Ret (None, c) | Block \<Rightarrow> Block | Panic \<Rightarrow> Panic)"
    by (rule handleSubmit_accepts [OF assms(1)]) (use assms(2) in auto)
  obtain c3 where "publish_event \<lparr>ev_Username = Username s, ev_Time = now\<rparr> (?acc n) = Ret c3"
    "mq_pending (mq_obj c3) = [\<lparr>ev_Username = Username s, ev_Time = now\<rparr>]"
    using assms(3,4) by (simp add: publish_event_def server_simps mem_Publish_def NewMemoryQueue_def make_chan_def chan_send_def mq_pending_def)
  with h that show ?thesis by simp
qed

lemma submit1_verdict: "sessions c i = Some bob_session \<Longrightarrow> verdict (sessions c i) submit1 ts now c = None"
  unfolding submit1_def by (erule submission_verdict) simp_all

lemma sample_run:
  "\<exists>b. app_run app0 [LOpen ''01'', LTick tick1, LAccept ''01'' submit1 ''bob'' minute1] b
     \<and> mq_pending (mq_obj (coord b)) = [\<lparr>ev_Username = ''bob'', ev_Time = minute1\<rparr>]"
proof -
  obtain a where a: "app_run app0 [LOpen ''01'', LTick tick1] a" "wired a" "sessions (coord a) ''01'' = Some bob_session"
    "mq (coord a) = memory_queue" "mq_obj (coord a) = NewMemoryQueue 4" "state (coord a) = Some memory_state" by (rule sample_ticked)
  obtain c3 where c3: "handleSubmit ''01'' submit1 minute1 minute1 (coord a) = Ret (None, c3)"
    "mq_pending (mq_obj c3) = [\<lparr>ev_Username = Username bob_session, ev_Time = minute1\<rparr>]"
    by (rule sample_submit [OF submit1_verdict [OF a(3)] a(3-5)])
  from app_run.snoc [OF a(1) app_step.accepted [OF c3(1) a(3)]] c3(2) show ?thesis by auto
qed

subsection \<open>The components' properties on the sample run\<close>

definition bob_client :: Client where
  "bob_client = sample_client\<lparr>cl_jobID := 1, cl_serverNonce := ''02''\<rparr>"

lemma bob_client_simps [simp]:
  "client_ok bob_client" "nextID bob_client = 1" "cl_jobID bob_client = 1" "cl_serverNonce bob_client = ''02''"
  using sample_client_ok(1,2) by (simp_all add: bob_client_def client_ok_def is_int64_def MinInt64_def MaxInt64_def)

definition bob_params :: SubmitParams where
  "bob_params = \<lparr>sub_JobID = 1, sub_ClientNonce = randNonce [7], sub_Result = submit_hash ''02'' (randNonce [7])\<rparr>"


theorem submit_answered_once_witness:
  "\<exists>(a :: mem_app) c1. handleSubmit ''01'' bob_params minute1 minute1 (coord a) = Ret (None, c1)
    \<and> Receive (\<lambda>_. []) (channel_agent ''01'') (submission bob_client [7]) minute1 minute1 (coord a)
      = agent_push (channel_agent ''01'') (Encode_Response \<lparr>resp_ID = 1, resp_Result = True, resp_Error = None\<rparr>) c1"
proof -
  obtain a :: mem_app where a: "sessions (coord a) ''01'' = Some bob_session"
    "mq (coord a) = memory_queue" "mq_obj (coord a) = NewMemoryQueue 4" by (rule sample_ticked) blast
  have v: "verdict (sessions (coord a) ''01'') bob_params minute1 minute1 (coord a) = None"
    unfolding bob_params_def by (rule submission_verdict [OF a(1)]) simp_all
  obtain c1 where h: "handleSubmit ''01'' bob_params minute1 minute1 (coord a) = Ret (None, c1)"
    by (rule sample_submit [OF v a])
  have i: "ag_ID (channel_agent ''01'') = ''01''" by (simp add: channel_agent_def)
  note d = submission_decodes [OF bob_client_simps(1), of "[7]", unfolded bob_client_simps]
  from submit_answered_once [OF d(1) _ _ d(2), of 1 "channel_agent ''01''" minute1 minute1 "coord a" None c1 "\<lambda>_. []"] h v
  show ?thesis by (auto simp: i bob_params_def [symmetric]) (auto simp: submit_request_def)
qed

theorem old_job_submit_displaces_nonce_witness:
  "\<exists>c' s'. handleSubmit ''01'' submit1 minute1 minute1 (rotateJob [2] minute1 minute1 bob_coord) = Ret (None, c')
    \<and> sessions c' ''01'' = Some s' \<and> LatestJobID s' = 0 \<and> job_nonce s' 0 c' = Some ''02''"
proof -
  let ?c = "rotateJob [2] minute1 minute1 bob_coord"
  have c: "sessions ?c ''01'' = Some (NewSession ''01'' ''bob'')" "mq ?c = memory_queue" "mq_obj ?c = NewMemoryQueue 4"
    "history ?c 1 = Some \<lparr>Nonce = ''02'', CreatedAt = minute1\<rparr>" "expireAfter ?c = 0"
    by (simp_all add: server_simps bob_coord_def hextable_def)
      (simp_all add: app0_def fresh_simps int64_def fresh_app_def NewAppServer_def Let_def NewCoordinator_def)
  then have v: "verdict (sessions ?c ''01'') submit1 minute1 minute1 ?c = None"
    by (simp add: verdict_def job_nonce_def job_expired_def too_soon_def nonces_of_def submit1_def NewSession_def)
  obtain c' where h: "handleSubmit ''01'' submit1 minute1 minute1 ?c = Ret (None, c')"
    by (rule sample_submit [OF v c(1-3)])
  from old_job_submit_displaces_nonce [OF c(1) _ _ h, of "\<lparr>Nonce = ''02'', CreatedAt = minute1\<rparr>"] c(4) h
  show ?thesis by (auto simp: submit1_def NewSession_def)
qed

theorem accept_outcome_witness:
  "\<exists>cn' s. Accept zero_time Second (Inr [1]) bob_conn (coord app0) = (Inr ''01'', cn', (coord app0)\<lparr>sessions := [''01'' \<mapsto> s]\<rparr>)
    \<and> ChannelID s = ''01'' \<and> UsedNonces s = Map.empty"
proof -
  have e: "sessions (coord app0) = Map.empty" by (simp add: app0_def fresh_simps)
  from accept_outcome [OF prod.collapse [symmetric], where now = zero_time and timeout = Second and ?conn0.0 = bob_conn
      and rnd = "Inr [1]" and c = "coord app0"] Accept_bob [of "coord app0"]
  show ?thesis by (auto simp: e hextable_def) blast
qed

definition live_coord :: "(TcpServer, MemoryStore, MemoryQueue) Coordinator" where
  "live_coord = bob_coord\<lparr>srv_obj := (NewServer ''l'')\<lparr>ts_chans := [''01'' \<mapsto> NewChannel ''01'' open_conn]\<rparr>\<rparr>"

theorem broadcast_reaches_all_witness:
  "\<exists>c'. coord_run tick1 live_coord = Ret c' \<and> sessions c' ''01'' = Some bob_session
    \<and> tcp_inbox ''01'' (srv_obj c') = [job_data 1 ''02'']"
proof -
  let ?c = "rotateJob (tk_buf tick1) (tk_now tick1) (tk_now' tick1) live_coord"
  have f: "srv live_coord = tcp_pusher" "srv_obj live_coord = (NewServer ''l'')\<lparr>ts_chans := [''01'' \<mapsto> NewChannel ''01'' open_conn]\<rparr>"
    "sessions live_coord = [''01'' \<mapsto> NewSession ''01'' ''bob'']" "jobID live_coord = 0"
    by (simp_all add: server_simps live_coord_def bob_coord_def)
      (simp_all add: app0_def fresh_simps fresh_app_def NewAppServer_def Let_def NewCoordinator_def)
  obtain c' where c': "coord_run tick1 live_coord = Ret c'"
    by (simp add: coord_run_def broadcastJob_def server_simps f tick1_def tcp_pusher_def tcp_Push_def chans_Get_def NewSession_def
        Push_def NewChannel_def make_chan_def chan_send_def)
  have o: "distinct (tk_order tick1)" "set (tk_order tick1) = dom (sessions live_coord)" "filed_sessions (sessions live_coord)"
    by (simp_all add: f tick1_def filed_sessions_def NewSession_def)
  have "tcp_live ''01'' (srv_obj live_coord)" "tcp_inbox ''01'' (srv_obj live_coord) = []"
    by (simp_all add: f tcp_live_def tcp_inbox_def NewChannel_def make_chan_def)
  moreover have "int64 (jobID live_coord + 1) = 1" "EncodeToString (tk_buf tick1) = ''02''"
    by (simp_all add: f int64_def tick1_def hextable_def)
  ultimately show ?thesis
    using broadcast_reaches_all [OF c' f(1) o] c' f(3) by (auto simp: bob_session_def on_job_def)
qed


end
