(* ===== verification/Pg_Store.thy ===== *)
theory Pg_Store
  imports Store "HOL-Library.AList"
begin

text \<open>
  \<open>stats/pg.go\<close>: the statistics and state store on PostgreSQL. The object-relational mapper
  and the database behind it are a parameter: a record with one function per statement the
  code issues, over the state of the database. What the code relies on, the documented
  meaning of those statements, is the locale \<open>postgres\<close>; every statement may fail, and a
  failed one changes no row. A reference database of association lists interprets it.
\<close>

subsection \<open>Rows and statements\<close>

record Submission =
  sm_Username :: string
  sm_Timestamp :: go_time
  sm_SubmissionCount :: int

record JobHistory =
  jh_JobID :: int
  jh_ServerNonce :: string
  jh_CreatedAt :: go_time

record UserState =
  pu_Username :: string
  pu_LatestJobID :: int
  pu_LatestServerNonce :: string
  pu_LastSubmitAt :: go_time

record UsedNonce =
  un_Username :: string
  un_JobID :: int
  un_ClientNonce :: string

definition ErrRecordNotFound :: error where
  "ErrRecordNotFound = ErrorMsg ''record not found''"

text \<open>
  The insertions carry their conflict clause: \<open>upsert_Submission f r\<close> inserts \<open>r\<close>, or on a row
  with the same key sets its count to \<open>f old r\<close>, where \<open>r\<close> is the row that was to be inserted
  (\<open>excluded\<close> in SQL); the \<open>create\<close> statements do nothing on a conflict. \<open>between\<close> bounds are
  inclusive, lists come in ascending order of time.
\<close>

record 'd gorm =
  AutoMigrate :: "string \<Rightarrow> 'd \<Rightarrow> error option \<times> 'd"
  upsert_Submission :: "(Submission \<Rightarrow> Submission \<Rightarrow> int) \<Rightarrow> Submission \<Rightarrow> 'd \<Rightarrow> error option \<times> 'd"
  first_Submission :: "string \<Rightarrow> go_time \<Rightarrow> 'd \<Rightarrow> error + Submission"
  find_between :: "string \<Rightarrow> go_time \<Rightarrow> go_time \<Rightarrow> 'd \<Rightarrow> error + Submission list"
  top_between :: "go_time \<Rightarrow> go_time \<Rightarrow> int \<Rightarrow> 'd \<Rightarrow> error + (string \<times> int) list"
  sum_between :: "go_time \<Rightarrow> go_time \<Rightarrow> 'd \<Rightarrow> error + int"
  create_JobHistory :: "JobHistory \<Rightarrow> 'd \<Rightarrow> error option \<times> 'd"
  last_JobHistory :: "'d \<Rightarrow> error + JobHistory"
  find_JobHistory :: "go_time option \<Rightarrow> 'd \<Rightarrow> error + JobHistory list"
  upsert_UserState :: "(UserState \<Rightarrow> UserState) \<Rightarrow> UserState \<Rightarrow> 'd \<Rightarrow> error option \<times> 'd"
  first_UserState :: "string \<Rightarrow> 'd \<Rightarrow> error + UserState"
  create_UsedNonce :: "UsedNonce \<Rightarrow> 'd \<Rightarrow> error option \<times> 'd"
  first_UsedNonce :: "string \<Rightarrow> int \<Rightarrow> string \<Rightarrow> 'd \<Rightarrow> error + UsedNonce"
  sql_DB :: "'d \<Rightarrow> error option"
  sql_Close :: "'d \<Rightarrow> error option \<times> 'd"

subsection \<open>Operations\<close>

definition ensureSchema :: "'d gorm \<Rightarrow> 'd \<Rightarrow> error option \<times> 'd" where
  "ensureSchema g d = AutoMigrate g ''Submission'' d"

definition NewPGStore :: "'d gorm \<Rightarrow> error + 'd \<Rightarrow> error + 'd" where
  "NewPGStore g opened =
     (case opened of
        Inl err \<Rightarrow> Inl err
      | Inr d \<Rightarrow> (case ensureSchema g d of (Some err, _) \<Rightarrow> Inl err | (None, d') \<Rightarrow> Inr d'))"

definition pg_Increment :: "'d gorm \<Rightarrow> string \<Rightarrow> go_time \<Rightarrow> 'd \<Rightarrow> error option \<times> 'd" where
  "pg_Increment g username minute d =
     (let m = Truncate minute Minute
      in upsert_Submission g (\<lambda>old excluded. sm_SubmissionCount excluded + 1)
           \<lparr>sm_Username = username, sm_Timestamp = m, sm_SubmissionCount = 1\<rparr> d)"

definition pg_Get :: "'d gorm \<Rightarrow> string \<Rightarrow> go_time \<Rightarrow> 'd \<Rightarrow> error + int" where
  "pg_Get g username minute d =
     (let m = Truncate minute Minute
      in case first_Submission g username m d of
           Inl err \<Rightarrow> if err = ErrRecordNotFound then Inr 0 else Inl err
         | Inr rec \<Rightarrow> Inr (sm_SubmissionCount rec))"

definition pg_Close :: "'d gorm \<Rightarrow> 'd \<Rightarrow> error option \<times> 'd" where
  "pg_Close g d = (case sql_DB g d of Some err \<Rightarrow> (Some err, d) | None \<Rightarrow> sql_Close g d)"

definition GetUserSubmissionsByTimeRange :: "'d gorm \<Rightarrow> string \<Rightarrow> go_time \<Rightarrow> go_time \<Rightarrow> 'd \<Rightarrow> error + (go_time \<rightharpoonup> int)" where
  "GetUserSubmissionsByTimeRange g username start stop d =
     (case find_between g username start stop d of
        Inl err \<Rightarrow> Inl err
      | Inr subs \<Rightarrow> Inr (foldl (\<lambda>result sub. result(sm_Timestamp sub \<mapsto> sm_SubmissionCount sub)) Map.empty subs))"

definition GetTopUsersBySubmissions :: "'d gorm \<Rightarrow> go_time \<Rightarrow> go_time \<Rightarrow> int \<Rightarrow> 'd \<Rightarrow> error + (string \<times> int) list" where
  "GetTopUsersBySubmissions g start stop limit d =
     (case top_between g start stop limit d of
        Inl err \<Rightarrow> Inl err
      | Inr results \<Rightarrow> Inr (foldl (\<lambda>final r. final @ [(fst r, snd r)]) [] results))"

definition GetTotalSubmissions :: "'d gorm \<Rightarrow> go_time \<Rightarrow> go_time \<Rightarrow> 'd \<Rightarrow> error + int" where
  "GetTotalSubmissions g start stop d = sum_between g start stop d"

text \<open>The state store. Every operation first creates its table when it is missing.\<close>

definition pg_SaveJob :: "'d gorm \<Rightarrow> int \<Rightarrow> string \<Rightarrow> go_time \<Rightarrow> 'd \<Rightarrow> error option \<times> 'd" where
  "pg_SaveJob g j nonce createdAt d =
     (let d1 = snd (AutoMigrate g ''JobHistory'' d)
      in create_JobHistory g \<lparr>jh_JobID = j, jh_ServerNonce = nonce, jh_CreatedAt = createdAt\<rparr> d1)"

definition pg_LoadLatestJob :: "'d gorm \<Rightarrow> 'd \<Rightarrow> (error + int \<times> string \<times> go_time) \<times> 'd" where
  "pg_LoadLatestJob g d =
     (let d1 = snd (AutoMigrate g ''JobHistory'' d)
      in (case last_JobHistory g d1 of
            Inl err \<Rightarrow> if err = ErrRecordNotFound then Inr (0, [], zero_time) else Inl err
          | Inr j \<Rightarrow> Inr (jh_JobID j, jh_ServerNonce j, jh_CreatedAt j), d1))"

definition job_record :: "JobHistory \<Rightarrow> JobRecord" where
  "job_record j = \<lparr>Nonce = jh_ServerNonce j, CreatedAt = jh_CreatedAt j\<rparr>"

definition pg_LoadJobHistory :: "'d gorm \<Rightarrow> go_time \<Rightarrow> duration \<Rightarrow> 'd \<Rightarrow> (error + (int \<rightharpoonup> JobRecord)) \<times> 'd" where
  "pg_LoadJobHistory g now since d =
     (let d1 = snd (AutoMigrate g ''JobHistory'' d);
          q = (if since > 0 then Some (time_add now (int64 (- since))) else None)
      in (case find_JobHistory g q d1 of
            Inl err \<Rightarrow> Inl err
          | Inr js \<Rightarrow> Inr (foldl (\<lambda>out j. out(jh_JobID j \<mapsto> job_record j)) Map.empty js), d1))"

definition pg_LoadUserState :: "'d gorm \<Rightarrow> string \<Rightarrow> 'd \<Rightarrow> (error + int \<times> string \<times> go_time) \<times> 'd" where
  "pg_LoadUserState g username d =
     (let d1 = snd (AutoMigrate g ''UserState'' d)
      in (case first_UserState g username d1 of
            Inl err \<Rightarrow> if err = ErrRecordNotFound then Inr (0, [], zero_time) else Inl err
          | Inr u \<Rightarrow> Inr (pu_LatestJobID u, pu_LatestServerNonce u, pu_LastSubmitAt u), d1))"

definition pg_SaveUserState :: "'d gorm \<Rightarrow> string \<Rightarrow> int \<Rightarrow> string \<Rightarrow> go_time \<Rightarrow> 'd \<Rightarrow> error option \<times> 'd" where
  "pg_SaveUserState g username j nonce lastSubmitAt d =
     (let d1 = snd (AutoMigrate g ''UserState'' d)
      in upsert_UserState g
           (\<lambda>old. old\<lparr>pu_LatestJobID := j, pu_LatestServerNonce := nonce, pu_LastSubmitAt := lastSubmitAt\<rparr>)
           \<lparr>pu_Username = username, pu_LatestJobID = j, pu_LatestServerNonce = nonce, pu_LastSubmitAt = lastSubmitAt\<rparr> d1)"

definition pg_SaveUsedNonce :: "'d gorm \<Rightarrow> string \<Rightarrow> int \<Rightarrow> string \<Rightarrow> 'd \<Rightarrow> error option \<times> 'd" where
  "pg_SaveUsedNonce g username j clientNonce d =
     (let d1 = snd (AutoMigrate g ''UsedNonce'' d)
      in create_UsedNonce g \<lparr>un_Username = username, un_JobID = j, un_ClientNonce = clientNonce\<rparr> d1)"

definition pg_HasUsedNonce :: "'d gorm \<Rightarrow> string \<Rightarrow> int \<Rightarrow> string \<Rightarrow> 'd \<Rightarrow> (error + bool) \<times> 'd" where
  "pg_HasUsedNonce g username j clientNonce d =
     (let d1 = snd (AutoMigrate g ''UsedNonce'' d)
      in (case first_UsedNonce g username j clientNonce d1 of
            Inl err \<Rightarrow> if err = ErrRecordNotFound then Inr False else Inl err
          | Inr _ \<Rightarrow> Inr True, d1))"

text \<open>
  As the interfaces of the server. A reader of \<open>StateStore\<close> returns no state: that its table
  now exists is the one thing left out, and every operation looks for its table anyway.
\<close>

definition pg_stats :: "'d gorm \<Rightarrow> 'd StatsStore" where
  "pg_stats g = \<lparr>Increment = pg_Increment g, Get = pg_Get g, store_Close = pg_Close g\<rparr>"

definition pg_state :: "'d gorm \<Rightarrow> 'd StateStore" where
  "pg_state g = \<lparr>SaveJob = pg_SaveJob g, LoadLatestJob = (\<lambda>d. fst (pg_LoadLatestJob g d)),
     LoadJobHistory = (\<lambda>now since d. fst (pg_LoadJobHistory g now since d)),
     LoadUserState = (\<lambda>u d. fst (pg_LoadUserState g u d)), SaveUserState = pg_SaveUserState g,
     SaveUsedNonce = pg_SaveUsedNonce g, HasUsedNonce = (\<lambda>u j n d. fst (pg_HasUsedNonce g u j n d)),
     state_Close = pg_Close g\<rparr>"

lemma pg_ops [simp]:
  "Increment (pg_stats g) = pg_Increment g" "Get (pg_stats g) = pg_Get g"
  "SaveJob (pg_state g) = pg_SaveJob g" "LoadLatestJob (pg_state g) d = fst (pg_LoadLatestJob g d)"
  "LoadJobHistory (pg_state g) now since d = fst (pg_LoadJobHistory g now since d)"
  by (simp_all add: pg_stats_def pg_state_def)

text \<open>The map the loop of \<open>LoadJobHistory\<close> builds.\<close>

lemma fold_rows:
  "j \<notin> jh_JobID ` set js \<Longrightarrow> foldl (\<lambda>out j. out(jh_JobID j \<mapsto> job_record j)) m js j = m j"
  "r \<in> set js \<Longrightarrow> distinct (map jh_JobID js) \<Longrightarrow>
     foldl (\<lambda>out j. out(jh_JobID j \<mapsto> job_record j)) m js (jh_JobID r) = Some (job_record r)"
proof -
  show *: "j \<notin> jh_JobID ` set js \<Longrightarrow> foldl (\<lambda>out j. out(jh_JobID j \<mapsto> job_record j)) m js j = m j" for j js m
    by (induction js arbitrary: m) auto
  show "r \<in> set js \<Longrightarrow> distinct (map jh_JobID js) \<Longrightarrow>
     foldl (\<lambda>out j. out(jh_JobID j \<mapsto> job_record j)) m js (jh_JobID r) = Some (job_record r)"
    by (induction js arbitrary: m) (auto simp: *)
qed

text \<open>The count of a slot that has been incremented \<open>n\<close> times since it was empty.\<close>

definition capped :: "nat \<Rightarrow> int option" where
  "capped n = (if n = 0 then None else Some (int (min 2 n)))"

subsection \<open>What the statements mean\<close>

text \<open>
  The tables as maps from their primary keys. \<open>stamp\<close> is a time as the database keeps it (its
  resolution and zone): what is read back, and what times are compared as.
\<close>

locale postgres =
  fixes g :: "'d gorm"
    and stamp :: "go_time \<Rightarrow> go_time"
    and subs :: "'d \<Rightarrow> string \<times> go_time \<rightharpoonup> int"
    and jobs :: "'d \<Rightarrow> int \<rightharpoonup> JobHistory"
    and users :: "'d \<Rightarrow> string \<rightharpoonup> UserState"
    and nonces :: "'d \<Rightarrow> (string \<times> int \<times> string) set"
  assumes migrate: "subs (snd (AutoMigrate g m d)) = subs d" "jobs (snd (AutoMigrate g m d)) = jobs d"
      "users (snd (AutoMigrate g m d)) = users d" "nonces (snd (AutoMigrate g m d)) = nonces d"
    and upsert_sub: "upsert_Submission g f r d = (None, d') \<Longrightarrow> subs d' = (subs d)((sm_Username r, stamp (sm_Timestamp r)) \<mapsto>
        (case subs d (sm_Username r, stamp (sm_Timestamp r)) of
           None \<Rightarrow> sm_SubmissionCount r
         | Some n \<Rightarrow> f (r\<lparr>sm_SubmissionCount := n\<rparr>) r))"
    and first_sub: "first_Submission g u t d = Inr r \<Longrightarrow> subs d (u, stamp t) = Some (sm_SubmissionCount r)"
      "first_Submission g u t d = Inl ErrRecordNotFound \<Longrightarrow> subs d (u, stamp t) = None"
    and create_job: "create_JobHistory g jr d = (None, d') \<Longrightarrow> jobs d' = (jobs d)(jh_JobID jr \<mapsto>
        (case jobs d (jh_JobID jr) of None \<Rightarrow> jr\<lparr>jh_CreatedAt := stamp (jh_CreatedAt jr)\<rparr> | Some old \<Rightarrow> old))"
    and last_job: "last_JobHistory g d = Inr jr \<Longrightarrow> jobs d (jh_JobID jr) = Some jr \<and> (\<forall>j \<in> dom (jobs d). j \<le> jh_JobID jr)"
      "last_JobHistory g d = Inl ErrRecordNotFound \<Longrightarrow> jobs d = Map.empty"
    and find_jobs: "find_JobHistory g q d = Inr js \<Longrightarrow> distinct (map jh_JobID js) \<and> (\<forall>jr. jr \<in> set js \<longleftrightarrow>
        jobs d (jh_JobID jr) = Some jr \<and> (case q of None \<Rightarrow> True | Some c \<Rightarrow> wall (stamp c) \<le> wall (jh_CreatedAt jr)))"
    and job_keys: "jobs d j = Some jr \<Longrightarrow> jh_JobID jr = j"
    and upsert_user: "upsert_UserState g h ur d = (None, d') \<Longrightarrow> (\<exists>s. users d' = (users d)(pu_Username ur \<mapsto>
          s\<lparr>pu_LastSubmitAt := stamp (pu_LastSubmitAt s)\<rparr>)
          \<and> s = (case users d (pu_Username ur) of None \<Rightarrow> ur | Some old \<Rightarrow> h old)) \<and> nonces d' = nonces d"
    and first_user: "first_UserState g u d = Inr s \<Longrightarrow> users d u = Some s"
      "first_UserState g u d = Inl ErrRecordNotFound \<Longrightarrow> users d u = None"
    and create_nonce: "create_UsedNonce g nr d = (None, d') \<Longrightarrow>
        nonces d' = insert (un_Username nr, un_JobID nr, un_ClientNonce nr) (nonces d) \<and> users d' = users d"
    and first_nonce: "first_UsedNonce g u j n d = Inr nr \<Longrightarrow> (u, j, n) \<in> nonces d"
      "first_UsedNonce g u j n d = Inl ErrRecordNotFound \<Longrightarrow> (u, j, n) \<notin> nonces d"
begin

lemma increment_capped:
  assumes "fst (pg_Increment g v s d) = None" "subs d (u, stamp (Truncate t Minute)) = capped n"
  shows "subs (snd (pg_Increment g v s d)) (u, stamp (Truncate t Minute))
    = capped (if v = u \<and> stamp (Truncate s Minute) = stamp (Truncate t Minute) then Suc n else n)"
proof -
  obtain d' where d': "pg_Increment g v s d = (None, d')" using assms(1) by (cases "pg_Increment g v s d") auto
  from upsert_sub [OF this [unfolded pg_Increment_def Let_def]] assms(2) show ?thesis
    by (auto simp: d' capped_def)
qed

lemma Get_table: "pg_Get g u t d = Inr n \<Longrightarrow> n = (case subs d (u, stamp (Truncate t Minute)) of None \<Rightarrow> 0 | Some k \<Rightarrow> k)"
  by (auto simp: pg_Get_def Let_def first_sub split: sum.splits if_splits)

lemma saved_job:
  assumes "fst (pg_SaveJob g j n t d) = None"
  shows "jobs (snd (pg_SaveJob g j n t d)) = (jobs d)(j \<mapsto> (case jobs d j of
      None \<Rightarrow> \<lparr>jh_JobID = j, jh_ServerNonce = n, jh_CreatedAt = stamp t\<rparr> | Some old \<Rightarrow> old))"
proof -
  obtain d' where d': "pg_SaveJob g j n t d = (None, d')" using assms by (cases "pg_SaveJob g j n t d") auto
  from create_job [OF this [unfolded pg_SaveJob_def Let_def]] show ?thesis by (simp add: d' migrate cong: option.case_cong)
qed

lemma history_rows:
  assumes "fst (pg_LoadJobHistory g now since d) = Inr h"
  shows "h j = (case jobs d j of None \<Rightarrow> None
    | Some r \<Rightarrow> if since \<le> 0 \<or> wall (stamp (time_add now (int64 (- since)))) \<le> wall (jh_CreatedAt r) then Some (job_record r) else None)"
proof -
  let ?q = "if since > 0 then Some (time_add now (int64 (- since))) else None"
  obtain js where js: "find_JobHistory g ?q (snd (AutoMigrate g ''JobHistory'' d)) = Inr js"
    "h = foldl (\<lambda>out j. out(jh_JobID j \<mapsto> job_record j)) Map.empty js"
    using assms by (auto simp: pg_LoadJobHistory_def Let_def split: sum.splits)
  note f = find_jobs [OF js(1), unfolded migrate]
  show ?thesis
  proof (cases "\<exists>r \<in> set js. jh_JobID r = j")
    case True
    then obtain r where r: "r \<in> set js" "jh_JobID r = j" by blast
    with fold_rows(2) [of r js Map.empty] f js(2) show ?thesis by (auto split: if_splits)
  next
    case False
    then show ?thesis using f fold_rows(1) [of j js Map.empty] js(2) job_keys [of d j] by (auto split: option.splits if_splits)
  qed
qed

end

subsection \<open>A reference database\<close>

text \<open>Tables as association lists, the first entry of a key being the row; times are kept as they are.\<close>

record Tables =
  t_subs :: "((string \<times> go_time) \<times> int) list"
  t_jobs :: "JobHistory list"
  t_users :: "(string \<times> UserState) list"
  t_nonces :: "(string \<times> int \<times> string) list"

definition empty_tables :: Tables where
  "empty_tables = \<lparr>t_subs = [], t_jobs = [], t_users = [], t_nonces = []\<rparr>"

definition job_table :: "Tables \<Rightarrow> int \<rightharpoonup> JobHistory" where
  "job_table d j = find (\<lambda>r. jh_JobID r = j) (t_jobs d)"

definition job_rows :: "Tables \<Rightarrow> JobHistory list" where
  "job_rows d = List.map_filter (job_table d) (remdups (map jh_JobID (t_jobs d)))"

definition in_span :: "go_time \<Rightarrow> go_time \<Rightarrow> go_time \<Rightarrow> bool" where
  "in_span start stop t \<longleftrightarrow> wall start \<le> wall t \<and> wall t \<le> wall stop"

definition span_rows :: "go_time \<Rightarrow> go_time \<Rightarrow> Tables \<Rightarrow> ((string \<times> go_time) \<times> int) list" where
  "span_rows start stop d = filter (\<lambda>((u, t), n). in_span start stop t) (AList.clearjunk (t_subs d))"

definition user_totals :: "((string \<times> go_time) \<times> int) list \<Rightarrow> (string \<times> int) list" where
  "user_totals rows = map (\<lambda>u. (u, sum_list (map snd (filter (\<lambda>((v, t), n). v = u) rows)))) (remdups (map (fst \<circ> fst) rows))"

definition max_job :: "JobHistory list \<Rightarrow> JobHistory option" where
  "max_job js = fold (\<lambda>r m. case m of None \<Rightarrow> Some r | Some s \<Rightarrow> if jh_JobID s < jh_JobID r then Some r else m) js None"

definition tables_gorm :: "Tables gorm" where
  "tables_gorm = \<lparr>
     AutoMigrate = (\<lambda>m d. (None, d)),
     upsert_Submission = (\<lambda>f r d. let k = (sm_Username r, sm_Timestamp r) in
       (None, d\<lparr>t_subs := (k, case map_of (t_subs d) k of
          None \<Rightarrow> sm_SubmissionCount r | Some n \<Rightarrow> f (r\<lparr>sm_SubmissionCount := n\<rparr>) r) # t_subs d\<rparr>)),
     first_Submission = (\<lambda>u t d. case map_of (t_subs d) (u, t) of
       None \<Rightarrow> Inl ErrRecordNotFound | Some n \<Rightarrow> Inr \<lparr>sm_Username = u, sm_Timestamp = t, sm_SubmissionCount = n\<rparr>),
     find_between = (\<lambda>u start stop d. Inr (sort_key (wall \<circ> sm_Timestamp)
       (map (\<lambda>((v, t), n). \<lparr>sm_Username = v, sm_Timestamp = t, sm_SubmissionCount = n\<rparr>)
         (filter (\<lambda>((v, t), n). v = u) (span_rows start stop d))))),
     top_between = (\<lambda>start stop limit d. Inr (take (nat limit) (rev (sort_key snd (user_totals (span_rows start stop d)))))),
     sum_between = (\<lambda>start stop d. Inr (sum_list (map snd (span_rows start stop d)))),
     create_JobHistory = (\<lambda>r d. (None, case job_table d (jh_JobID r) of None \<Rightarrow> d\<lparr>t_jobs := r # t_jobs d\<rparr> | Some _ \<Rightarrow> d)),
     last_JobHistory = (\<lambda>d. case max_job (job_rows d) of None \<Rightarrow> Inl ErrRecordNotFound | Some r \<Rightarrow> Inr r),
     find_JobHistory = (\<lambda>q d. Inr (filter (\<lambda>r. case q of None \<Rightarrow> True | Some c \<Rightarrow> wall c \<le> wall (jh_CreatedAt r)) (job_rows d))),
     upsert_UserState = (\<lambda>h r d. (None, d\<lparr>t_users := (pu_Username r, case map_of (t_users d) (pu_Username r) of
       None \<Rightarrow> r | Some old \<Rightarrow> h old) # t_users d\<rparr>)),
     first_UserState = (\<lambda>u d. case map_of (t_users d) u of None \<Rightarrow> Inl ErrRecordNotFound | Some s \<Rightarrow> Inr s),
     create_UsedNonce = (\<lambda>r d. (None, d\<lparr>t_nonces := List.insert (un_Username r, un_JobID r, un_ClientNonce r) (t_nonces d)\<rparr>)),
     first_UsedNonce = (\<lambda>u j n d. if (u, j, n) \<in> set (t_nonces d)
       then Inr \<lparr>un_Username = u, un_JobID = j, un_ClientNonce = n\<rparr> else Inl ErrRecordNotFound),
     sql_DB = (\<lambda>d. None), sql_Close = (\<lambda>d. (None, d))\<rparr>"

lemma job_table_key: "job_table d j = Some r \<Longrightarrow> jh_JobID r = j \<and> r \<in> set (t_jobs d)"
  by (auto simp: job_table_def find_Some_iff)

lemma job_rows_spec: "distinct (map jh_JobID (job_rows d))" "r \<in> set (job_rows d) \<longleftrightarrow> job_table d (jh_JobID r) = Some r"
proof -
  have set: "set (List.map_filter (job_table d) js) = {r. \<exists>j \<in> set js. job_table d j = Some r}" for js
    by (auto simp: List.map_filter_def image_iff) (metis option.sel)
  have "distinct js \<Longrightarrow> distinct (map jh_JobID (List.map_filter (job_table d) js))" for js
    by (induction js) (auto simp: map_filter_simps set dest!: job_table_key split: option.splits)
  then show "distinct (map jh_JobID (job_rows d))" by (simp add: job_rows_def)
  show "r \<in> set (job_rows d) \<longleftrightarrow> job_table d (jh_JobID r) = Some r"
    using job_table_key [of d _ r] by (auto simp: job_rows_def set)
qed

lemma max_job_fold:
  "fold (\<lambda>r m. case m of None \<Rightarrow> Some r | Some s \<Rightarrow> if jh_JobID s < jh_JobID r then Some r else m) js (Some s) = Some r \<Longrightarrow>
   r \<in> insert s (set js) \<and> (\<forall>x \<in> insert s (set js). jh_JobID x \<le> jh_JobID r)"
proof (induction js arbitrary: s)
  case (Cons a js)
  then show ?case by (fastforce split: if_splits)
qed simp

lemma max_job_spec:
  "max_job js = Some r \<Longrightarrow> r \<in> set js \<and> (\<forall>x \<in> set js. jh_JobID x \<le> jh_JobID r)" "max_job js = None \<longleftrightarrow> js = []"
proof -
  show "max_job js = Some r \<Longrightarrow> r \<in> set js \<and> (\<forall>x \<in> set js. jh_JobID x \<le> jh_JobID r)"
    using max_job_fold [of "tl js" "hd js" r] by (cases js) (simp_all add: max_job_def)
  have "fold (\<lambda>r m. case m of None \<Rightarrow> Some r | Some s \<Rightarrow> if jh_JobID s < jh_JobID r then Some r else m) xs (Some s) \<noteq> None" for xs s
    by (induction xs arbitrary: s) auto
  then show "max_job js = None \<longleftrightarrow> js = []" by (cases js) (simp_all add: max_job_def)
qed

lemma job_table_rows: "job_table d j \<noteq> None \<Longrightarrow> \<exists>r \<in> set (job_rows d). jh_JobID r = j"
proof -
  assume "job_table d j \<noteq> None"
  then obtain r where "job_table d j = Some r" by blast
  with job_table_key [OF this] show ?thesis by (intro bexI [of _ r]) (simp_all add: job_rows_spec(2))
qed

interpretation tabdb: postgres tables_gorm "\<lambda>t. t" "\<lambda>d. map_of (t_subs d)" job_table "\<lambda>d. map_of (t_users d)" "\<lambda>d. set (t_nonces d)"
proof
  fix d jr assume "last_JobHistory tables_gorm d = Inr jr"
  then have r: "max_job (job_rows d) = Some jr" by (simp add: tables_gorm_def split: option.splits)
  have "j \<le> jh_JobID jr" if "j \<in> dom (job_table d)" for j
    using max_job_spec(1) [OF r] job_table_rows [of d j] that by auto
  with max_job_spec(1) [OF r] job_rows_spec(2)
  show "job_table d (jh_JobID jr) = Some jr \<and> (\<forall>j \<in> dom (job_table d). j \<le> jh_JobID jr)" by blast
next
  fix d assume "last_JobHistory tables_gorm d = Inl ErrRecordNotFound"
  then have "job_rows d = []" by (simp add: tables_gorm_def max_job_spec(2) split: option.splits)
  then have "job_table d j = None" for j using job_table_rows [of d j] by (cases "job_table d j") auto
  then show "job_table d = Map.empty" by (simp add: fun_eq_iff)
next
  fix q d js assume "find_JobHistory tables_gorm q d = Inr js"
  then have "js = filter (\<lambda>r. case q of None \<Rightarrow> True | Some c \<Rightarrow> wall c \<le> wall (jh_CreatedAt r)) (job_rows d)"
    by (simp add: tables_gorm_def)
  then show "distinct (map jh_JobID js) \<and> (\<forall>jr. jr \<in> set js \<longleftrightarrow> job_table d (jh_JobID jr) = Some jr
      \<and> (case q of None \<Rightarrow> True | Some c \<Rightarrow> wall c \<le> wall (jh_CreatedAt jr)))"
    using job_rows_spec(1) [of d] job_rows_spec(2) [of _ d] by (auto simp: distinct_map_filter)
next
  fix d jr d' assume "create_JobHistory tables_gorm jr d = (None, d')"
  then show "job_table d' = (job_table d)(jh_JobID jr \<mapsto>
      (case job_table d (jh_JobID jr) of None \<Rightarrow> jr\<lparr>jh_CreatedAt := jh_CreatedAt jr\<rparr> | Some old \<Rightarrow> old))"
    by (auto simp: tables_gorm_def job_table_def fun_eq_iff split: option.splits)
next
  fix d j jr assume "job_table d j = Some jr"
  then show "jh_JobID jr = j" by (simp add: job_table_key)
next
  fix h ur d d' assume "upsert_UserState tables_gorm h ur d = (None, d')"
  then show "(\<exists>s. map_of (t_users d') = (map_of (t_users d))(pu_Username ur \<mapsto> s\<lparr>pu_LastSubmitAt := pu_LastSubmitAt s\<rparr>)
      \<and> s = (case map_of (t_users d) (pu_Username ur) of None \<Rightarrow> ur | Some old \<Rightarrow> h old)) \<and> set (t_nonces d') = set (t_nonces d)"
    by (auto simp: tables_gorm_def)
qed (auto simp: tables_gorm_def Let_def split: option.splits if_splits)

subsection \<open>Properties\<close>

primrec all_ok :: "'s StatsStore \<Rightarrow> SubmitEvent list \<Rightarrow> 's \<Rightarrow> bool" where
  "all_ok ops [] s \<longleftrightarrow> True"
| "all_ok ops (e # es) s \<longleftrightarrow> fst (Increment ops (ev_Username e) (ev_Time e) s) = None
     \<and> all_ok ops es (snd (Increment ops (ev_Username e) (ev_Time e) s))"

context postgres
begin

lemma increments_capped:
  "all_ok (pg_stats g) es d \<Longrightarrow> subs d (u, stamp (Truncate t Minute)) = capped n \<Longrightarrow>
   subs (increments (pg_stats g) es d) (u, stamp (Truncate t Minute))
     = capped (n + hits (\<lambda>t. stamp (Truncate t Minute)) u t es)"
proof (induction es arbitrary: d n)
  case (Cons e es)
  from Cons.prems have ok: "fst (pg_Increment g (ev_Username e) (ev_Time e) d) = None"
    "all_ok (pg_stats g) es (snd (pg_Increment g (ev_Username e) (ev_Time e) d))" by simp_all
  from Cons.IH [OF ok(2) increment_capped [OF ok(1) Cons.prems(2)]] show ?case by (auto simp: hits_def)
qed (simp add: hits_def)

lemma latest_job:
  assumes "fst (pg_LoadLatestJob g d) = Inr (j, n, t)" "jobs d k = Some r" "\<forall>i \<in> dom (jobs d). i \<le> k"
  shows "j = k \<and> n = jh_ServerNonce r \<and> t = jh_CreatedAt r"
proof (cases "last_JobHistory g (snd (AutoMigrate g ''JobHistory'' d))")
  case (Inr s)
  with assms(1) have "j = jh_JobID s" "n = jh_ServerNonce s" "t = jh_CreatedAt s" by (auto simp: pg_LoadLatestJob_def Let_def)
  moreover from last_job(1) [OF Inr] assms(2,3) have "jh_JobID s = k" by (auto simp: migrate intro: antisym)
  moreover from this last_job(1) [OF Inr] assms(2) have "s = r" by (simp add: migrate)
  ultimately show ?thesis by simp
next
  case (Inl e)
  with last_job(2) [of "snd (AutoMigrate g ''JobHistory'' d)"] assms(1,2) show ?thesis
    by (auto simp: pg_LoadLatestJob_def Let_def migrate split: if_splits)
qed

end

text \<open>
  C31: the PostgreSQL store does not count beyond two. On a conflict the statement adds one to
  the row that was to be inserted, whose count is always 1, not to the row in the table: after
  any number of successful increments of a user and minute the reported count is the smaller
  of that number and 2.
\<close>

theorem pg_count_capped:
  assumes "postgres g stamp subs jobs users nonces"
    and "all_ok (pg_stats g) es d" and "subs d (u, stamp (Truncate t Minute)) = None"
    and "pg_Get g u t (increments (pg_stats g) es d) = Inr n"
  shows "n = int (min 2 (hits (\<lambda>t. stamp (Truncate t Minute)) u t es))"
proof -
  have "subs d (u, stamp (Truncate t Minute)) = capped 0"
    using assms(3) by (simp add: capped_def)
  from postgres.increments_capped [OF assms(1,2) this] postgres.Get_table [OF assms(1,4)] show ?thesis
    by (simp add: capped_def split: if_splits)
qed

theorem pg_count_capped_witness:
  "pg_Get tables_gorm ''bob'' zero_time (increments (pg_stats tables_gorm)
     (replicate 3 \<lparr>ev_Username = ''bob'', ev_Time = zero_time\<rparr>) empty_tables) = Inr 2"
proof -
  let ?es = "replicate 3 \<lparr>ev_Username = ''bob'', ev_Time = zero_time\<rparr>"
  have ok: "all_ok (pg_stats tables_gorm) ?es empty_tables"
    by (simp add: numeral_3_eq_3 pg_Increment_def tables_gorm_def Let_def)
  obtain n where n: "pg_Get tables_gorm ''bob'' zero_time (increments (pg_stats tables_gorm) ?es empty_tables) = Inr n"
    by (simp add: numeral_3_eq_3 pg_Increment_def pg_Get_def tables_gorm_def Let_def)
  from pg_count_capped [OF tabdb.postgres_axioms ok _ n] show ?thesis unfolding n by (simp add: empty_tables_def hits_def)
qed

text \<open>
  C32: a server restarted on the database goes on where the old one stopped, when the save and
  the load succeeded and the number was new: the same job, the same nonce, the next number
  next. A number that is already taken keeps its old row (another server on the same
  database), so then the nonce that was broadcast is not the one a restart restores.
\<close>

theorem pg_restart_continues:
  fixes c :: "('p, 'd, 'q) Coordinator"
  assumes "postgres g stamp subs jobs users nonces" and "state c = Some (pg_state g)"
    and "old = rotateJob buf t t' c" and "0 < jobID old" and "\<forall>j \<in> dom (jobs (backend c)). j \<le> jobID old"
    and "fst (pg_SaveJob g (jobID old) (serverNonce old) t' (backend c)) = None"
    and "fst (pg_LoadLatestJob g (backend old)) = Inr found"
    and "new = restore now (NewCoordinator p po st (Some (pg_state g)) (backend old) m mo interval expire hw)"
  shows "jobID new = jobID old \<and> jobID (rotateJob buf2 t2 t2' new) = int64 (jobID old + 1)
    \<and> serverNonce new = (case jobs (backend c) (jobID old) of None \<Rightarrow> serverNonce old | Some r \<Rightarrow> jh_ServerNonce r)"
proof -
  have b: "backend old = snd (pg_SaveJob g (jobID old) (serverNonce old) t' (backend c))"
    unfolding assms(3) using assms(2) by (simp add: rotateJob_def Let_def)
  note s = postgres.saved_job [OF assms(1,6), folded b]
  let ?r = "case jobs (backend c) (jobID old) of
      None \<Rightarrow> \<lparr>jh_JobID = jobID old, jh_ServerNonce = serverNonce old, jh_CreatedAt = stamp t'\<rparr> | Some r \<Rightarrow> r"
  obtain j n u where f: "found = (j, n, u)" by (cases found)
  have l: "j = jobID old \<and> n = jh_ServerNonce ?r \<and> u = jh_CreatedAt ?r"
    by (rule postgres.latest_job [OF assms(1), of "backend old"]) (use assms(5,7) s f in auto)
  have "jobID new = j \<and> serverNonce new = n"
    using assms(4,7,8) f l by (auto simp: restore_def NewCoordinator_def Let_def split: sum.splits)
  with l show ?thesis by (auto simp: server_simps split: option.splits)
qed

definition pg_coord :: "(unit, Tables, unit) Coordinator" where
  "pg_coord = NewCoordinator \<lparr>sp_Push = (\<lambda>_ _ p. Ret (None, p))\<rparr> () (pg_stats tables_gorm) (Some (pg_state tables_gorm)) empty_tables
     \<lparr>Publish = (\<lambda>_ q. Ret (None, q)), q_Recv = (\<lambda>_. Block), q_Close = (\<lambda>q. Ret (None, q))\<rparr> () Second 0 0"

theorem pg_restart_continues_witness:
  "jobID (restore zero_time (NewCoordinator (srv pg_coord) () (store pg_coord) (Some (pg_state tables_gorm))
      (backend (rotateJob [2] zero_time zero_time pg_coord)) (mq pg_coord) () Second 0 0)) = 1"
proof -
  have c: "state pg_coord = Some (pg_state tables_gorm)" "backend pg_coord = empty_tables" "jobID pg_coord = 0"
    by (simp_all add: pg_coord_def NewCoordinator_def)
  have j: "jobID (rotateJob [2] zero_time zero_time pg_coord) = 1" by (simp add: server_simps c int64_def)
  have b: "backend (rotateJob [2] zero_time zero_time pg_coord)
      = snd (pg_SaveJob tables_gorm 1 (EncodeToString [2]) zero_time empty_tables)"
    using c by (simp add: rotateJob_def Let_def int64_def)
  have l: "fst (pg_LoadLatestJob tables_gorm (snd (pg_SaveJob tables_gorm 1 (EncodeToString [2]) zero_time empty_tables)))
      = Inr (1, EncodeToString [2], zero_time)"
    by (simp add: pg_LoadLatestJob_def pg_SaveJob_def tables_gorm_def Let_def empty_tables_def job_table_def job_rows_def
        max_job_def List.map_filter_def)
  have e: "\<forall>j \<in> dom (job_table (backend pg_coord)). j \<le> jobID (rotateJob [2] zero_time zero_time pg_coord)"
    by (simp add: c(2) empty_tables_def job_table_def dom_def)
  have s: "fst (pg_SaveJob tables_gorm (jobID (rotateJob [2] zero_time zero_time pg_coord))
      (serverNonce (rotateJob [2] zero_time zero_time pg_coord)) zero_time (backend pg_coord)) = None"
    by (simp add: pg_SaveJob_def tables_gorm_def Let_def)
  from j have "0 < jobID (rotateJob [2] zero_time zero_time pg_coord)" by simp
  from conjunct1 [OF pg_restart_continues [OF tabdb.postgres_axioms c(1) refl this e s l [folded b] refl]]
  show ?thesis unfolding j .
qed

text \<open>
  What the handler saves for an accepted submission can be loaded again: when the two
  statements succeed, the nonce is known as used (and no other is that was not before), and
  the user's job, nonce and time of the last submission are those saved, the time as the
  database keeps it.
\<close>

theorem pg_saved_state_loads:
  assumes "postgres g stamp subs jobs users nonces"
    and "pg_SaveUsedNonce g u j n d = (None, d1)" and "pg_SaveUserState g u k m t d1 = (None, d2)"
    and "fst (pg_LoadUserState g u d2) = Inr found" and "fst (pg_HasUsedNonce g v i x d2) = Inr b"
  shows "found = (k, m, stamp t) \<and> b = ((v, i, x) = (u, j, n) \<or> (v, i, x) \<in> nonces d)"
proof -
  note mig = postgres.migrate [OF assms(1)]
  have n1: "nonces d1 = insert (u, j, n) (nonces d)"
    using postgres.create_nonce [OF assms(1) assms(2) [unfolded pg_SaveUsedNonce_def Let_def]] by (simp add: mig)
  obtain s where s: "users d2 u = Some s" "pu_LatestJobID s = k" "pu_LatestServerNonce s = m" "pu_LastSubmitAt s = stamp t"
    and n2: "nonces d2 = nonces d1"
    using postgres.upsert_user [OF assms(1) assms(3) [unfolded pg_SaveUserState_def Let_def]]
    by (auto simp: mig split: option.splits)
  have "found = (k, m, stamp t)"
    using assms(4) s postgres.first_user [OF assms(1), of u "snd (AutoMigrate g ''UserState'' d2)"]
    by (auto simp: pg_LoadUserState_def Let_def mig split: sum.splits if_splits)
  moreover have "b = ((v, i, x) \<in> nonces d2)"
    using assms(5) postgres.first_nonce [OF assms(1), of v i x "snd (AutoMigrate g ''UsedNonce'' d2)"]
    by (auto simp: pg_HasUsedNonce_def Let_def mig split: sum.splits if_splits)
  ultimately show ?thesis using n1 n2 by auto
qed

theorem pg_saved_state_loads_witness:
  "\<exists>d2. pg_SaveUserState tables_gorm ''bob'' 1 ''02'' zero_time (snd (pg_SaveUsedNonce tables_gorm ''bob'' 1 ''aa'' empty_tables)) = (None, d2)
    \<and> fst (pg_LoadUserState tables_gorm ''bob'' d2) = Inr (1, ''02'', zero_time)
    \<and> fst (pg_HasUsedNonce tables_gorm ''bob'' 1 ''aa'' d2) = Inr True"
proof -
  obtain d1 where d1: "pg_SaveUsedNonce tables_gorm ''bob'' 1 ''aa'' empty_tables = (None, d1)"
    by (simp add: pg_SaveUsedNonce_def tables_gorm_def Let_def)
  obtain d2 where d2: "pg_SaveUserState tables_gorm ''bob'' 1 ''02'' zero_time d1 = (None, d2)"
    by (simp add: pg_SaveUserState_def tables_gorm_def Let_def)
  obtain b where b: "fst (pg_HasUsedNonce tables_gorm ''bob'' 1 ''aa'' d2) = Inr b"
    by (cases "(''bob'', 1, ''aa'') \<in> set (t_nonces d2)") (simp_all add: pg_HasUsedNonce_def tables_gorm_def Let_def)
  obtain f where f: "fst (pg_LoadUserState tables_gorm ''bob'' d2) = Inr f"
    using d2 by (auto simp: pg_SaveUserState_def pg_LoadUserState_def tables_gorm_def Let_def)
  from pg_saved_state_loads [OF tabdb.postgres_axioms d1 d2 f b] d1 d2 f b show ?thesis by simp
qed



end
