(* ===== verification/Go_Decimal.thy ===== *)
theory Go_Decimal
  imports Json_Print
begin

text \<open>
  Decimal digits as packages \<open>strconv\<close> and \<open>time\<close> print and read them: numbers padded with
  zeros to a width, fractions without their trailing zeros, and \<open>float64\<close> arithmetic as far as
  \<open>time.ParseDuration\<close> uses it.
\<close>

subsection \<open>Digits\<close>

definition digit :: "nat \<Rightarrow> char" where
  "digit k = char_of (48 + k)"

definition digit_val :: "char \<Rightarrow> nat" where
  "digit_val c = of_char c - 48"

text \<open>The last \<open>k\<close> decimal digits of \<open>n\<close>.\<close>

fun pad :: "nat \<Rightarrow> nat \<Rightarrow> string" where
  "pad 0 n = []"
| "pad (Suc k) n = pad k (n div 10) @ [digit (n mod 10)]"

definition strip_zeros :: "string \<Rightarrow> string" where
  "strip_zeros s = rev (dropWhile (\<lambda>c. c = CHR ''0'') (rev s))"

text \<open>A fraction of \<open>k\<close> digits, without trailing zeros, and without the point when nothing is left.\<close>

definition frac_text :: "nat \<Rightarrow> nat \<Rightarrow> string" where
  "frac_text k n = (let s = strip_zeros (pad k n) in if s = [] then [] else CHR ''.'' # s)"

lemma is_digit_digit [simp]: "k < 10 \<Longrightarrow> is_digit (digit k)"
  by (simp add: digit_def)

lemma of_char_digit [simp]: "k < 10 \<Longrightarrow> of_char (digit k) = 48 + k"
  by (simp add: digit_def)

lemma digit_zero_iff: "k < 10 \<Longrightarrow> digit k = CHR ''0'' \<longleftrightarrow> k = 0"
  by (simp add: digit_def char_eq_iff_of_char)

lemma length_pad [simp]: "length (pad k n) = k"
  by (induction k arbitrary: n) simp_all

lemma pad_digits [simp]: "list_all is_digit (pad k n)"
  by (induction k arbitrary: n) simp_all

lemma mod_power_Suc: "n mod 10 ^ Suc k = 10 * (n div 10 mod 10 ^ k) + n mod (10 :: nat)"
  by (simp add: mod_mult2_eq)

lemma digits_val_pad [simp]: "digits_val (pad k n) = n mod 10 ^ k"
proof (induction k arbitrary: n)
  case (Suc k)
  then show ?case by (simp add: digits_val_snoc mod_mult2_eq)
qed (simp add: digits_val_def)

lemma digits_val_Nil [simp]: "digits_val [] = 0"
  by (simp add: digits_val_def)

lemma strip_zeros_snoc: "strip_zeros (s @ [c]) = (if c = CHR ''0'' then strip_zeros s else s @ [c])"
  by (simp add: strip_zeros_def)

lemma strip_zeros_Nil [simp]: "strip_zeros [] = []"
  by (simp add: strip_zeros_def)

lemma strip_zeros_val:
  "length (strip_zeros s) \<le> length s \<and> (list_all is_digit s \<longrightarrow> list_all is_digit (strip_zeros s))
    \<and> digits_val s = digits_val (strip_zeros s) * 10 ^ (length s - length (strip_zeros s))"
proof (induction s rule: rev_induct)
  case (snoc c s)
  show ?case
  proof (cases "c = CHR ''0''")
    case True
    with snoc have "digits_val (s @ [c]) = 10 * (digits_val (strip_zeros s) * 10 ^ (length s - length (strip_zeros s)))"
      by (simp add: digits_val_snoc)
    with snoc True show ?thesis by (simp add: strip_zeros_snoc Suc_diff_le le_SucI)
  qed (simp add: strip_zeros_snoc)
qed simp

lemmas strip_zeros_digits = strip_zeros_val [THEN conjunct2, THEN conjunct1, rule_format]

lemma length_strip_zeros: "length (strip_zeros s) \<le> length s"
  using strip_zeros_val by blast

lemma strip_pad_val: "digits_val (strip_zeros (pad k n)) * 10 ^ (k - length (strip_zeros (pad k n))) = n mod 10 ^ k"
  using strip_zeros_val [of "pad k n"] by simp

lemma frac_text_zero: "n mod 10 ^ k = 0 \<Longrightarrow> frac_text k n = []"
proof -
  have "n mod 10 ^ k = 0 \<Longrightarrow> strip_zeros (pad k n) = []"
  proof (induction k arbitrary: n)
    case (Suc k)
    then have "n mod 10 = 0" "n div 10 mod 10 ^ k = 0" by (simp_all only: mod_power_Suc add_is_0 mult_is_0) auto
    with Suc.IH show ?case by (simp add: strip_zeros_snoc digit_zero_iff)
  qed simp
  then show "n mod 10 ^ k = 0 \<Longrightarrow> frac_text k n = []" by (simp add: frac_text_def)
qed

lemma digits_val_less: "list_all is_digit s \<Longrightarrow> digits_val s < 10 ^ length s"
proof (induction s rule: rev_induct)
  case (snoc c s)
  then have "of_char c - 48 < (10 :: nat)" "digits_val s < 10 ^ length s" by (auto simp: is_digit_def)
  then show ?case by (simp add: digits_val_snoc)
qed simp

lemma digits_val_Cons: "digits_val (c # s) = digit_val c * 10 ^ length s + digits_val s"
proof (induction s rule: rev_induct)
  case (snoc d s)
  then show ?case by (simp only: append_Cons [symmetric] digits_val_snoc) (simp add: algebra_simps)
qed (simp add: digits_val_def digit_val_def)

subsection \<open>Spans of digits\<close>

definition no_digit :: "string \<Rightarrow> bool" where
  "no_digit r \<longleftrightarrow> r = [] \<or> \<not> is_digit (hd r)"

lemma span_digits_append:
  assumes "list_all is_digit s" and "no_digit r"
  shows "span_digits (s @ r) = (s, r)"
  using assms by (induction s) (cases r; auto simp: no_digit_def span_digits_def)+

lemma no_digit_simps [simp]: "no_digit []" "no_digit (c # r) \<longleftrightarrow> \<not> is_digit c"
  by (simp_all add: no_digit_def)

subsection \<open>Double-precision numbers\<close>

text \<open>
  A non-negative \<open>float64\<close> is a fraction, its numerator and denominator. \<open>double p q\<close> is the quotient
  \<open>p / q\<close> rounded to 53 significant bits, ties to even; the numbers that occur are far from the
  limits of the exponent.
\<close>

fun bits :: "nat \<Rightarrow> nat" where
  "bits n = (if n = 0 then 0 else Suc (bits (n div 2)))"

declare bits.simps [simp del]

definition round_even :: "nat \<Rightarrow> nat \<Rightarrow> nat" where
  "round_even a b = (let q = a div b; r = a mod b in if 2 * r < b \<or> 2 * r = b \<and> even q then q else q + 1)"

definition double :: "nat \<Rightarrow> nat \<Rightarrow> nat \<times> nat" where
  "double p q =
     (if p = 0 then (0, 1)
      else let s = 53 - (int (bits p) - int (bits q));
               t = (if 2 ^ 53 * (q * 2 ^ nat (- s)) \<le> p * 2 ^ nat s then s - 1 else s)
           in (round_even (p * 2 ^ nat t) (q * 2 ^ nat (- t)) * 2 ^ nat (- t), 2 ^ nat t))"

lemma less_bits: "n < 2 ^ bits n"
proof (induction n rule: bits.induct)
  case (1 n)
  show ?case
  proof (cases "n = 0")
    case False
    with 1 have "n div 2 < 2 ^ bits (n div 2)" by blast
    then show ?thesis using False by (subst bits.simps) simp
  qed (simp add: bits.simps)
qed

lemma bits_le: "n < 2 ^ k \<Longrightarrow> bits n \<le> k"
proof (induction n arbitrary: k rule: bits.induct)
  case (1 n)
  show ?case
  proof (cases "n = 0")
    case False
    with "1.prems" obtain j where k: "k = Suc j" by (cases k) auto
    with "1.prems" have "n div 2 < 2 ^ j" by simp
    with 1 False k show ?thesis by (subst bits.simps) simp
  qed (simp add: bits.simps)
qed

text \<open>A whole number below \<open>2\<^sup>5\<^sup>3\<close> is exact.\<close>

lemma double_whole:
  assumes "v < 2 ^ 53" and "0 < q"
  shows "\<exists>b. double (v * q) q = (v * b, b) \<and> 0 < b"
proof (cases "v = 0")
  case False
  let ?s = "53 - (int (bits (v * q)) - int (bits q))"
  have "v * q < 2 ^ 53 * 2 ^ bits q" using assms less_bits [of q] by (intro mult_strict_mono) simp_all
  then have "bits (v * q) \<le> 53 + bits q" by (intro bits_le) (simp add: power_add)
  then have s: "0 \<le> ?s" by simp
  let ?t = "if 2 ^ 53 * q \<le> v * q * 2 ^ nat ?s then ?s - 1 else ?s"
  have t: "0 \<le> ?t"
  proof (cases "2 ^ 53 * q \<le> v * q * 2 ^ nat ?s")
    case True
    then have "2 ^ 53 * q \<le> (v * 2 ^ nat ?s) * q" by (simp add: ac_simps)
    then have "2 ^ 53 \<le> v * 2 ^ nat ?s" using assms(2) by simp
    with assms(1) have "nat ?s \<noteq> 0" by (intro notI) simp
    with True show ?thesis by simp
  next
    case False
    with s show ?thesis by simp
  qed
  have r: "round_even (v * q * w) q = v * w" for w
  proof -
    have "v * q * w = v * w * q" by (simp add: ac_simps)
    then show ?thesis using assms(2) by (simp add: round_even_def)
  qed
  have "double (v * q) q = (v * 2 ^ nat ?t, 2 ^ nat ?t)"
    using False assms(2) s t r by (auto simp: double_def Let_def)
  then show ?thesis by auto
qed (auto simp: double_def)

end
