(* ===== verification/Go_Calendar.thy ===== *)
theory Go_Calendar
  imports Prelude
begin

text \<open>
  The proleptic Gregorian calendar of package \<open>time\<close>: day numbers (day 0 is January 1 of year 1)
  to year, month and day, and back.
\<close>

definition leap :: "int \<Rightarrow> bool" where
  "leap y \<longleftrightarrow> y mod 4 = 0 \<and> (y mod 100 \<noteq> 0 \<or> y mod 400 = 0)"

definition month_lengths :: "int \<Rightarrow> int list" where
  "month_lengths y = [31, if leap y then 29 else 28, 31, 30, 31, 30, 31, 31, 30, 31, 30, 31]"

text \<open>\<open>daysIn\<close> for a month from 1 to 12.\<close>

definition daysIn :: "int \<Rightarrow> int \<Rightarrow> int" where
  "daysIn m y = month_lengths y ! nat (m - 1)"

definition days_before_year :: "int \<Rightarrow> int" where
  "days_before_year y = (let x = y - 1 in 365 * x + x div 4 - x div 100 + x div 400)"

definition day_number :: "int \<Rightarrow> int \<Rightarrow> int \<Rightarrow> int" where
  "day_number y m d = days_before_year y + sum_list (take (nat (m - 1)) (month_lengths y)) + (d - 1)"

text \<open>The year of a day and the day within it, by cycles of 400, 100, 4 and 1 years.\<close>

definition year_day :: "int \<Rightarrow> int \<times> int" where
  "year_day n =
     (let q = n div 146097; r = n mod 146097;
          c = min 3 (r div 36524); r1 = r - 36524 * c;
          f = r1 div 1461; r2 = r1 - 1461 * f;
          a = min 3 (r2 div 365)
      in (400 * q + 100 * c + 4 * f + a + 1, r2 - 365 * a))"

fun month_day :: "int list \<Rightarrow> int \<Rightarrow> int \<times> int" where
  "month_day [] k = (1, k + 1)"
| "month_day (l # ls) k = (if k < l then (1, k + 1) else (case month_day ls (k - l) of (m, d) \<Rightarrow> (m + 1, d)))"

definition civil :: "int \<Rightarrow> int \<times> int \<times> int" where
  "civil n = (case year_day n of (y, k) \<Rightarrow> (case month_day (month_lengths y) k of (m, d) \<Rightarrow> (y, m, d)))"

subsection \<open>The two directions agree\<close>

lemma div_sum: "0 \<le> b \<Longrightarrow> b < k \<Longrightarrow> x = k * a + b \<Longrightarrow> x div k = (a :: int)" "0 \<le> b \<Longrightarrow> b < k \<Longrightarrow> x = k * a + b \<Longrightarrow> x mod k = (b :: int)"
  by (simp_all add: div_pos_pos_trivial)

lemma sum_month_lengths [simp]: "sum_list (month_lengths y) = (if leap y then 366 else 365)" "length (month_lengths y) = 12"
  by (simp_all add: month_lengths_def)

lemma month_lengths_pos: "\<forall>l \<in> set (month_lengths y). 28 \<le> l \<and> l \<le> 31"
  by (simp add: month_lengths_def)

lemma year_day_sound:
  assumes "year_day n = (y, k)"
  shows "0 \<le> k \<and> k < (if leap y then 366 else 365) \<and> days_before_year y + k = n"
proof -
  define q r where "q = n div 146097" and "r = n mod 146097"
  define c where "c = min 3 (r div 36524)"
  define r1 where "r1 = r - 36524 * c"
  define f where "f = r1 div 1461"
  define r2 where "r2 = r1 - 1461 * f"
  define a where "a = min 3 (r2 div 365)"
  have n: "n = 146097 * q + r" "0 \<le> r" "r < 146097" by (simp_all add: q_def r_def)
  have c: "0 \<le> c" "c \<le> 3" "0 \<le> r1" "r1 < 36524 \<or> c = 3 \<and> r1 = 36524"
    using n(2,3) by (auto simp: c_def r1_def min_def)
  have r2: "r2 = r1 mod 1461" by (simp add: r2_def f_def minus_mult_div_eq_mod)
  have f0: "0 \<le> r2" "r2 < 1461" "0 \<le> f" "r1 = 1461 * f + r2" using c(3) by (simp_all add: r2) (simp_all add: f_def pos_imp_zdiv_nonneg_iff)
  have "r1 \<le> 36524" using c(4) by auto
  with f0 have "f \<le> 24" by linarith
  moreover have "r2 < 1460 \<or> c = 3" if "f = 24"
  proof (cases "c = 3")
    case False
    with c(4) have "r1 < 36524" by blast
    with f0(4) that show ?thesis by simp
  qed simp
  ultimately have f: "0 \<le> f" "f \<le> 24" "0 \<le> r2" "r2 < 1461" "f = 24 \<Longrightarrow> r2 < 1460 \<or> c = 3" using f0 by blast+
  have a: "0 \<le> a" "a \<le> 3" "0 \<le> r2 - 365 * a" "r2 - 365 * a < 365 \<or> a = 3 \<and> r2 = 1460"
    using f(3,4) by (auto simp: a_def min_def)
  have "year_day n = (400 * q + 100 * c + 4 * f + a + 1, r2 - 365 * a)"
    unfolding year_day_def Let_def a_def r2_def f_def r1_def c_def q_def r_def by (rule refl)
  with assms have y: "y = 400 * q + 100 * c + 4 * f + a + 1" and k: "k = r2 - 365 * a" by auto
  let ?x = "y - 1"
  have d4: "?x div 4 = 100 * q + 25 * c + f" using a(1,2) by (intro div_sum(1) [of a]) (simp_all add: y)
  have d100: "?x div 100 = 4 * q + c" using a f by (intro div_sum(1) [of "4 * f + a"]) (simp_all add: y)
  have d400: "?x div 400 = q" using a f c by (intro div_sum(1) [of "100 * c + 4 * f + a"]) (simp_all add: y)
  have "days_before_year y + k = n"
    unfolding days_before_year_def Let_def d4 d100 d400 using n(1) by (simp add: k y r1_def r2_def)
  moreover have "leap y" if "365 \<le> k"
  proof -
    have a3: "a = 3" "r2 = 1460" using a(4) that k by auto
    have m: "y mod 4 = 0" using a3 by (intro div_sum(2) [of 0 4 _ "100 * q + 25 * c + f + 1"]) (simp_all add: y)
    show ?thesis
    proof (cases "f = 24")
      case True
      with f(5) a3 have "c = 3" by auto
      with True a3 have "y mod 400 = 0" by (intro div_sum(2) [of 0 400 _ "q + 1"]) (simp_all add: y)
      with m show ?thesis by (simp add: leap_def)
    next
      case False
      with f(1,2) a3 have "y mod 100 = 4 * f + 4" by (intro div_sum(2) [of _ 100 _ "4 * q + c"]) (simp_all add: y)
      with m f(1) show ?thesis by (simp add: leap_def)
    qed
  qed
  ultimately show ?thesis using a(3,4) k by auto
qed

lemma month_day_sound:
  "0 \<le> k \<Longrightarrow> k < sum_list ls \<Longrightarrow> month_day ls k = (m, d) \<Longrightarrow>
   1 \<le> m \<and> m \<le> int (length ls) \<and> 1 \<le> d \<and> d \<le> ls ! nat (m - 1) \<and> sum_list (take (nat (m - 1)) ls) + (d - 1) = k"
proof (induction ls arbitrary: k m)
  case (Cons l ls)
  show ?case
  proof (cases "k < l")
    case False
    with Cons.prems obtain m' where m': "month_day ls (k - l) = (m', d)" "m = m' + 1" by (auto split: prod.splits)
    with Cons.IH [of "k - l" m'] Cons.prems False have ih: "1 \<le> m'" "m' \<le> int (length ls)" "1 \<le> d" "d \<le> ls ! nat (m' - 1)"
      "sum_list (take (nat (m' - 1)) ls) + (d - 1) = k - l" by auto
    then obtain j where "nat (m - 1) = Suc j" "nat (m' - 1) = j" using m'(2) by (cases "nat (m - 1)") auto
    with ih m'(2) show ?thesis by simp
  qed (use Cons.prems in auto)
qed simp

theorem civil_sound:
  assumes "civil n = (y, m, d)"
  shows "day_number y m d = n \<and> 1 \<le> m \<and> m \<le> 12 \<and> 1 \<le> d \<and> d \<le> daysIn m y"
proof -
  from assms obtain k where k: "year_day n = (y, k)" "month_day (month_lengths y) k = (m, d)"
    by (auto simp: civil_def split: prod.splits)
  from year_day_sound [OF k(1)] have b: "0 \<le> k" "k < sum_list (month_lengths y)" "days_before_year y + k = n" by simp_all
  from month_day_sound [OF b(1,2) k(2)] b(3) show ?thesis by (simp add: day_number_def daysIn_def)
qed

lemma daysIn_le: "1 \<le> m \<Longrightarrow> m \<le> 12 \<Longrightarrow> daysIn m y \<le> 31"
  using month_lengths_pos [of y] by (simp add: daysIn_def)

end
