(* ===== verification/Go_Rfc3339.thy ===== *)
theory Go_Rfc3339
  imports Go_Decimal Go_Calendar Go_Time
begin

text \<open>
  \<open>Time.Format\<close> and \<open>time.Parse\<close> with the layouts \<open>RFC3339\<close> and \<open>RFC3339Nano\<close>, and the strict form the
  JSON methods of \<open>time.Time\<close> use. The offset of the local zone, in seconds east of UTC at a Unix
  time, comes from the zone database of the machine and is a parameter.
\<close>

type_synonym zone = "int \<Rightarrow> int"

definition unix_sec :: "int \<Rightarrow> int" where
  "unix_sec w = w div 1000000000 - 62135596800"

definition offset_of :: "zone \<Rightarrow> location \<Rightarrow> int \<Rightarrow> int" where
  "offset_of z l u = (case l of UTC \<Rightarrow> 0 | Local \<Rightarrow> z u | Fixed off _ \<Rightarrow> off)"

definition zone_offset :: "zone \<Rightarrow> go_time \<Rightarrow> int" where
  "zone_offset z t = offset_of z (loc t) (unix_sec (wall t))"

definition local_sec :: "zone \<Rightarrow> go_time \<Rightarrow> int" where
  "local_sec z t = wall t div 1000000000 + zone_offset z t"

definition Date :: "zone \<Rightarrow> go_time \<Rightarrow> int \<times> int \<times> int" where
  "Date z t = civil (local_sec z t div 86400)"

subsection \<open>Formatting\<close>

text \<open>\<open>appendInt\<close> with a width.\<close>

definition appendInt :: "nat \<Rightarrow> int \<Rightarrow> string" where
  "appendInt w i = (if i < 0 then ''-'' else []) @ (let n = nat \<bar>i\<bar> in if n < 10 ^ w then pad w n else show_nat n)"

definition zone_text :: "int \<Rightarrow> string" where
  "zone_text off =
     (if off = 0 then ''Z''
      else let m = \<bar>off\<bar> div 60
           in (if off < 0 \<and> 0 < m then ''-'' else ''+'') @ appendInt 2 (m div 60) @ '':'' @ appendInt 2 (m mod 60))"

definition date_text :: "int \<times> int \<times> int \<Rightarrow> string" where
  "date_text ymd = (case ymd of (y, m, d) \<Rightarrow> appendInt 4 y @ ''-'' @ appendInt 2 m @ ''-'' @ appendInt 2 d)"

definition clock_text :: "int \<Rightarrow> string" where
  "clock_text s = appendInt 2 (s div 3600) @ '':'' @ appendInt 2 (s div 60 mod 60) @ '':'' @ appendInt 2 (s mod 60)"

definition format_rfc3339 :: "bool \<Rightarrow> zone \<Rightarrow> go_time \<Rightarrow> string" where
  "format_rfc3339 nanos z t =
     date_text (Date z t) @ ''T'' @ clock_text (local_sec z t mod 86400)
     @ (if nanos then frac_text 9 (nat (wall t mod 1000000000)) else []) @ zone_text (zone_offset z t)"

definition Format_RFC3339 :: "zone \<Rightarrow> go_time \<Rightarrow> string" where
  "Format_RFC3339 = format_rfc3339 False"

subsection \<open>Parsing\<close>

definition getnum :: "bool \<Rightarrow> string \<Rightarrow> (nat \<times> string) option" where
  "getnum fixed s =
     (if s = [] \<or> \<not> is_digit (hd s) then None
      else if tl s = [] \<or> \<not> is_digit (hd (tl s)) then (if fixed then None else Some (digit_val (hd s), tl s))
      else Some (digit_val (hd s) * 10 + digit_val (hd (tl s)), tl (tl s)))"

definition get_year :: "string \<Rightarrow> (nat \<times> string) option" where
  "get_year s = (if length (take 4 s) = 4 \<and> list_all is_digit (take 4 s) then Some (digits_val (take 4 s), drop 4 s) else None)"

definition expect :: "char \<Rightarrow> string \<Rightarrow> string option" where
  "expect c s = (if s \<noteq> [] \<and> hd s = c then Some (tl s) else None)"

text \<open>A number of a field, within its range, after a separator.\<close>

definition field :: "char \<Rightarrow> bool \<Rightarrow> nat \<Rightarrow> nat \<Rightarrow> string \<Rightarrow> (nat \<times> string) option" where
  "field c fixed lo hi s =
     (case expect c s of None \<Rightarrow> None | Some r \<Rightarrow>
        (case getnum fixed r of None \<Rightarrow> None | Some (n, r') \<Rightarrow> if lo \<le> n \<and> n \<le> hi then Some (n, r') else None))"

text \<open>The fraction of a second: the first nine digits count; a comma is only accepted leniently.\<close>

definition parse_fraction :: "bool \<Rightarrow> string \<Rightarrow> nat \<times> string" where
  "parse_fraction lenient s =
     (if 2 \<le> length s \<and> (hd s = CHR ''.'' \<or> lenient \<and> hd s = CHR '','') \<and> is_digit (s ! 1)
      then (let ds = takeWhile is_digit (tl s); n9 = take 9 ds
            in (digits_val n9 * 10 ^ (9 - length n9), dropWhile is_digit (tl s)))
      else (0, s))"

text \<open>The zone: \<open>None\<close> inside for \<open>Z\<close>, the offset in seconds otherwise. It must end the text.\<close>

definition parse_zone :: "bool \<Rightarrow> string \<Rightarrow> int option option" where
  "parse_zone lenient s =
     (if s = ''Z'' then Some None
      else if length s \<noteq> 6 \<or> hd s \<notin> {CHR ''+'', CHR ''-''} then None
      else case field (hd s) True 0 (if lenient then 24 else 23) s of
          None \<Rightarrow> None
        | Some (hr, r) \<Rightarrow>
            (case field (CHR '':'') True 0 (if lenient then 60 else 59) r of
               None \<Rightarrow> None
             | Some (mm, _) \<Rightarrow> let off = int ((hr * 60 + mm) * 60) in Some (Some (if hd s = CHR ''-'' then - off else off))))"

text \<open>
  \<open>FixedZone("", off)\<close>: whole hours from -12 to 14 share one location each, any other offset gets a
  new one, at the address \<open>p\<close>.
\<close>

definition FixedZone :: "int \<Rightarrow> nat \<Rightarrow> location" where
  "FixedZone off p = Fixed off (if off mod 3600 = 0 \<and> - 43200 \<le> off \<and> off \<le> 50400 then 0 else Suc p)"

definition place :: "zone \<Rightarrow> nat \<Rightarrow> int option \<Rightarrow> int \<Rightarrow> go_time" where
  "place z p zo w =
     (case zo of
        None \<Rightarrow> \<lparr>wall = w, mono = None, loc = UTC\<rparr>
      | Some off \<Rightarrow>
          let w' = w - off * 1000000000
          in \<lparr>wall = w', mono = None, loc = (if z (unix_sec w') = off then Local else FixedZone off p)\<rparr>)"

definition parse_rfc3339 :: "bool \<Rightarrow> zone \<Rightarrow> nat \<Rightarrow> string \<Rightarrow> go_time option" where
  "parse_rfc3339 lenient z p s0 =
     (case get_year s0 of None \<Rightarrow> None | Some (y, s1) \<Rightarrow>
      (case field (CHR ''-'') True 1 12 s1 of None \<Rightarrow> None | Some (mo, s2) \<Rightarrow>
       (case field (CHR ''-'') True 1 (nat (daysIn (int mo) (int y))) s2 of None \<Rightarrow> None | Some (d, s3) \<Rightarrow>
        (case field (CHR ''T'') (\<not> lenient) 0 23 s3 of None \<Rightarrow> None | Some (h, s4) \<Rightarrow>
         (case field (CHR '':'') True 0 59 s4 of None \<Rightarrow> None | Some (mi, s5) \<Rightarrow>
          (case field (CHR '':'') True 0 59 s5 of None \<Rightarrow> None | Some (sec, s6) \<Rightarrow>
           (case parse_fraction lenient s6 of (ns, s7) \<Rightarrow>
            (case parse_zone lenient s7 of None \<Rightarrow> None | Some zo \<Rightarrow>
               Some (place z p zo ((day_number (int y) (int mo) (int d) * 86400 + int (h * 3600 + mi * 60 + sec)) * 1000000000 + int ns))))))))))"

text \<open>\<open>time.Parse(time.RFC3339, s)\<close>, and what \<open>UnmarshalJSON\<close> accepts.\<close>

definition Parse_RFC3339 :: "zone \<Rightarrow> nat \<Rightarrow> string \<Rightarrow> go_time option" where
  "Parse_RFC3339 = parse_rfc3339 True"

definition parseStrictRFC3339 :: "zone \<Rightarrow> nat \<Rightarrow> string \<Rightarrow> go_time option" where
  "parseStrictRFC3339 = parse_rfc3339 False"

text \<open>\<open>appendStrictRFC3339\<close>: the year has four digits and the zone less than 24 hours.\<close>

definition strict_ok :: "zone \<Rightarrow> go_time \<Rightarrow> bool" where
  "strict_ok z t \<longleftrightarrow> (case Date z t of (y, _) \<Rightarrow> 0 \<le> y \<and> y \<le> 9999) \<and> \<bar>zone_offset z t\<bar> < 86400"

subsection \<open>What is printed is read back\<close>

lemma digit_val_digit [simp]: "k < 10 \<Longrightarrow> digit_val (digit k) = k"
  by (simp add: digit_val_def)

lemma getnum_pad: "n < 100 \<Longrightarrow> getnum fixed (pad 2 n @ r) = Some (n, r)"
  by (simp add: getnum_def numeral_2_eq_2)

lemma appendInt_pad: "0 \<le> i \<Longrightarrow> i < 10 ^ w \<Longrightarrow> appendInt w i = pad w (nat i)"
  by (simp add: appendInt_def nat_less_iff)

lemma field_text:
  assumes "0 \<le> i" "i < 100" "lo \<le> nat i" "nat i \<le> hi"
  shows "field c fixed lo hi (c # appendInt 2 i @ r) = Some (nat i, r)"
  using assms by (simp add: field_def expect_def appendInt_pad getnum_pad nat_less_iff)

lemma get_year_text: "0 \<le> y \<Longrightarrow> y \<le> 9999 \<Longrightarrow> get_year (appendInt 4 y @ r) = Some (nat y, r)"
  by (simp add: get_year_def appendInt_pad)

lemma parse_fraction_text:
  assumes "no_digit r" "r = [] \<or> hd r \<notin> {CHR ''.'', CHR '',''}"
  shows "parse_fraction lenient (frac_text 9 n @ r) = (n mod 10 ^ 9, r)"
proof -
  let ?s = "strip_zeros (pad 9 n)"
  have v: "digits_val ?s * 10 ^ (9 - length ?s) = n mod 10 ^ 9" by (rule strip_pad_val)
  show ?thesis
  proof (cases "?s = []")
    case True
    with v assms(2) show ?thesis by (auto simp: frac_text_def parse_fraction_def)
  next
    case False
    have d: "list_all is_digit ?s" by (simp add: strip_zeros_digits)
    have l: "length ?s \<le> 9" using length_strip_zeros [of "pad 9 n"] by simp
    have "is_digit (hd ?s)" using False d by (cases ?s) simp_all
    moreover have "takeWhile is_digit (?s @ r) = ?s" "dropWhile is_digit (?s @ r) = r"
      using span_digits_append [OF d assms(1)] by (simp_all add: span_digits_def)
    moreover have "Suc 0 \<le> length ?s" using False by (cases ?s) simp_all
    ultimately show ?thesis using False v l by (simp add: frac_text_def Let_def trans_le_add1 parse_fraction_def hd_conv_nth nth_append)
  qed
qed

lemma zone_text_start: "no_digit (zone_text off)" "hd (zone_text off) \<notin> {CHR ''.'', CHR '',''}"
  by (simp_all add: zone_text_def Let_def is_digit_def)

lemma offset_FixedZone [simp]: "offset_of z (FixedZone off p) u = off"
  by (simp add: offset_of_def FixedZone_def)

lemma parse_zone_text:
  assumes "off mod 60 = 0" "\<bar>off\<bar> < 86400"
  shows "parse_zone lenient (zone_text off) = Some (if off = 0 then None else Some off)"
proof (cases "off = 0")
  case False
  define m where "m = \<bar>off\<bar> div 60"
  from assms(1) obtain j where j: "off = 60 * j" by (auto simp: mod_eq_0_iff_dvd)
  then have mj: "m = \<bar>j\<bar>" by (simp add: m_def abs_mult)
  with j have off: "off = (if off < 0 then - (60 * m) else 60 * m)" by simp
  have m: "0 < m" "m < 1440" using assms(2) False j mj by auto
  let ?sg = "if off < 0 then CHR ''-'' else CHR ''+''"
  have z: "zone_text off = ?sg # appendInt 2 (m div 60) @ CHR '':'' # appendInt 2 (m mod 60) @ []"
    using False m(1) by (simp add: zone_text_def m_def Let_def)
  have h: "0 \<le> m div 60" "m div 60 < 100" "nat (m div 60) \<le> (if lenient then 24 else 23)" using m by auto
  have mi: "0 \<le> m mod 60" "m mod 60 < 100" "nat (m mod 60) \<le> (if lenient then 60 else 59)" by (auto simp: nat_le_iff)
  have "length (zone_text off) = 6" using h mi by (simp add: z appendInt_pad)
  moreover have "int ((nat (m div 60) * 60 + nat (m mod 60)) * 60) = 60 * m"
  proof -
    have "int (nat (m div 60)) = m div 60" "int (nat (m mod 60)) = m mod 60" using h(1) mi(1) by simp_all
    with div_mult_mod_eq [of m 60] show ?thesis by (simp only: of_nat_mult of_nat_add of_nat_numeral)
  qed
  ultimately show ?thesis
    using False off z field_text [OF h(1,2) _ h(3), of 0 ?sg True] field_text [OF mi(1,2) _ mi(3), of 0 "CHR '':''" True "[]"]
    by (auto simp: parse_zone_def Let_def)
qed (simp add: zone_text_def parse_zone_def)

text \<open>The fields of the clock within a day.\<close>

lemma clock_fields:
  assumes "0 \<le> s" "s < 86400"
  shows "s div 3600 * 3600 + s div 60 mod 60 * 60 + s mod 60 = (s :: int)" "0 \<le> s div 3600" "s div 3600 \<le> 23"
    "0 \<le> s div 60 mod 60" "s div 60 mod 60 \<le> 59" "0 \<le> s mod 60" "s mod 60 \<le> 59"
proof -
  have "s div 3600 = s div 60 div 60" by (simp add: zdiv_zmult2_eq [symmetric])
  then show "s div 3600 * 3600 + s div 60 mod 60 * 60 + s mod 60 = s"
    using div_mult_mod_eq [of s 60] div_mult_mod_eq [of "s div 60" 60] by linarith
qed (use assms in \<open>auto simp: zdiv_mono1 pos_imp_zdiv_nonneg_iff div_less_iff_less_mult\<close>)

lemma field_text_nat:
  assumes "n < 100" "lo \<le> n" "n \<le> hi"
  shows "field c fixed lo hi (c # appendInt 2 (int n) @ r) = Some (n, r)"
  using field_text [of "int n" lo hi] assms by simp

lemma parse_fields:
  assumes "y \<le> 9999" and "1 \<le> m" "m \<le> 12" "1 \<le> d" "int d \<le> daysIn (int m) (int y)" and "h \<le> 23" "mi \<le> 59" "sec \<le> 59"
    and off: "off mod 60 = 0" "\<bar>off\<bar> < 86400"
    and fr: "parse_fraction lenient (fr @ zone_text off) = (n, zone_text off)"
  shows "parse_rfc3339 lenient z p (appendInt 4 (int y) @ CHR ''-'' # appendInt 2 (int m) @ CHR ''-'' # appendInt 2 (int d) @ CHR ''T'' #
      appendInt 2 (int h) @ CHR '':'' # appendInt 2 (int mi) @ CHR '':'' # appendInt 2 (int sec) @ fr @ zone_text off)
    = Some (place z p (if off = 0 then None else Some off)
        ((day_number (int y) (int m) (int d) * 86400 + int (h * 3600 + mi * 60 + sec)) * 1000000000 + int n))"
proof -
  have "d \<le> 31" using assms(2-5) daysIn_le [of "int m" "int y"] by simp
  then show ?thesis
    using assms by (simp add: parse_rfc3339_def get_year_text field_text_nat parse_zone_text [OF off] nat_le_iff le_nat_iff
        del: of_nat_add of_nat_mult)
qed

lemma parse_civil:
  assumes y: "0 \<le> y" "y \<le> 9999" and md: "1 \<le> m" "m \<le> 12" "1 \<le> d" "d \<le> daysIn m y" and s: "0 \<le> s" "s < 86400"
    and off: "off mod 60 = 0" "\<bar>off\<bar> < 86400" and fr: "parse_fraction lenient (fr @ zone_text off) = (n, zone_text off)"
  shows "parse_rfc3339 lenient z p (date_text (y, m, d) @ ''T'' @ clock_text s @ fr @ zone_text off)
    = Some (place z p (if off = 0 then None else Some off) ((day_number y m d * 86400 + s) * 1000000000 + int n))"
proof -
  note cf = clock_fields [OF s]
  obtain y' m' d' where i: "y = int y'" "m = int m'" "d = int d'"
    using y(1) md(1,3) by (metis nat_0_le order_trans zero_le_one)
  obtain h mi sec where c: "s div 3600 = int h" "s div 60 mod 60 = int mi" "s mod 60 = int sec"
    using cf(2,4,6) by (metis nat_0_le)
  have "int (h * 3600 + mi * 60 + sec) = s" using cf(1) by (simp add: c)
  with parse_fields [of y' m' d' h mi sec off lenient fr n z p] y md cf(3,5,7) off fr show ?thesis
    by (simp add: date_text_def clock_text_def i c del: of_nat_add of_nat_mult)
qed

text \<open>
  The time read back from the printed form: the same instant (to the second without the
  fraction), no monotonic reading, and the location the offset gives.
\<close>

definition reread :: "bool \<Rightarrow> zone \<Rightarrow> nat \<Rightarrow> go_time \<Rightarrow> go_time" where
  "reread nanos z p t = \<lparr>wall = (if nanos then wall t else wall t - wall t mod 1000000000), mono = None,
     loc = (let off = zone_offset z t
            in if off = 0 then UTC else if z (unix_sec (wall t)) = off then Local else FixedZone off p)\<rparr>"

lemma unix_sec_whole [simp]: "unix_sec (w - w mod 1000000000) = unix_sec w"
  by (simp add: unix_sec_def minus_mod_eq_mult_div)

lemma place_reread:
  assumes "w = wall (reread nanos z p t) + zone_offset z t * 1000000000"
  shows "place z p (if zone_offset z t = 0 then None else Some (zone_offset z t)) w = reread nanos z p t"
  using assms by (auto simp: place_def reread_def Let_def)

theorem parse_format:
  assumes "strict_ok z t" and "zone_offset z t mod 60 = 0"
  shows "parse_rfc3339 lenient z p (format_rfc3339 nanos z t) = Some (reread nanos z p t)"
proof -
  obtain y m d where date: "Date z t = (y, m, d)" by (cases "Date z t") auto
  let ?s = "local_sec z t mod 86400" and ?n = "if nanos then nat (wall t mod 1000000000) else 0" and ?zt = "zone_text (zone_offset z t)"
  have y: "0 \<le> y" "y \<le> 9999" and off: "\<bar>zone_offset z t\<bar> < 86400" using assms(1) date by (auto simp: strict_ok_def)
  from date have dn: "day_number y m d = local_sec z t div 86400" and md: "1 \<le> m" "m \<le> 12" "1 \<le> d" "d \<le> daysIn m y"
    using civil_sound [of "local_sec z t div 86400" y m d] by (simp_all add: Date_def)
  have "parse_fraction lenient ((if nanos then frac_text 9 ?n else []) @ ?zt) = (?n, ?zt)"
    using parse_fraction_text [of ?zt lenient ?n] zone_text_start [of "zone_offset z t"]
    by (auto simp: parse_fraction_def nat_less_iff)
  from parse_civil [OF y md _ _ assms(2) off this, of ?s]
  have "parse_rfc3339 lenient z p (date_text (y, m, d) @ ''T'' @ clock_text ?s @ (if nanos then frac_text 9 ?n else []) @ ?zt)
    = Some (place z p (if zone_offset z t = 0 then None else Some (zone_offset z t)) ((day_number y m d * 86400 + ?s) * 1000000000 + int ?n))" by simp
  moreover have "(day_number y m d * 86400 + ?s) * 1000000000 + int ?n = wall (reread nanos z p t) + zone_offset z t * 1000000000"
  proof -
    have "day_number y m d * 86400 + ?s = wall t div 1000000000 + zone_offset z t"
      unfolding dn using div_mult_mod_eq [of "local_sec z t" 86400] by (simp add: local_sec_def)
    moreover have "wall t div 1000000000 * 1000000000 = wall t - wall t mod 1000000000" by (simp add: minus_mod_eq_div_mult)
    ultimately show ?thesis by (simp add: reread_def algebra_simps)
  qed
  ultimately show ?thesis by (cases nanos) (simp_all add: format_rfc3339_def date place_reread)
qed

text \<open>The printed form depends on the instant and the offset only.\<close>

lemma format_cong: "wall t = wall u \<Longrightarrow> zone_offset z t = zone_offset z u \<Longrightarrow> format_rfc3339 nanos z t = format_rfc3339 nanos z u"
  by (simp add: format_rfc3339_def Date_def local_sec_def)

end
