(* ===== verification/Event_Json.thy ===== *)
theory Event_Json
  imports Types Protocol Go_Rfc3339
begin

text \<open>
  The JSON form of a \<open>SubmitEvent\<close> (\<open>events/events.go\<close>) as it travels through RabbitMQ: the structure
  has no tags, so its members carry the names of the fields, and the time is printed and read by
  the methods of \<open>time.Time\<close>.
\<close>

definition Time_MarshalJSON :: "zone \<Rightarrow> go_time \<Rightarrow> string option" where
  "Time_MarshalJSON z t =
     (if strict_ok z t then Some ([quote_char] @ format_rfc3339 True z t @ [quote_char]) else None)"

definition Time_UnmarshalJSON :: "zone \<Rightarrow> nat \<Rightarrow> string \<Rightarrow> go_time \<Rightarrow> go_time \<times> error option" where
  "Time_UnmarshalJSON z p raw old =
     (if raw = ''null'' then (old, None)
      else if length raw < 2 \<or> hd raw \<noteq> quote_char \<or> last raw \<noteq> quote_char
      then (old, Some (ErrorMsg ''Time.UnmarshalJSON: input is not a JSON string''))
      else case parseStrictRFC3339 z p (butlast (tl raw)) of
          Some t \<Rightarrow> (t, None)
        | None \<Rightarrow> (zero_time, Some JSONSyntaxError))"

text \<open>\<open>json.Marshal(evt)\<close>, nil when it fails; \<open>json.Unmarshal\<close> into a new event, nothing when it fails.\<close>

definition marshal_event :: "zone \<Rightarrow> SubmitEvent \<Rightarrow> bytes" where
  "marshal_event z e =
     (case Time_MarshalJSON z (ev_Time e) of
        None \<Rightarrow> []
      | Some t \<Rightarrow> bytes_of (json_object [(''Username'', json_string (ev_Username e)), (''Time'', t)]))"

definition set_SubmitEvent :: "zone \<Rightarrow> nat \<Rightarrow> string \<Rightarrow> string \<Rightarrow> json \<Rightarrow> SubmitEvent \<Rightarrow> SubmitEvent \<times> error option" where
  "set_SubmitEvent z p t raw v e =
     (if t = ''Username'' then (case store_string v (ev_Username e) of (x, err) \<Rightarrow> (e\<lparr>ev_Username := x\<rparr>, err))
      else (case Time_UnmarshalJSON z p raw (ev_Time e) of (x, err) \<Rightarrow> (e\<lparr>ev_Time := x\<rparr>, err)))"

definition unmarshal_event :: "zone \<Rightarrow> nat \<Rightarrow> bytes \<Rightarrow> SubmitEvent option" where
  "unmarshal_event z p b =
     (case Unmarshal [''Username'', ''Time''] (set_SubmitEvent z p) \<lparr>ev_Username = [], ev_Time = zero_time\<rparr> (string_of b) of
        (e, None) \<Rightarrow> Some e
      | (_, Some _) \<Rightarrow> None)"

subsection \<open>Round trip\<close>

text \<open>The text of a time needs no escapes.\<close>

definition time_char :: "char \<Rightarrow> bool" where
  "time_char c \<longleftrightarrow> is_digit c \<or> c \<in> set ''-:T.+Z''"

lemma time_char_digits: "list_all is_digit s \<Longrightarrow> list_all time_char s"
  by (auto simp: list_all_iff time_char_def)

lemma time_char_appendInt: "list_all time_char (appendInt w i)"
  using show_nat_digits by (auto simp: appendInt_def Let_def time_char_digits) (simp_all add: time_char_def)

lemma time_char_frac: "list_all time_char (frac_text k n)"
  by (auto simp: frac_text_def Let_def time_char_digits strip_zeros_digits) (simp add: time_char_def)

lemma time_char_format: "list_all time_char (format_rfc3339 nanos z t)"
proof -
  have s: "time_char (CHR ''-'')" "time_char (CHR '':'')" "time_char (CHR ''T'')" "time_char (CHR ''Z'')" "time_char (CHR ''+'')"
    by (simp_all add: time_char_def)
  then have "list_all time_char (date_text ymd)" "list_all time_char (clock_text k)" "list_all time_char (zone_text off)" for ymd k off
    by (auto simp: date_text_def clock_text_def zone_text_def Let_def time_char_appendInt split: prod.splits)
  with s show ?thesis by (simp add: format_rfc3339_def time_char_frac)
qed

lemma quote_time_char:
  assumes "time_char c"
  shows "of_char c < (128 :: nat)" "quote_ascii c = [c]"
proof -
  have "of_char c < (128 :: nat) \<and> quote_ascii c = [c]"
  proof (cases "is_digit c")
    case True
    then have "c \<noteq> quote_char" "c \<noteq> backslash_char" "c \<noteq> CHR 0x08" "c \<noteq> CHR 0x0C" "c \<noteq> CHR 0x0A" "c \<noteq> CHR 0x0D" "c \<noteq> CHR 0x09"
      "\<not> html_unsafe c" "\<not> in_range 0x00 0x1F c" "of_char c < (128 :: nat)"
      by (auto simp: is_digit_def html_unsafe_def)
    then show ?thesis by (simp only: quote_ascii_def) simp
  next
    case False
    with assms have "c \<in> set ''-:T.+Z''" by (simp only: time_char_def simp_thms)
    moreover have "list_all (\<lambda>c. of_char c < (128 :: nat) \<and> quote_ascii c = [c]) ''-:T.+Z''" by code_simp
    ultimately show ?thesis by (simp only: list_all_iff)
  qed
  then show "of_char c < (128 :: nat)" "quote_ascii c = [c]" by blast+
qed

lemma quote_time_chars: "list_all time_char s \<Longrightarrow> quote_body s = s \<and> valid_utf8 s"
proof (induction s)
  case (Cons c s)
  then have c: "of_char c < (128 :: nat)" "quote_ascii c = [c]" by (simp_all add: quote_time_char)
  with Cons show ?case by (simp add: quote_body_ascii)
qed (simp add: quote_body.simps)

definition ok_event :: "zone \<Rightarrow> SubmitEvent \<Rightarrow> bool" where
  "ok_event z e \<longleftrightarrow> valid_utf8 (ev_Username e) \<and> strict_ok z (ev_Time e) \<and> zone_offset z (ev_Time e) mod 60 = 0"

text \<open>What the text keeps of an event: the time loses its monotonic reading and its location is the one of its offset.\<close>

definition kept :: "zone \<Rightarrow> nat \<Rightarrow> SubmitEvent \<Rightarrow> SubmitEvent" where
  "kept z p e = e\<lparr>ev_Time := reread True z p (ev_Time e)\<rparr>"

theorem unmarshal_marshal:
  assumes "ok_event z e"
  shows "unmarshal_event z p (marshal_event z e) = Some (kept z p e)"
proof -
  let ?t = "format_rfc3339 True z (ev_Time e)"
  let ?fs = "[str_field ''Username'' (ev_Username e), str_field ''Time'' ?t]"
  have q: "quote_body ?t = ?t" "valid_utf8 ?t" using quote_time_chars [OF time_char_format] by blast+
  have ok: "valid_utf8 (ev_Username e)" "strict_ok z (ev_Time e)" "zone_offset z (ev_Time e) mod 60 = 0" using assms by (simp_all add: ok_event_def)
  have "marshal_event z e = bytes_of (json_object (printed ?fs))"
    using ok(2) q by (simp add: marshal_event_def Time_MarshalJSON_def json_string_def)
  moreover have "list_all (good_field 1) ?fs" using ok(1) q(2) by (simp add: renders_string)
  moreover have "Time_UnmarshalJSON z p (json_string ?t) old = (reread True z p (ev_Time e), None)" for old
    using parse_format [OF ok(2,3), of False p True] q(1)
    by (simp add: Time_UnmarshalJSON_def json_string_def parseStrictRFC3339_def)
  ultimately show ?thesis
    using Unmarshal_object [of ?fs "[''Username'', ''Time'']" "set_SubmitEvent z p" "\<lparr>ev_Username = [], ev_Time = zero_time\<rparr>"]
    by (simp add: unmarshal_event_def field_defs set_SubmitEvent_def kept_def)
qed

lemma unmarshal_empty [simp]: "unmarshal_event z p [] = None"
  by (simp add: unmarshal_event_def Unmarshal_def string_of_def parse_value.simps)

end
