(* ===== verification/Rabbit_Queue.thy ===== *)
theory Rabbit_Queue
  imports App_Server Event_Json
begin

text \<open>
  \<open>mq/rabbitmq.go\<close>: the message queue on RabbitMQ. The client library and the broker are a
  parameter: a record with one function per call, over the state of the broker as this
  connection sees it. The body of a message is the JSON text of theory \<open>Event_Json\<close>; \<open>z\<close> is the
  offset of the local zone. A location made while decoding is told apart by the delivery tag.
\<close>

subsection \<open>Operations\<close>

record 'b amqp =
  ch_Publish :: "bytes \<Rightarrow> 'b \<Rightarrow> error option \<times> 'b"
  m_Ack :: "nat \<Rightarrow> 'b \<Rightarrow> 'b"
  m_Nack :: "nat \<Rightarrow> 'b \<Rightarrow> 'b"
  ch_Close :: "'b \<Rightarrow> 'b"
  am_Close :: "'b \<Rightarrow> error option \<times> 'b"

record 'b RabbitMQ =
  rb_broker :: 'b
  rb_out :: "SubmitEvent gochan"

text \<open>
  \<open>NewRabbitMQ\<close>: the results of \<open>Dial\<close>, \<open>Channel\<close> and \<open>QueueDeclare\<close>; the consumer goroutine is
  started on the queue that is returned.
\<close>

definition NewRabbitMQ :: "error option \<Rightarrow> error option \<Rightarrow> error option \<Rightarrow> 'b \<Rightarrow> error + 'b RabbitMQ" where
  "NewRabbitMQ dialed channel declared b =
     (case dialed of Some err \<Rightarrow> Inl err | None \<Rightarrow>
      (case channel of Some err \<Rightarrow> Inl err | None \<Rightarrow>
       (case declared of Some err \<Rightarrow> Inl err | None \<Rightarrow> Inr \<lparr>rb_broker = b, rb_out = make_chan 1024\<rparr>)))"

definition rb_Publish :: "'b amqp \<Rightarrow> zone \<Rightarrow> SubmitEvent \<Rightarrow> 'b RabbitMQ \<Rightarrow> (error option \<times> 'b RabbitMQ) outcome" where
  "rb_Publish am z evt r =
     (case ch_Publish am (marshal_event z evt) (rb_broker r) of (err, b) \<Rightarrow> Ret (err, r\<lparr>rb_broker := b\<rparr>))"

text \<open>
  \<open>consume\<close>: when the subscription fails the output is closed; otherwise the loop over the
  deliveries, each a delivery tag and a body, here the list of those that arrive before the
  broker closes the stream.
\<close>

definition on_delivery :: "'b amqp \<Rightarrow> zone \<Rightarrow> nat \<times> bytes \<Rightarrow> 'b RabbitMQ \<Rightarrow> 'b RabbitMQ outcome" where
  "on_delivery am z m r =
     (case unmarshal_event z (fst m) (snd m) of
        Some evt \<Rightarrow>
          (case chan_send evt (rb_out r) of
             Ret out \<Rightarrow> Ret (r\<lparr>rb_out := out, rb_broker := m_Ack am (fst m) (rb_broker r)\<rparr>)
           | Block \<Rightarrow> Block
           | Panic \<Rightarrow> Panic)
      | None \<Rightarrow> Ret (r\<lparr>rb_broker := m_Nack am (fst m) (rb_broker r)\<rparr>))"

fun on_deliveries :: "'b amqp \<Rightarrow> zone \<Rightarrow> (nat \<times> bytes) list \<Rightarrow> 'b RabbitMQ \<Rightarrow> 'b RabbitMQ outcome" where
  "on_deliveries am z [] r = Ret r"
| "on_deliveries am z (m # ms) r = bind_outcome (on_delivery am z m r) (on_deliveries am z ms)"

definition rb_consume :: "'b amqp \<Rightarrow> zone \<Rightarrow> error + (nat \<times> bytes) list \<Rightarrow> 'b RabbitMQ \<Rightarrow> 'b RabbitMQ outcome" where
  "rb_consume am z msgs r =
     (case msgs of
        Inl err \<Rightarrow> bind_outcome (chan_close (rb_out r)) (\<lambda>out. Ret (r\<lparr>rb_out := out\<rparr>))
      | Inr ms \<Rightarrow> on_deliveries am z ms r)"

definition rb_Recv :: "'b RabbitMQ \<Rightarrow> (SubmitEvent option \<times> 'b RabbitMQ) outcome" where
  "rb_Recv r = bind_outcome (chan_recv (rb_out r)) (\<lambda>(v, out). Ret (v, r\<lparr>rb_out := out\<rparr>))"

definition rb_Close :: "'b amqp \<Rightarrow> 'b RabbitMQ \<Rightarrow> (error option \<times> 'b RabbitMQ) outcome" where
  "rb_Close am r = bind_outcome (chan_close (rb_out r)) (\<lambda>out.
     case am_Close am (ch_Close am (rb_broker r)) of (err, b) \<Rightarrow> Ret (err, r\<lparr>rb_out := out, rb_broker := b\<rparr>))"

definition rabbit_queue :: "'b amqp \<Rightarrow> zone \<Rightarrow> 'b RabbitMQ MessageQueue" where
  "rabbit_queue am z = \<lparr>Publish = rb_Publish am z, q_Recv = rb_Recv, q_Close = rb_Close am\<rparr>"

subsection \<open>What the consumer does\<close>

text \<open>The events of a list of deliveries, and what the broker is told about each.\<close>

definition decoded :: "zone \<Rightarrow> (nat \<times> bytes) list \<Rightarrow> SubmitEvent list" where
  "decoded z ms = List.map_filter (\<lambda>m. unmarshal_event z (fst m) (snd m)) ms"

definition settle :: "'b amqp \<Rightarrow> zone \<Rightarrow> (nat \<times> bytes) list \<Rightarrow> 'b \<Rightarrow> 'b" where
  "settle am z ms = fold (\<lambda>m. if unmarshal_event z (fst m) (snd m) = None then m_Nack am (fst m) else m_Ack am (fst m)) ms"

lemma decoded_simps [simp]:
  "decoded z [] = []" "decoded z (m # ms) = (case unmarshal_event z (fst m) (snd m) of None \<Rightarrow> decoded z ms | Some e \<Rightarrow> e # decoded z ms)"
  by (simp_all add: decoded_def map_filter_simps split: option.splits)

lemma settle_simps [simp]:
  "settle am z [] b = b"
  "settle am z (m # ms) b = settle am z ms (if unmarshal_event z (fst m) (snd m) = None then m_Nack am (fst m) b else m_Ack am (fst m) b)"
  by (simp_all add: settle_def)

lemma on_deliveries_room:
  "\<not> cclosed (rb_out r) \<Longrightarrow> length (cbuf (rb_out r)) + length (decoded z ms) \<le> ccap (rb_out r) \<Longrightarrow>
   on_deliveries am z ms r = Ret (r\<lparr>rb_out := (rb_out r)\<lparr>cbuf := cbuf (rb_out r) @ decoded z ms\<rparr>,
     rb_broker := settle am z ms (rb_broker r)\<rparr>)"
proof (induction ms arbitrary: r)
  case (Cons m ms)
  show ?case
  proof (cases "unmarshal_event z (fst m) (snd m)")
    case None
    with Cons.IH [of "r\<lparr>rb_broker := m_Nack am (fst m) (rb_broker r)\<rparr>"] Cons.prems show ?thesis
      by (simp add: on_delivery_def)
  next
    case (Some e)
    with Cons.IH [of "r\<lparr>rb_out := (rb_out r)\<lparr>cbuf := cbuf (rb_out r) @ [e]\<rparr>, rb_broker := m_Ack am (fst m) (rb_broker r)\<rparr>"] Cons.prems
    show ?thesis by (simp add: on_delivery_def chan_send_def)
  qed
qed simp

text \<open>
  C34: on a new connection the consumer forwards up to 1024 deliveries without anyone receiving:
  when the broker hands over the bodies that were published, the receiver gets the published
  events in their order and every delivery is acknowledged. The text of an event keeps the user
  and the instant to the nanosecond; the monotonic reading is lost, and the location becomes
  \<open>UTC\<close> for the offset 0, otherwise the local zone when it has that offset.
\<close>

theorem rabbit_forwards:
  assumes "NewRabbitMQ dialed channel declared b = Inr r" and "length ms \<le> 1024"
    and "map snd ms = map (marshal_event z) es" and "list_all (ok_event z) es"
  shows "\<exists>r'. rb_consume am z (Inr ms) r = Ret r' \<and> cbuf (rb_out r') = map2 (\<lambda>m. kept z (fst m)) ms es
    \<and> rb_broker r' = fold (\<lambda>m. m_Ack am (fst m)) ms b"
proof -
  have r: "r = \<lparr>rb_broker = b, rb_out = make_chan 1024\<rparr>"
    using assms(1) by (simp add: NewRabbitMQ_def split: option.splits)
  have "decoded z ms = map2 (\<lambda>m. kept z (fst m)) ms es \<and> settle am z ms b = fold (\<lambda>m. m_Ack am (fst m)) ms b" for b
    using assms(3,4)
  proof (induction ms arbitrary: es b)
    case (Cons m ms)
    then obtain e es' where "es = e # es'" by (cases es) auto
    with Cons.prems Cons.IH [of es'] show ?case by (simp add: unmarshal_marshal)
  qed simp
  moreover have "length es = length ms" using assms(3) by (metis length_map)
  ultimately show ?thesis
    using on_deliveries_room [of r z ms am] assms(2) by (simp add: rb_consume_def r make_chan_def)
qed

text \<open>A broker that keeps the bodies and the settled deliveries.\<close>

type_synonym log_broker = "bytes list \<times> (nat \<times> bool) list"

definition log_amqp :: "error option \<Rightarrow> log_broker amqp" where
  "log_amqp e = \<lparr>ch_Publish = (\<lambda>body (q, l). (None, (q @ [body], l))), m_Ack = (\<lambda>t (q, l). (q, l @ [(t, True)])),
     m_Nack = (\<lambda>t (q, l). (q, l @ [(t, False)])), ch_Close = (\<lambda>b. b), am_Close = (\<lambda>b. (e, b))\<rparr>"

definition bob_event :: SubmitEvent where
  "bob_event = \<lparr>ev_Username = ''bob'', ev_Time = zero_time\<rparr>"

lemma bob_event_ok: "ok_event z bob_event"
  by (simp add: ok_event_def bob_event_def strict_ok_def Date_def zone_offset_def local_sec_def offset_of_def zero_time_def
      civil_def year_day_def month_lengths_def leap_def)

theorem rabbit_forwards_witness:
  "\<exists>r'. rb_consume (log_amqp None) (\<lambda>_. 0) (Inr [(7, marshal_event (\<lambda>_. 0) bob_event)]) \<lparr>rb_broker = ([], []), rb_out = make_chan 1024\<rparr> = Ret r'
    \<and> cbuf (rb_out r') = [bob_event] \<and> rb_broker r' = ([], [(7, True)])"
proof -
  have "kept (\<lambda>_. 0) 7 bob_event = bob_event"
    by (simp add: kept_def bob_event_def reread_def zone_offset_def offset_of_def zero_time_def)
  with rabbit_forwards [of None None None "([], [])" "\<lparr>rb_broker = ([], []), rb_out = make_chan 1024\<rparr>" "[(7, marshal_event (\<lambda>_. 0) bob_event)]"
      "\<lambda>_. 0" "[bob_event]" "log_amqp None"] bob_event_ok show ?thesis by (auto simp: NewRabbitMQ_def log_amqp_def)
qed

subsection \<open>Closing\<close>

text \<open>
  C35: \<open>Close\<close> is not safe to repeat and not safe against the consumer. If closing the connection
  fails, the retry in the server's \<open>Shutdown\<close> closes the closed output channel, and the whole
  shutdown panics before the store and the connections are closed; and a delivery the consumer
  decodes after a \<open>Close\<close> is a send on the closed channel, which panics as well.
\<close>

theorem rabbit_close_panics:
  assumes "mq (coord a) = rabbit_queue am z" and "mq_obj (coord a) = r" and "\<not> cclosed (rb_out r)"
    and "am_Close am (ch_Close am (rb_broker r)) = (Some err, b)"
    and "\<not> cclosed (stopConsume a)" and "\<not> cclosed (stopCh (coord a))" and "unmarshal_event z tag body = Some evt"
  shows "Shutdown t0 t1 ctx_done order a = Panic
    \<and> (\<exists>r'. rb_Close am r = Ret (Some err, r') \<and> on_delivery am z (tag, body) r' = Panic)"
proof -
  let ?r = "r\<lparr>rb_out := (rb_out r)\<lparr>cclosed := True\<rparr>, rb_broker := b\<rparr>"
  have c: "rb_Close am r = Ret (Some err, ?r)"
    using assms(3,4) by (simp add: rb_Close_def chan_close_def)
  have p: "rb_Close am ?r = Panic" by (simp add: rb_Close_def chan_close_def)
  have "retry 3 (rb_Close am) None r = Panic"
    using c p by (simp add: numeral_3_eq_3)
  then have "Shutdown t0 t1 ctx_done order a = Panic"
    using assms(1,2,5,6)
    by (simp add: Shutdown_def stop_consumer_def stop_coord_def Stop_def close_mq_def chan_close_def rabbit_queue_def)
  moreover have "\<exists>r'. rb_Close am r = Ret (Some err, r') \<and> on_delivery am z (tag, body) r' = Panic"
    using c assms(7) by (simp add: on_delivery_def chan_send_def)
  ultimately show ?thesis by blast
qed

theorem rabbit_close_panics_witness:
  "Shutdown zero_time zero_time (\<lambda>_. False) [] (NewAppServer ''l'' memory_stats None NewMemoryStore
     (rabbit_queue (log_amqp (Some EOF)) (\<lambda>_. 0)) \<lparr>rb_broker = ([], []), rb_out = make_chan 1024\<rparr> Second 0 0) = Panic"
proof -
  let ?a = "NewAppServer ''l'' memory_stats None NewMemoryStore (rabbit_queue (log_amqp (Some EOF)) (\<lambda>_. 0))
      \<lparr>rb_broker = ([], []), rb_out = make_chan 1024\<rparr> Second 0 0"
  have "mq (coord ?a) = rabbit_queue (log_amqp (Some EOF)) (\<lambda>_. 0)" "\<not> cclosed (stopConsume ?a)" "\<not> cclosed (stopCh (coord ?a))"
    "mq_obj (coord ?a) = \<lparr>rb_broker = ([], []), rb_out = make_chan 1024\<rparr>"
    by (simp_all add: NewAppServer_def NewCoordinator_def Let_def make_chan_def)
  from rabbit_close_panics [OF this(1,4) _ _ this(2,3), of EOF "([], [])" 7 "marshal_event (\<lambda>_. 0) bob_event" "kept (\<lambda>_. 0) 7 bob_event"] show ?thesis
    by (simp add: make_chan_def log_amqp_def unmarshal_marshal bob_event_ok)
qed

end
