(* ===== verification/Go_Duration.thy ===== *)
theory Go_Duration
  imports Go_Decimal Go_Time
begin

text \<open>
  \<open>time.ParseDuration\<close> and \<open>Duration.String\<close>, which the server's configuration and its status
  report use. Unsigned 64-bit intermediate values are natural numbers with the overflow checks
  of the library written out. The main result is that the printed form of every duration is
  read back exactly.
\<close>

subsection \<open>Reading\<close>

fun leadingInt :: "nat \<Rightarrow> string \<Rightarrow> (nat \<times> string) option" where
  "leadingInt x [] = Some (x, [])"
| "leadingInt x (c # s) =
     (if \<not> is_digit c then Some (x, c # s)
      else if 2 ^ 63 div 10 < x then None
      else let y = x * 10 + digit_val c in if 2 ^ 63 < y then None else leadingInt y s)"

text \<open>The digits of a fraction and the number of digits kept; digits that no longer fit are skipped.\<close>

fun leadingFraction :: "bool \<Rightarrow> nat \<Rightarrow> nat \<Rightarrow> string \<Rightarrow> nat \<times> nat \<times> string" where
  "leadingFraction overflow x k [] = (x, k, [])"
| "leadingFraction overflow x k (c # s) =
     (if \<not> is_digit c then (x, k, c # s)
      else if overflow \<or> (2 ^ 63 - 1) div 10 < x then leadingFraction True x k s
      else let y = x * 10 + digit_val c
           in if 2 ^ 63 < y then leadingFraction True x k s else leadingFraction False y (Suc k) s)"

definition unitMap :: "string \<Rightarrow> nat option" where
  "unitMap u =
     (if u = ''ns'' then Some 1
      else if u = ''us'' \<or> u = [CHR 0xC2, CHR 0xB5, CHR ''s''] \<or> u = [CHR 0xCE, CHR 0xBC, CHR ''s''] then Some 1000
      else if u = ''ms'' then Some 1000000
      else if u = ''s'' then Some 1000000000
      else if u = ''m'' then Some 60000000000
      else if u = ''h'' then Some 3600000000000
      else None)"

definition num_char :: "char \<Rightarrow> bool" where
  "num_char c \<longleftrightarrow> c = CHR ''.'' \<or> is_digit c"

text \<open>\<open>uint64(float64(f) * (float64(unit) / scale))\<close> with \<open>scale = 10\<^sup>k\<close>, which is exact for the \<open>k\<close> that occur.\<close>

definition fraction_ns :: "nat \<Rightarrow> nat \<Rightarrow> nat \<Rightarrow> nat" where
  "fraction_ns f unit k =
     (case (double f 1, double unit (10 ^ k)) of ((a, b), (c, d)) \<Rightarrow>
        (case double (a * c) (b * d) of (n, m) \<Rightarrow> n div m))"

text \<open>One number with its unit, in nanoseconds, and the rest of the text.\<close>

definition fraction_part :: "string \<Rightarrow> nat \<times> nat \<times> string \<times> bool" where
  "fraction_part s =
     (if s \<noteq> [] \<and> hd s = CHR ''.''
      then (case leadingFraction False 0 0 (tl s) of (f, k, r) \<Rightarrow> (f, k, r, r \<noteq> tl s))
      else (0, 0, s, False))"

definition duration_item :: "string \<Rightarrow> (nat \<times> string) option" where
  "duration_item s =
     (if s = [] \<or> \<not> num_char (hd s) then None
      else case leadingInt 0 s of
          None \<Rightarrow> None
        | Some (v, s1) \<Rightarrow>
            (case fraction_part s1 of (f, k, s2, post) \<Rightarrow>
              if s1 = s \<and> \<not> post then None
              else let u = takeWhile (\<lambda>c. \<not> num_char c) s2; s3 = dropWhile (\<lambda>c. \<not> num_char c) s2
                in if u = [] then None
                   else case unitMap u of
                       None \<Rightarrow> None
                     | Some unit \<Rightarrow>
                         if 2 ^ 63 div unit < v then None
                         else let w = v * unit + (if 0 < f then fraction_ns f unit k else 0)
                              in if 0 < f \<and> 2 ^ 63 < w then None else Some (w, s3)))"

lemma leadingInt_shorter: "leadingInt x s = Some (v, r) \<Longrightarrow> length r \<le> length s"
  by (induction x s rule: leadingInt.induct) (auto simp: Let_def split: if_splits)

lemma leadingFraction_shorter: "leadingFraction ov x k s = (f, j, r) \<Longrightarrow> length r \<le> length s"
  by (induction ov x k s rule: leadingFraction.induct) (auto simp: Let_def split: if_splits)

lemma fraction_part_shorter: "fraction_part s = (f, k, r, post) \<Longrightarrow> length r \<le> length s"
  by (cases s) (auto simp: fraction_part_def split: if_splits prod.splits dest!: leadingFraction_shorter)

lemma takeWhile_dropWhile_shorter: "takeWhile P s \<noteq> [] \<Longrightarrow> length (dropWhile P s) < length s"
  by (cases s) (auto simp: length_dropWhile_le less_Suc_eq_le split: if_splits)

lemma duration_item_shorter: "duration_item s = Some (v, r) \<Longrightarrow> length r < length s"
  by (auto simp: duration_item_def Let_def split: if_splits option.splits prod.splits
      dest!: leadingInt_shorter fraction_part_shorter takeWhile_dropWhile_shorter)

text \<open>The sum is a \<open>uint64\<close>, so it wraps before it is compared.\<close>

function duration_items :: "nat \<Rightarrow> string \<Rightarrow> nat option" where
  "duration_items d s =
     (if s = [] then Some d
      else case duration_item s of
          None \<Rightarrow> None
        | Some (v, r) \<Rightarrow> let e = (d + v) mod 2 ^ 64 in if 2 ^ 63 < e then None else duration_items e r)"
  by pat_completeness auto

termination
  by (relation "measure (\<lambda>(d, s). length s)") (auto dest: duration_item_shorter)

declare duration_items.simps [simp del]

definition ParseDuration :: "string \<Rightarrow> duration option" where
  "ParseDuration s =
     (let neg = (s \<noteq> [] \<and> hd s = CHR ''-'');
          r = (if s \<noteq> [] \<and> (hd s = CHR ''-'' \<or> hd s = CHR ''+'') then tl s else s)
      in if r = ''0'' then Some 0
         else if r = [] then None
         else case duration_items 0 r of
             None \<Rightarrow> None
           | Some d \<Rightarrow> if neg then Some (- int d) else if 2 ^ 63 - 1 < d then None else Some (int d))"

subsection \<open>Printing\<close>

text \<open>\<open>fmtFrac\<close> and \<open>fmtInt\<close>: the number \<open>v / 10\<^sup>k\<close>.\<close>

definition decimal :: "nat \<Rightarrow> nat \<Rightarrow> string" where
  "decimal v k = show_nat (v div 10 ^ k) @ frac_text k v"

definition seconds_text :: "nat \<Rightarrow> string" where
  "seconds_text u = show_nat (u div 1000000000 mod 60) @ frac_text 9 u @ ''s''"

definition duration_text :: "nat \<Rightarrow> string" where
  "duration_text u =
     (if u = 0 then ''0s''
      else if u < 1000 then decimal u 0 @ ''ns''
      else if u < 1000000 then decimal u 3 @ [CHR 0xC2, CHR 0xB5, CHR ''s'']
      else if u < 1000000000 then decimal u 6 @ ''ms''
      else let m = u div 60000000000; h = m div 60
           in (if 0 < m then (if 0 < h then show_nat h @ ''h'' else []) @ show_nat (m mod 60) @ ''m'' else []) @ seconds_text u)"

definition Duration_String :: "duration \<Rightarrow> string" where
  "Duration_String d = (if d < 0 then ''-'' else []) @ duration_text (nat \<bar>d\<bar>)"

subsection \<open>What is printed is read back\<close>

lemma leadingInt_digits:
  "list_all is_digit s \<Longrightarrow> no_digit r \<Longrightarrow> x * 10 ^ length s + digits_val s \<le> 2 ^ 63 \<Longrightarrow>
   leadingInt x (s @ r) = Some (x * 10 ^ length s + digits_val s, r)"
proof (induction s arbitrary: x)
  case Nil
  then show ?case by (cases r) simp_all
next
  case (Cons c s)
  let ?y = "x * 10 + digit_val c"
  have v: "x * 10 ^ length (c # s) + digits_val (c # s) = ?y * 10 ^ length s + digits_val s"
    by (simp add: digits_val_Cons algebra_simps)
  have "?y \<le> ?y * 10 ^ length s + digits_val s" by (rule trans_le_add1) simp
  also have "\<dots> \<le> 2 ^ 63" using Cons.prems(3) by (simp only: v)
  finally have y: "?y \<le> 2 ^ 63" .
  then have "x \<le> 2 ^ 63 div 10" by simp
  with y Cons v show ?case by (simp add: Let_def)
qed

lemma leadingFraction_digits:
  "list_all is_digit s \<Longrightarrow> no_digit r \<Longrightarrow> x * 10 ^ length s + digits_val s \<le> 2 ^ 63 - 1 \<Longrightarrow>
   leadingFraction False x k (s @ r) = (x * 10 ^ length s + digits_val s, k + length s, r)"
proof (induction s arbitrary: x k)
  case Nil
  then show ?case by (cases r) simp_all
next
  case (Cons c s)
  let ?y = "x * 10 + digit_val c"
  have v: "x * 10 ^ length (c # s) + digits_val (c # s) = ?y * 10 ^ length s + digits_val s"
    by (simp add: digits_val_Cons algebra_simps)
  have "?y \<le> ?y * 10 ^ length s + digits_val s" by (rule trans_le_add1) simp
  also have "\<dots> \<le> 2 ^ 63 - 1" using Cons.prems(3) by (simp only: v)
  finally have y: "?y \<le> 2 ^ 63 - 1" .
  then have "x \<le> (2 ^ 63 - 1) div 10" by simp
  with y Cons v show ?case by (simp add: Let_def)
qed

text \<open>For a unit divisible by the scale the floating-point product is exact.\<close>

lemma fraction_ns_exact:
  assumes "unit = w * 10 ^ k" and "f * w < 2 ^ 53" and "f < 2 ^ 53" and "w < 2 ^ 53"
  shows "fraction_ns f unit k = f * w"
proof -
  obtain a where a: "double f 1 = (f * a, a)" "0 < a" using double_whole [OF assms(3), of 1] by auto
  obtain b where b: "double unit (10 ^ k) = (w * b, b)" "0 < b" using double_whole [OF assms(4), of "10 ^ k"] assms(1) by auto
  obtain c where "double (f * w * (a * b)) (a * b) = (f * w * c, c)" and c: "0 < c"
    using double_whole [OF assms(2), of "a * b"] a(2) b(2) by auto
  moreover have "f * a * (w * b) = f * w * (a * b)" by (simp add: ac_simps)
  ultimately have "double (f * a * (w * b)) (a * b) = (f * w * c, c)" by (simp only:)
  with c a(1) b(1) show ?thesis by (simp add: fraction_ns_def)
qed

lemma power10_split: "j \<le> k \<Longrightarrow> (10 :: nat) ^ (k - j) * 10 ^ j = 10 ^ k"
  by (simp add: power_add [symmetric])

text \<open>The fraction of a printed number, read back in the unit \<open>10\<^sup>k\<close>.\<close>

definition unit_ok :: "string \<Rightarrow> bool" where
  "unit_ok u \<longleftrightarrow> u \<noteq> [] \<and> list_all (\<lambda>c. \<not> num_char c) u"

definition item_end :: "string \<Rightarrow> bool" where
  "item_end r \<longleftrightarrow> r = [] \<or> num_char (hd r)"

lemma fraction_part_text:
  assumes "unit_ok u" and "k \<le> 9"
  shows "\<exists>f j post. fraction_part (frac_text k n @ u @ r) = (f, j, u @ r, post)
    \<and> (if f = 0 then n mod 10 ^ k = 0 else fraction_ns f (10 ^ k) j = n mod 10 ^ k)"
proof -
  let ?s = "strip_zeros (pad k n)"
  have nd: "no_digit (u @ r)" using assms(1) by (cases u) (auto simp: unit_ok_def num_char_def)
  show ?thesis
  proof (cases "?s = []")
    case True
    with strip_pad_val [of k n] have "n mod 10 ^ k = 0" by simp
    moreover have "u @ r \<noteq> [] \<and> hd (u @ r) \<noteq> CHR ''.''" using assms(1) by (cases u) (auto simp: unit_ok_def num_char_def)
    ultimately show ?thesis using True by (auto simp: frac_text_def fraction_part_def)
  next
    case False
    have d: "list_all is_digit ?s" by (simp add: strip_zeros_digits)
    have l: "length ?s \<le> k" using length_strip_zeros [of "pad k n"] by simp
    have "digits_val ?s < 10 ^ length ?s" by (rule digits_val_less [OF d])
    also have "\<dots> \<le> 10 ^ 9" using l assms(2) by (intro power_increasing) simp_all
    finally have small: "digits_val ?s < 10 ^ 9" .
    then have "digits_val ?s \<le> 2 ^ 63 - 1" by simp
    with leadingFraction_digits [OF d nd, of 0 0]
    have lf: "leadingFraction False 0 0 (?s @ u @ r) = (digits_val ?s, length ?s, u @ r)" by simp
    have e: "digits_val ?s * 10 ^ (k - length ?s) = n mod 10 ^ k" by (rule strip_pad_val)
    have "n mod 10 ^ k < 10 ^ k" by simp
    also have "(10 :: nat) ^ k \<le> 10 ^ 9" using assms(2) by (intro power_increasing) simp_all
    finally have "n mod 10 ^ k < 2 ^ 53" by simp
    moreover have "(10 :: nat) ^ (k - length ?s) \<le> 10 ^ 9" using assms(2) by (intro power_increasing) simp_all
    then have "(10 :: nat) ^ (k - length ?s) < 2 ^ 53" by simp
    ultimately have "fraction_ns (digits_val ?s) (10 ^ k) (length ?s) = n mod 10 ^ k"
      using fraction_ns_exact [OF power10_split [OF l, symmetric], of "digits_val ?s"] e small by simp
    moreover have "digits_val ?s = 0 \<Longrightarrow> n mod 10 ^ k = 0" using e by simp
    ultimately show ?thesis using False lf by (auto simp: frac_text_def Let_def fraction_part_def)
  qed
qed

lemma takeWhile_unit:
  assumes "unit_ok u" and "item_end r"
  shows "takeWhile (\<lambda>c. \<not> num_char c) (u @ r) = u" "dropWhile (\<lambda>c. \<not> num_char c) (u @ r) = r"
  using assms by (cases r; simp add: unit_ok_def item_end_def list_all_iff)+

lemma duration_item_text:
  assumes u: "unit_ok u" "unitMap u = Some unit" and r: "item_end r" and t: "t = [] \<or> hd t = CHR ''.''"
    and f: "fraction_part (t @ u @ r) = (f, j, u @ r, post)"
    and v: "v * unit + (if 0 < f then fraction_ns f unit j else 0) \<le> 2 ^ 63"
  shows "duration_item (show_nat v @ t @ u @ r) = Some (v * unit + (if 0 < f then fraction_ns f unit j else 0), r)"
proof -
  have pos: "0 < unit" using u(2) by (auto simp: unitMap_def split: if_splits)
  have vu: "v * unit \<le> 2 ^ 63" using v by simp
  then have le: "v \<le> 2 ^ 63 div unit" using pos by (simp add: less_eq_div_iff_mult_less_eq)
  have "v \<le> v * unit" using pos by simp
  also note vu
  finally have v63: "v \<le> 2 ^ 63" .
  have nd: "no_digit (t @ u @ r)"
    using t u(1) by (cases t; cases u) (auto simp: unit_ok_def num_char_def is_digit_def)
  have d: "list_all is_digit (show_nat v)" "show_nat v \<noteq> []" using show_nat_digits by auto
  have "leadingInt 0 (show_nat v @ t @ u @ r) = Some (v, t @ u @ r)"
    using leadingInt_digits [OF d(1) nd, of 0] v63 by simp
  moreover have "num_char (hd (show_nat v @ t @ u @ r))" using d by (cases "show_nat v") (auto simp: num_char_def)
  moreover have "u \<noteq> []" using u(1) by (simp add: unit_ok_def)
  ultimately show ?thesis using d(2) f u(2) le v takeWhile_unit [OF u(1) r]
    by (simp add: duration_item_def Let_def not_less)
qed

lemma units_ok [simp]: "unit_ok ''ns''" "unit_ok [CHR 0xC2, CHR 0xB5, CHR ''s'']" "unit_ok ''ms''" "unit_ok ''s''" "unit_ok ''m''" "unit_ok ''h''"
  by (simp_all add: unit_ok_def num_char_def is_digit_def)

lemma unitMap_units [simp]:
  "unitMap ''ns'' = Some 1" "unitMap [CHR 0xC2, CHR 0xB5, CHR ''s''] = Some 1000" "unitMap ''ms'' = Some 1000000"
  "unitMap ''s'' = Some 1000000000" "unitMap ''m'' = Some 60000000000" "unitMap ''h'' = Some 3600000000000"
  by (simp_all add: unitMap_def)

lemma item_frac:
  assumes "unit_ok u" "unitMap u = Some (10 ^ k)" "item_end r" "k \<le> 9" "v * 10 ^ k + n mod 10 ^ k \<le> 2 ^ 63"
  shows "duration_item (show_nat v @ frac_text k n @ u @ r) = Some (v * 10 ^ k + n mod 10 ^ k, r)"
proof -
  obtain f j post where p: "fraction_part (frac_text k n @ u @ r) = (f, j, u @ r, post)"
    and e: "if f = 0 then n mod 10 ^ k = 0 else fraction_ns f (10 ^ k) j = n mod 10 ^ k"
    using fraction_part_text [OF assms(1,4)] by blast
  have w: "(if 0 < f then fraction_ns f (10 ^ k) j else 0) = n mod 10 ^ k" using e by (simp split: if_splits)
  have t: "frac_text k n = [] \<or> hd (frac_text k n) = CHR ''.''" by (simp add: frac_text_def Let_def)
  from duration_item_text [OF assms(1-3) t p] assms(5) show ?thesis by (simp only: w)
qed

lemma item_whole:
  assumes "unit_ok u" "unitMap u = Some unit" "item_end r" "v * unit \<le> 2 ^ 63"
  shows "duration_item (show_nat v @ u @ r) = Some (v * unit, r)"
proof -
  have "fraction_part ([] @ u @ r) = (0, 0, u @ r, False)"
    using assms(1) by (cases u) (auto simp: fraction_part_def unit_ok_def num_char_def)
  from duration_item_text [OF assms(1-3) _ this, of v] assms(4) show ?thesis by simp
qed

lemma duration_items_step:
  assumes "duration_item s = Some (v, r)" and "d + v \<le> 2 ^ 63"
  shows "duration_items d s = duration_items (d + v) r"
proof -
  have "s \<noteq> []" using assms(1) by (auto simp: duration_item_def)
  with assms show ?thesis by (subst duration_items.simps) (simp add: Let_def)
qed

lemma duration_items_Nil [simp]: "duration_items d [] = Some d"
  by (simp add: duration_items.simps)

lemma item_end_simps [simp]: "item_end []" "item_end (show_nat v @ r)"
  using show_nat_digits [of v] by (cases "show_nat v"; simp add: item_end_def num_char_def)+

lemma frac_text_0 [simp]: "frac_text 0 n = []"
  by (simp add: frac_text_def)

lemma duration_items_seconds:
  assumes "d + (u div 1000000000 mod 60 * 1000000000 + u mod 1000000000) \<le> 2 ^ 63"
  shows "duration_items d (seconds_text u) = Some (d + (u div 1000000000 mod 60 * 1000000000 + u mod 1000000000))"
proof -
  have "duration_item (seconds_text u) = Some (u div 1000000000 mod 60 * 1000000000 + u mod 1000000000, [])"
    using item_frac [of "''s''" 9 "[]" "u div 1000000000 mod 60" u] assms by (simp add: seconds_text_def)
  from duration_items_step [OF this assms] show ?thesis by simp
qed

lemma seconds_text_end [simp]: "item_end (seconds_text u)"
  by (simp add: seconds_text_def)

lemma duration_items_decimal:
  assumes "unit_ok u" "unitMap u = Some (10 ^ k)" "k \<le> 9" "n < 2 ^ 63"
  shows "duration_items 0 (decimal n k @ u) = Some n"
proof -
  have "n div 10 ^ k * 10 ^ k + n mod 10 ^ k = n" by (rule div_mult_mod_eq)
  with item_frac [OF assms(1,2) item_end_simps(1) assms(3), of "n div 10 ^ k" n] assms(4)
  have "duration_item (decimal n k @ u) = Some (n, [])" by (simp add: decimal_def)
  from duration_items_step [OF this, of 0] assms(4) show ?thesis by simp
qed

lemma duration_items_text:
  assumes "u \<le> 2 ^ 63"
  shows "duration_items 0 (duration_text u) = Some u"
proof -
  consider "u = 0" | "0 < u" "u < 1000" | "1000 \<le> u" "u < 1000000" | "1000000 \<le> u" "u < 1000000000"
    | "1000000000 \<le> u" by linarith
  then show ?thesis
  proof cases
    case 1
    have "show_nat 0 = ''0''" by (simp add: show_nat.simps char_eq_iff_of_char)
    with item_whole [of "''s''" 1000000000 "[]" 0] have "duration_item ''0s'' = Some (0, [])" by simp
    from duration_items_step [OF this, of 0] 1 show ?thesis by (simp add: duration_text_def)
  next
    case 2
    then show ?thesis using duration_items_decimal [of "''ns''" 0 u] by (simp add: duration_text_def)
  next
    case 3
    then show ?thesis using duration_items_decimal [of "[CHR 0xC2, CHR 0xB5, CHR ''s'']" 3 u] by (simp add: duration_text_def)
  next
    case 4
    then show ?thesis using duration_items_decimal [of "''ms''" 6 u] by (simp add: duration_text_def)
  next
    case 5
    let ?m = "u div 60000000000" let ?h = "?m div 60"
    let ?sec = "u div 1000000000 mod 60 * 1000000000 + u mod 1000000000"
    have m: "?m = u div 1000000000 div 60" by (simp add: div_mult2_eq [symmetric])
    have mu: "?m * 60000000000 + ?sec = u"
      unfolding m using div_mult_mod_eq [of u 1000000000] div_mult_mod_eq [of "u div 1000000000" 60] by linarith
    have hm: "?h * 3600000000000 + ?m mod 60 * 60000000000 = ?m * 60000000000"
      using div_mult_mod_eq [of ?m 60] by linarith
    have "?h * 3600000000000 + ?m mod 60 * 60000000000 + ?sec \<le> 2 ^ 63" using assms by (simp only: hm mu)
    then have b: "?h * 3600000000000 \<le> 2 ^ 63" "?m mod 60 * 60000000000 \<le> 2 ^ 63" "?h * 3600000000000 + ?m mod 60 * 60000000000 \<le> 2 ^ 63" by linarith+
    have s: "duration_items (?m * 60000000000) (seconds_text u) = Some u"
      using duration_items_seconds [of "?m * 60000000000" u] assms by (simp only: mu)
    have min: "duration_item (show_nat (?m mod 60) @ ''m'' @ seconds_text u) = Some (?m mod 60 * 60000000000, seconds_text u)"
      by (rule item_whole) (simp_all add: b)
    have hr: "duration_item (show_nat ?h @ ''h'' @ show_nat (?m mod 60) @ ''m'' @ seconds_text u)
        = Some (?h * 3600000000000, show_nat (?m mod 60) @ ''m'' @ seconds_text u)"
      by (rule item_whole) (simp_all only: units_ok unitMap_units item_end_simps b)
    have m1: "duration_items d (show_nat (?m mod 60) @ ''m'' @ seconds_text u) = Some u" if "d = ?h * 3600000000000" for d
      using duration_items_step [OF min, of d] b s that by (simp only: hm)
    have h1: "duration_items 0 (show_nat ?h @ ''h'' @ show_nat (?m mod 60) @ ''m'' @ seconds_text u) = Some u"
      using duration_items_step [OF hr, of 0] b m1 [of "0 + ?h * 3600000000000"] by simp
    have "?h = 0 \<Longrightarrow> duration_items 0 (show_nat (?m mod 60) @ ''m'' @ seconds_text u) = Some u" by (rule m1) simp
    moreover have "?m = 0 \<Longrightarrow> duration_items 0 (seconds_text u) = Some u" using s by simp
    ultimately show ?thesis using 5 h1 by (simp add: duration_text_def Let_def)
  qed
qed

lemma duration_items_start: "duration_items d s = Some e \<Longrightarrow> s \<noteq> [] \<Longrightarrow> num_char (hd s)"
  by (subst (asm) duration_items.simps) (auto simp: duration_item_def split: if_splits)

lemma duration_text_ne: "duration_text u \<noteq> []"
  using show_nat_digits by (auto simp: duration_text_def decimal_def seconds_text_def Let_def)

lemma duration_item_0: "duration_item ''0'' = None"
  by (simp add: duration_item_def fraction_part_def is_digit_def num_char_def digit_val_def)

lemma ParseDuration_unsigned:
  assumes "duration_items 0 s = Some u" "s \<noteq> []"
  shows "ParseDuration s = (if 2 ^ 63 - 1 < u then None else Some (int u))" "ParseDuration (CHR ''-'' # s) = Some (- int u)"
proof -
  have "s \<noteq> ''0''" using assms(1) by (intro notI) (simp add: duration_items.simps duration_item_0)
  moreover have "hd s \<noteq> CHR ''-'' \<and> hd s \<noteq> CHR ''+''"
    using duration_items_start [OF assms] by (auto simp: num_char_def is_digit_def)
  ultimately show "ParseDuration s = (if 2 ^ 63 - 1 < u then None else Some (int u))" "ParseDuration (CHR ''-'' # s) = Some (- int u)"
    using assms by (simp_all add: ParseDuration_def)
qed

theorem ParseDuration_String:
  assumes "is_int64 d"
  shows "ParseDuration (Duration_String d) = Some d"
proof -
  have b: "nat \<bar>d\<bar> \<le> 2 ^ 63" "0 \<le> d \<Longrightarrow> nat \<bar>d\<bar> \<le> 2 ^ 63 - 1"
    using assms by (auto simp: is_int64_def MinInt64_def MaxInt64_def)
  note p = ParseDuration_unsigned [OF duration_items_text [OF b(1)] duration_text_ne]
  show ?thesis
  proof (cases "d < 0")
    case True
    with p(2) show ?thesis by (simp add: Duration_String_def)
  next
    case False
    with p(1) b(2) show ?thesis by (auto simp: Duration_String_def)
  qed
qed

text \<open>What is read is always a duration of 64 bits.\<close>

lemma duration_items_bound: "duration_items d s = Some e \<Longrightarrow> d \<le> 2 ^ 63 \<Longrightarrow> e \<le> 2 ^ 63"
proof (induction d s rule: duration_items.induct)
  case (1 d s)
  from "1.prems"(1) have "s = [] \<and> e = d \<or> (\<exists>v r. s \<noteq> [] \<and> duration_item s = Some (v, r) \<and> \<not> 2 ^ 63 < (d + v) mod 2 ^ 64
      \<and> duration_items ((d + v) mod 2 ^ 64) r = Some e)"
    by (subst (asm) duration_items.simps) (auto simp: Let_def split: if_splits option.splits)
  with 1 show ?case by (auto simp: not_less)
qed

lemma ParseDuration_range: "ParseDuration s = Some d \<Longrightarrow> is_int64 d"
  by (auto simp: ParseDuration_def Let_def is_int64_def MinInt64_def MaxInt64_def
      dest!: duration_items_bound split: if_splits option.splits)

end
