(* ===== verification/Ws_Frames.thy ===== *)
theory Ws_Frames
  imports Connection
begin

text \<open>
  \<open>websocket/connection.go\<close>: frames and connections of the websocket transport. The protocol
  library is a parameter; the locale \<open>ws_library\<close> states what it documents: frames travel in the
  format of RFC 6455, a client's message is one masked frame. A library written from that format
  interprets it. A websocket connection over such a library keeps the contract of channels.
\<close>

subsection \<open>Frames and connections\<close>

text \<open>The library's frame type (the header fields in use), and its functions over a network connection.\<close>

record ws_frame =
  wf_Fin :: bool
  wf_OpCode :: byte
  wf_Masked :: bool
  wf_Mask :: bytes
  wf_Payload :: bytes

record ws_lib =
  lib_ReadFrame :: "conn \<Rightarrow> (error + ws_frame) \<times> conn"
  lib_WriteFrame :: "ws_frame \<Rightarrow> conn \<Rightarrow> error option \<times> conn"
  lib_NewFrame :: "byte \<Rightarrow> bool \<Rightarrow> bytes \<Rightarrow> ws_frame"
  lib_Cipher :: "bytes \<Rightarrow> bytes \<Rightarrow> nat \<Rightarrow> bytes"
  lib_WriteClientMessage :: "byte \<Rightarrow> bytes \<Rightarrow> conn \<Rightarrow> error option \<times> conn"

definition ws_SetOpCode :: "byte \<Rightarrow> ws_frame \<Rightarrow> ws_frame" where
  "ws_SetOpCode code f = f\<lparr>wf_OpCode := code\<rparr>"

definition ws_GetOpCode :: "ws_frame \<Rightarrow> byte" where
  "ws_GetOpCode f = wf_OpCode f"

definition ws_SetPayload :: "bytes \<Rightarrow> ws_frame \<Rightarrow> ws_frame" where
  "ws_SetPayload payload f = f\<lparr>wf_Payload := payload\<rparr>"

text \<open>\<open>GetPayload\<close> unmasks the payload in place and says so in the header.\<close>

definition ws_GetPayload :: "ws_lib \<Rightarrow> ws_frame \<Rightarrow> bytes \<times> ws_frame" where
  "ws_GetPayload lib f =
     (let f1 = (if wf_Masked f then f\<lparr>wf_Payload := lib_Cipher lib (wf_Payload f) (wf_Mask f) 0\<rparr> else f);
          f2 = f1\<lparr>wf_Masked := False\<rparr>
      in (wf_Payload f2, f2))"

definition ws_ReadFrame :: "ws_lib \<Rightarrow> conn \<Rightarrow> (error + ws_frame) \<times> conn" where
  "ws_ReadFrame lib c = (case lib_ReadFrame lib c of (Inl err, c') \<Rightarrow> (Inl err, c') | (Inr f, c') \<Rightarrow> (Inr f, c'))"

definition ws_WriteFrame :: "ws_lib \<Rightarrow> byte \<Rightarrow> bytes \<Rightarrow> conn \<Rightarrow> error option \<times> conn" where
  "ws_WriteFrame lib code payload c = lib_WriteFrame lib (lib_NewFrame lib code True payload) c"

definition ws_Flush :: "conn \<Rightarrow> error option \<times> conn" where
  "ws_Flush c = (None, c)"

definition ws_conn :: "ws_lib \<Rightarrow> ws_frame Conn" where
  "ws_conn lib = \<lparr>cn_ReadFrame = ws_ReadFrame lib, cn_WriteFrame = ws_WriteFrame lib, cn_Flush = ws_Flush,
     cn_frames = \<lparr>fm_SetOpCode = ws_SetOpCode, fm_GetOpCode = ws_GetOpCode, fm_SetPayload = ws_SetPayload,
       fm_GetPayload = ws_GetPayload lib\<rparr>\<rparr>"

subsection \<open>The format of RFC 6455\<close>

text \<open>Numbers in network byte order.\<close>

fun be_bytes :: "nat \<Rightarrow> nat \<Rightarrow> bytes" where
  "be_bytes 0 n = []"
| "be_bytes (Suc k) n = be_bytes k (n div 256) @ [of_nat (n mod 256)]"

definition be_val :: "bytes \<Rightarrow> nat" where
  "be_val b = foldl (\<lambda>a x. 256 * a + unat x) 0 b"

fun xor_mask :: "bytes \<Rightarrow> bytes \<Rightarrow> bytes" where
  "xor_mask m [] = []"
| "xor_mask m (b # p) = (b XOR hd m) # xor_mask (rotate1 m) p"

definition len7 :: "nat \<Rightarrow> nat" where
  "len7 n = (if n \<le> 125 then n else if n < 65536 then 126 else 127)"

definition len_bytes :: "nat \<Rightarrow> bytes" where
  "len_bytes n = (if n \<le> 125 then [] else if n < 65536 then be_bytes 2 n else be_bytes 8 n)"

definition ws_text :: "ws_frame \<Rightarrow> bytes" where
  "ws_text f = [(if wf_Fin f then 0x80 else 0) OR wf_OpCode f,
      of_nat ((if wf_Masked f then 128 else 0) + len7 (length (wf_Payload f)))]
    @ len_bytes (length (wf_Payload f)) @ (if wf_Masked f then wf_Mask f else []) @ wf_Payload f"

text \<open>Frames the format can carry: four bits of opcode, a mask of four bytes (zero when unused), a 63-bit length.\<close>

definition ws_ok :: "ws_frame \<Rightarrow> bool" where
  "ws_ok f \<longleftrightarrow> wf_OpCode f < 16 \<and> length (wf_Mask f) = 4 \<and> (\<not> wf_Masked f \<longrightarrow> wf_Mask f = [0, 0, 0, 0])
     \<and> length (wf_Payload f) < 2 ^ 63"

definition plain_frame :: "byte \<Rightarrow> bytes \<Rightarrow> ws_frame" where
  "plain_frame code p = \<lparr>wf_Fin = True, wf_OpCode = code, wf_Masked = False, wf_Mask = [0, 0, 0, 0], wf_Payload = p\<rparr>"

definition masked_frame :: "byte \<Rightarrow> bytes \<Rightarrow> bytes \<Rightarrow> ws_frame" where
  "masked_frame code m p = \<lparr>wf_Fin = True, wf_OpCode = code, wf_Masked = True, wf_Mask = m, wf_Payload = xor_mask m p\<rparr>"

lemma length_xor_mask [simp]: "length (xor_mask m p) = length p"
  by (induction p arbitrary: m) simp_all

lemma xor_mask_twice [simp]: "xor_mask m (xor_mask m p) = p"
  by (induction p arbitrary: m) (simp_all add: xor.assoc)

lemma length_be_bytes [simp]: "length (be_bytes k n) = k"
  by (induction k arbitrary: n) simp_all

lemma be_val_be_bytes [simp]: "be_val (be_bytes k n) = n mod 256 ^ k"
proof (induction k arbitrary: n)
  case (Suc k)
  have "unat (of_nat (n mod 256) :: byte) = n mod 256" by (simp add: unat_of_nat take_bit_eq_mod)
  with Suc show ?case by (simp add: be_val_def mod_mult2_eq)
qed (simp add: be_val_def)

subsection \<open>The library\<close>

locale ws_library =
  fixes lib :: ws_lib
  assumes new_frame: "lib_NewFrame lib code fin p
      = \<lparr>wf_Fin = fin, wf_OpCode = code, wf_Masked = False, wf_Mask = [0, 0, 0, 0], wf_Payload = p\<rparr>"
    and lib_write: "working c \<Longrightarrow> lib_WriteFrame lib f c = (None, sent_on (ws_text f) c)"
    and lib_read: "\<not> c_closed c \<Longrightarrow> ws_ok f \<Longrightarrow> c_in c = \<lparr>rbuf = ws_text f @ r, rend = e\<rparr> \<Longrightarrow>
      lib_ReadFrame lib c = (Inr f, c\<lparr>c_in := \<lparr>rbuf = r, rend = e\<rparr>\<rparr>)"
    and lib_read_end: "\<not> c_closed c \<Longrightarrow> c_in c = \<lparr>rbuf = [], rend = e\<rparr> \<Longrightarrow> lib_ReadFrame lib c = (Inl e, c)"
    and cipher: "lib_Cipher lib p m 0 = xor_mask m p"
    and client_message: "working c \<Longrightarrow> \<exists>m. length m = 4
      \<and> lib_WriteClientMessage lib code p c = (None, sent_on (ws_text (masked_frame code m p)) c)"
begin

lemma payload_masked: "fst (ws_GetPayload lib (masked_frame code m p)) = p"
  by (simp add: ws_GetPayload_def masked_frame_def cipher)

lemma payload_plain: "fst (ws_GetPayload lib (plain_frame code p)) = p"
  by (simp add: ws_GetPayload_def plain_frame_def)

end

sublocale ws_library \<subseteq> wsc: frame_conn "ws_conn lib" "\<lambda>code p. ws_text (plain_frame code p)" ws_text ws_ok
proof
  fix c code p assume "working c"
  then show "cn_WriteFrame (ws_conn lib) code p c = (None, sent_on (ws_text (plain_frame code p)) c)"
    by (simp add: ws_conn_def ws_WriteFrame_def lib_write new_frame plain_frame_def)
qed (simp_all add: ws_conn_def ws_Flush_def ws_ReadFrame_def lib_read lib_read_end)

subsection \<open>A library from the format\<close>

definition rfc_length :: "nat \<Rightarrow> reader \<Rightarrow> (error + nat) \<times> reader" where
  "rfc_length k r =
     (if k = 126 then (case ReadFull 2 r of (Inl e, r') \<Rightarrow> (Inl e, r') | (Inr b, r') \<Rightarrow> (Inr (be_val b), r'))
      else if k = 127 then (case ReadFull 8 r of (Inl e, r') \<Rightarrow> (Inl e, r') | (Inr b, r') \<Rightarrow> (Inr (be_val b), r'))
      else (Inr k, r))"

definition rfc_frame :: "reader \<Rightarrow> (error + ws_frame) \<times> reader" where
  "rfc_frame r0 =
     (case ReadFull 2 r0 of
        (Inl e, r1) \<Rightarrow> (Inl e, r1)
      | (Inr h, r1) \<Rightarrow>
          let masked = (128 \<le> unat (h ! 1))
          in case rfc_length (unat (h ! 1) mod 128) r1 of
               (Inl e, r2) \<Rightarrow> (Inl e, r2)
             | (Inr n, r2) \<Rightarrow>
                 (case ReadFull (if masked then 4 else 0) r2 of
                    (Inl e, r3) \<Rightarrow> (Inl e, r3)
                  | (Inr m, r3) \<Rightarrow>
                      (case ReadFull n r3 of
                         (Inl e, r4) \<Rightarrow> (Inl e, r4)
                       | (Inr p, r4) \<Rightarrow> (Inr \<lparr>wf_Fin = bit (h ! 0) 7, wf_OpCode = h ! 0 AND 0x0F, wf_Masked = masked,
                           wf_Mask = (if masked then m else [0, 0, 0, 0]), wf_Payload = p\<rparr>, r4))))"

definition rfc_lib :: "bytes \<Rightarrow> ws_lib" where
  "rfc_lib m = \<lparr>
     lib_ReadFrame = (\<lambda>c. if c_closed c then (Inl ErrClosed, c) else case rfc_frame (c_in c) of (r, i) \<Rightarrow> (r, c\<lparr>c_in := i\<rparr>)),
     lib_WriteFrame = (\<lambda>f c. if c_closed c then (Some ErrClosed, c) else case Write (ws_text f) (c_out c) of (e, w) \<Rightarrow> (e, c\<lparr>c_out := w\<rparr>)),
     lib_NewFrame = (\<lambda>code fin p. \<lparr>wf_Fin = fin, wf_OpCode = code, wf_Masked = False, wf_Mask = [0, 0, 0, 0], wf_Payload = p\<rparr>),
     lib_Cipher = (\<lambda>p m k. xor_mask (rotate k m) p),
     lib_WriteClientMessage = (\<lambda>code p c. if c_closed c then (Some ErrClosed, c)
       else case Write (ws_text (masked_frame code m p)) (c_out c) of (e, w) \<Rightarrow> (e, c\<lparr>c_out := w\<rparr>))\<rparr>"

lemma first_byte:
  assumes "code < (16 :: byte)"
  shows "bit ((if fin then 0x80 else 0) OR code) 7 = fin" "((if fin then 0x80 else 0) OR code) AND 0x0F = code"
proof -
  have "list_all (\<lambda>k. \<not> bit (of_nat k :: byte) 7 \<and> bit ((0x80 :: byte) OR of_nat k) 7
      \<and> (of_nat k :: byte) AND 0x0F = of_nat k \<and> ((0x80 :: byte) OR of_nat k) AND 0x0F = of_nat k) [0..<16]" by code_simp
  moreover have "unat code < 16" using assms by (simp add: word_less_nat_alt)
  ultimately have "\<not> bit (of_nat (unat code) :: byte) 7 \<and> bit ((0x80 :: byte) OR of_nat (unat code)) 7
      \<and> (of_nat (unat code) :: byte) AND 0x0F = of_nat (unat code) \<and> ((0x80 :: byte) OR of_nat (unat code)) AND 0x0F = of_nat (unat code)"
    unfolding list_all_iff by (metis atLeastLessThan_iff le0 set_upt)
  then show "bit ((if fin then 0x80 else 0) OR code) 7 = fin" "((if fin then 0x80 else 0) OR code) AND 0x0F = code"
    by simp_all
qed

lemma len7_bound: "len7 n \<le> 127"
  by (simp add: len7_def)

lemma second_byte: "unat (of_nat ((if masked then 128 else 0) + len7 n) :: byte) = (if masked then 128 else 0) + len7 n"
proof -
  have "x < 256 \<Longrightarrow> unat (of_nat x :: byte) = x" for x by (simp add: unat_of_nat take_bit_eq_mod)
  then show ?thesis using len7_bound [of n] by (simp del: of_nat_add)
qed

lemma rfc_length_text:
  assumes "n < 2 ^ 63"
  shows "rfc_length (len7 n) \<lparr>rbuf = len_bytes n @ r, rend = e\<rparr> = (Inr n, \<lparr>rbuf = r, rend = e\<rparr>)"
proof -
  consider "n \<le> 125" | "125 < n" "n < 65536" | "65536 \<le> n" by linarith
  then show ?thesis
  proof cases
    case 2
    then show ?thesis by (simp add: rfc_length_def len7_def len_bytes_def ReadFull_append)
  next
    case 3
    then show ?thesis using assms by (simp add: rfc_length_def len7_def len_bytes_def ReadFull_append)
  qed (simp add: rfc_length_def len7_def len_bytes_def)
qed

lemma rfc_frame_text:
  assumes "ws_ok f"
  shows "rfc_frame \<lparr>rbuf = ws_text f @ r, rend = e\<rparr> = (Inr f, \<lparr>rbuf = r, rend = e\<rparr>)"
proof -
  let ?n = "length (wf_Payload f)"
  let ?h = "[(if wf_Fin f then 0x80 else 0) OR wf_OpCode f, of_nat ((if wf_Masked f then 128 else 0) + len7 ?n) :: byte]"
  have ok: "wf_OpCode f < 16" "length (wf_Mask f) = 4" "\<not> wf_Masked f \<Longrightarrow> wf_Mask f = [0, 0, 0, 0]" "?n < 2 ^ 63"
    using assms by (auto simp: ws_ok_def)
  have h: "ReadFull 2 \<lparr>rbuf = ws_text f @ r, rend = e\<rparr>
      = (Inr ?h, \<lparr>rbuf = len_bytes ?n @ (if wf_Masked f then wf_Mask f else []) @ wf_Payload f @ r, rend = e\<rparr>)"
    by (simp add: ws_text_def ReadFull_def)
  have m: "(128 \<le> unat (?h ! 1)) = wf_Masked f" "unat (?h ! 1) mod 128 = len7 ?n"
    using second_byte [of "wf_Masked f" ?n] len7_bound [of ?n] by auto
  have k: "ReadFull (if wf_Masked f then 4 else 0) \<lparr>rbuf = (if wf_Masked f then wf_Mask f else []) @ wf_Payload f @ r, rend = e\<rparr>
      = (Inr (if wf_Masked f then wf_Mask f else []), \<lparr>rbuf = wf_Payload f @ r, rend = e\<rparr>)"
    using ok(2) by (intro ReadFull_append) simp
  have p: "ReadFull ?n \<lparr>rbuf = wf_Payload f @ r, rend = e\<rparr> = (Inr (wf_Payload f), \<lparr>rbuf = r, rend = e\<rparr>)"
    by (rule ReadFull_append) simp
  have "rfc_frame \<lparr>rbuf = ws_text f @ r, rend = e\<rparr> = (Inr \<lparr>wf_Fin = bit (?h ! 0) 7, wf_OpCode = ?h ! 0 AND 0x0F,
      wf_Masked = wf_Masked f, wf_Mask = (if wf_Masked f then wf_Mask f else [0, 0, 0, 0]), wf_Payload = wf_Payload f\<rparr>, \<lparr>rbuf = r, rend = e\<rparr>)"
    unfolding rfc_frame_def h prod.case sum.case Let_def m rfc_length_text [OF ok(4)] k p by auto
  also have "\<dots> = (Inr f, \<lparr>rbuf = r, rend = e\<rparr>)"
    using first_byte [OF ok(1), of "wf_Fin f"] ok(3) by simp
  finally show ?thesis .
qed

interpretation rfc: ws_library "rfc_lib [1, 2, 3, 4]"
proof
  fix c :: conn and code p assume "working c"
  then show "\<exists>m. length m = 4 \<and> lib_WriteClientMessage (rfc_lib [1, 2, 3, 4]) code p c = (None, sent_on (ws_text (masked_frame code m p)) c)"
    by (intro exI [of _ "[1, 2, 3, 4]"]) (simp add: rfc_lib_def working_def Write_def sent_on_def)
qed (simp_all add: rfc_lib_def working_def Write_def sent_on_def rfc_frame_text, simp add: rfc_frame_def ReadFull_def)

end
