(* ===== verification/Ws_Transport.thy ===== *)
theory Ws_Transport
  imports Tcp_Client Tcp_Server Ws_Frames
begin

text \<open>
  \<open>websocket/client.go\<close> and \<open>websocket/server.go\<close>: the websocket transport, an alternative to TCP
  behind the same interfaces. Its frames and the protocol library are those of theory
  \<open>Ws_Frames\<close>, channels and their table those of theory \<open>Channel\<close>.
\<close>

subsection \<open>The client\<close>

record WsClient =
  wc_once :: bool
  wc_id :: string
  wc_name :: string
  wc_conn :: "conn option"
  wc_state :: int
  wc_options :: ClientOptions
  wc_dc :: "DialerContext option"

definition ws_NewClient :: "string \<Rightarrow> string \<Rightarrow> ClientOptions \<Rightarrow> WsClient" where
  "ws_NewClient i name opts =
     (let o1 = (if WriteWait opts = 0 then opts\<lparr>WriteWait := DefaultWriteWait\<rparr> else opts);
          o2 = (if ReadWait o1 = 0 then o1\<lparr>ReadWait := DefaultReadWait\<rparr> else o1)
      in \<lparr>wc_once = False, wc_id = i, wc_name = name, wc_conn = None, wc_state = 0, wc_options = o2, wc_dc = None\<rparr>)"

definition ws_CompareAndSwap :: "int \<Rightarrow> int \<Rightarrow> WsClient \<Rightarrow> bool \<times> WsClient" where
  "ws_CompareAndSwap old new c = (if wc_state c = old then (True, c\<lparr>wc_state := new\<rparr>) else (False, c))"

text \<open>The boolean says whether the heartbeat goroutine was started.\<close>

definition ws_Connect :: "error option \<Rightarrow> Dialer \<Rightarrow> string \<Rightarrow> WsClient \<Rightarrow> error option \<times> bool \<times> WsClient" where
  "ws_Connect url_err dial addr c =
     (case url_err of
        Some err \<Rightarrow> (Some err, False, c)
      | None \<Rightarrow>
          (case ws_CompareAndSwap 0 1 c of
             (False, c1) \<Rightarrow> (Some (ErrorMsg ''client has connected''), False, c1)
           | (True, c1) \<Rightarrow>
               (case dial \<lparr>dc_Id = wc_id c, dc_Name = wc_name c, dc_Address = addr, dc_Timeout = DefaultLoginWait\<rparr> of
                  Inl err \<Rightarrow> (Some err, False, snd (ws_CompareAndSwap 1 0 c1))
                | Inr None \<Rightarrow> (Some (ErrorMsg ''conn is nil''), False, c1)
                | Inr (Some cn) \<Rightarrow> (None, Heartbeat (wc_options c) > 0, c1\<lparr>wc_conn := Some cn\<rparr>))))"

definition ws_Send :: "ws_lib \<Rightarrow> go_time \<Rightarrow> bytes \<Rightarrow> WsClient \<Rightarrow> (error option \<times> WsClient) outcome" where
  "ws_Send lib now payload c =
     (if wc_state c = 0 then Ret (Some (ErrorMsg ''connection is nil''), c)
      else case wc_conn c of
          None \<Rightarrow> Panic
        | Some cn \<Rightarrow>
            (case SetWriteDeadline (time_add now (WriteWait (wc_options c))) cn of
               (Some err, cn1) \<Rightarrow> Ret (Some err, c\<lparr>wc_conn := Some cn1\<rparr>)
             | (None, cn1) \<Rightarrow>
                 (case lib_WriteClientMessage lib OpBinary payload cn1 of (e, cn2) \<Rightarrow> Ret (e, c\<lparr>wc_conn := Some cn2\<rparr>))))"

definition ws_Close :: "ws_lib \<Rightarrow> WsClient \<Rightarrow> WsClient" where
  "ws_Close lib c =
     (if wc_once c then c
      else case wc_conn c of
          None \<Rightarrow> c\<lparr>wc_once := True\<rparr>
        | Some cn \<Rightarrow> snd (ws_CompareAndSwap 1 0
            (c\<lparr>wc_once := True, wc_conn := Some (snd (conn_Close (snd (lib_WriteClientMessage lib OpClose [] cn))))\<rparr>)))"

definition ws_Read :: "ws_lib \<Rightarrow> go_time \<Rightarrow> WsClient \<Rightarrow> (error + ws_frame) \<times> WsClient" where
  "ws_Read lib now c =
     (case wc_conn c of
        None \<Rightarrow> (Inl (ErrorMsg ''connection is nil''), c)
      | Some cn \<Rightarrow>
          (let cn1 = (if Heartbeat (wc_options c) > 0
                 then snd (SetReadDeadline (time_add now (ReadWait (wc_options c))) cn) else cn)
           in case lib_ReadFrame lib cn1 of
                (Inl err, cn2) \<Rightarrow> (Inl err, c\<lparr>wc_conn := Some cn2\<rparr>)
              | (Inr f, cn2) \<Rightarrow>
                  (if wf_OpCode f = OpClose then Inl (ErrorMsg ''remote side close the channel'') else Inr f,
                   c\<lparr>wc_conn := Some cn2\<rparr>)))"

text \<open>The heartbeat works on the connection it was started with, under the client's lock.\<close>

definition ws_ping :: "ws_lib \<Rightarrow> go_time \<Rightarrow> WsClient \<Rightarrow> conn \<Rightarrow> error option \<times> conn" where
  "ws_ping lib now c cn =
     (case SetWriteDeadline (time_add now (WriteWait (wc_options c))) cn of
        (Some err, cn1) \<Rightarrow> (Some err, cn1)
      | (None, cn1) \<Rightarrow> lib_WriteClientMessage lib OpPing [] cn1)"

fun ws_heartbealoop :: "ws_lib \<Rightarrow> go_time list \<Rightarrow> WsClient \<Rightarrow> conn \<Rightarrow> error option \<times> conn" where
  "ws_heartbealoop lib [] c cn = (None, cn)"
| "ws_heartbealoop lib (t # ts) c cn =
     (case ws_ping lib t c cn of (Some err, cn') \<Rightarrow> (Some err, cn') | (None, cn') \<Rightarrow> ws_heartbealoop lib ts c cn')"

subsection \<open>The server\<close>

text \<open>The table of channels is nil until \<open>SetChannelMap\<close> or \<open>Start\<close>.\<close>

record WsServer =
  ws_listen :: string
  ws_chans :: "ChannelsImpl option"
  ws_has_acceptor :: bool
  ws_has_listener :: bool
  ws_has_state :: bool
  ws_once :: bool
  ws_options :: ServerOptions

definition ws_NewServer :: "string \<Rightarrow> WsServer" where
  "ws_NewServer listen = \<lparr>ws_listen = listen, ws_chans = None, ws_has_acceptor = False, ws_has_listener = False,
     ws_has_state = False, ws_once = False,
     ws_options = \<lparr>so_loginwait = DefaultLoginWait, so_readwait = DefaultReadWait, so_writewait = Second * 10\<rparr>\<rparr>"

definition ws_SetAcceptor :: "WsServer \<Rightarrow> WsServer" where "ws_SetAcceptor s = s\<lparr>ws_has_acceptor := True\<rparr>"
definition ws_SetMessageListener :: "WsServer \<Rightarrow> WsServer" where "ws_SetMessageListener s = s\<lparr>ws_has_listener := True\<rparr>"
definition ws_SetStateListener :: "WsServer \<Rightarrow> WsServer" where "ws_SetStateListener s = s\<lparr>ws_has_state := True\<rparr>"
definition ws_SetChannelMap :: "ChannelsImpl \<Rightarrow> WsServer \<Rightarrow> WsServer" where "ws_SetChannelMap m s = s\<lparr>ws_chans := Some m\<rparr>"

definition ws_SetReadWait :: "duration \<Rightarrow> WsServer \<Rightarrow> WsServer" where
  "ws_SetReadWait d s = s\<lparr>ws_options := (ws_options s)\<lparr>so_readwait := d\<rparr>\<rparr>"

text \<open>\<open>Start\<close> until it serves HTTP: \<open>None\<close> when it goes on to \<open>ListenAndServe\<close>.\<close>

definition ws_Start :: "WsServer \<Rightarrow> error option \<times> WsServer" where
  "ws_Start s =
     (let s1 = (if ws_has_acceptor s then s else s\<lparr>ws_has_acceptor := True\<rparr>)
      in if \<not> ws_has_state s1 then (Some (ErrorMsg ''StateListener is nil''), s1)
         else (None, if ws_chans s1 = None then s1\<lparr>ws_chans := Some (NewChannels 100)\<rparr> else s1))"

text \<open>
  The handler of one HTTP request: the upgrade fails (a 400 response), or the acceptor refuses,
  or the identifier is taken (a close frame, and the connection is closed), or the channel is
  added and its read loop started. The acceptor is an interface value, its \<open>Accept\<close> an argument.
\<close>

datatype ws_served = Responded "int \<times> string" | Refused conn | Opened string

definition ws_resp :: "int \<Rightarrow> string \<Rightarrow> int \<times> string" where
  "ws_resp code body = (code, if body \<noteq> [] then body else [])"

text \<open>The acceptor of a server that has set none; the identifier is drawn by a library.\<close>

definition ws_defaultAccept :: "string \<Rightarrow> conn \<Rightarrow> duration \<Rightarrow> (error + string) \<times> conn" where
  "ws_defaultAccept ksuid cn timeout = (Inr ksuid, cn)"

definition ws_handle :: "ws_lib \<Rightarrow> (error \<Rightarrow> string) \<Rightarrow> error + conn \<Rightarrow> (conn \<Rightarrow> duration \<Rightarrow> (error + string) \<times> conn) \<Rightarrow> WsServer
    \<Rightarrow> (ws_served \<times> WsServer) outcome" where
  "ws_handle lib wording upgraded accept s =
     (case upgraded of
        Inl err \<Rightarrow> Ret (Responded (ws_resp 400 (error_text wording err)), s)
      | Inr rawconn \<Rightarrow>
          (case accept rawconn (so_loginwait (ws_options s)) of
             (Inl err, cn) \<Rightarrow> Ret (Refused (snd (conn_Close (snd (ws_WriteFrame lib OpClose (bytes_of (error_text wording err)) cn)))), s)
           | (Inr i, cn) \<Rightarrow>
               (case ws_chans s of
                  None \<Rightarrow> Panic
                | Some m \<Rightarrow>
                    if chans_Get i m \<noteq> None
                    then Ret (Refused (snd (conn_Close (snd (ws_WriteFrame lib OpClose (bytes_of ''channelId is repeated'') cn)))), s)
                    else
                      let ch = SetReadWait (so_readwait (ws_options s)) (SetWriteWait (so_writewait (ws_options s)) (NewChannel i cn))
                      in Ret (Opened i, s\<lparr>ws_chans := Some (chans_Add ch m)\<rparr>))))"

text \<open>After the read loop: the channel leaves the table, the state listener is told, the channel is closed.\<close>

definition ws_leave :: "('x \<Rightarrow> error option \<times> 'x) \<Rightarrow> ChannelImpl \<Rightarrow> WsServer \<times> 'x \<Rightarrow> (ChannelImpl \<times> WsServer \<times> 'x) outcome" where
  "ws_leave disconnect ch sx =
     (let s1 = (fst sx)\<lparr>ws_chans := map_option (chans_Remove (ch_id ch)) (ws_chans (fst sx))\<rparr>;
          x1 = snd (disconnect (snd sx))
      in case Close ch of Ret ch' \<Rightarrow> Ret (ch', s1, x1) | Block \<Rightarrow> Block | Panic \<Rightarrow> Panic)"

definition ws_Push :: "string \<Rightarrow> bytes \<Rightarrow> WsServer \<Rightarrow> (error option \<times> WsServer) outcome" where
  "ws_Push i dat s =
     (case ws_chans s of
        None \<Rightarrow> Panic
      | Some m \<Rightarrow>
          (case chans_Get i m of
             None \<Rightarrow> Ret (Some (ErrorMsg ''channel no found''), s)
           | Some ch \<Rightarrow>
               (case Push dat ch of
                  Ret (e, ch') \<Rightarrow> Ret (e, s\<lparr>ws_chans := Some (m(i \<mapsto> ch'))\<rparr>)
                | Block \<Rightarrow> Block
                | Panic \<Rightarrow> Panic)))"

fun ws_close_channels :: "(nat \<Rightarrow> bool) \<Rightarrow> nat \<Rightarrow> ChannelImpl list \<Rightarrow> ChannelsImpl \<Rightarrow> ChannelsImpl outcome" where
  "ws_close_channels ctx_done k [] m = Ret m"
| "ws_close_channels ctx_done k (ch # chs) m =
     (case Close ch of
        Ret ch' \<Rightarrow>
          (let m' = m(ch_id ch \<mapsto> ch')
           in if ctx_done k then Ret m' else ws_close_channels ctx_done (Suc k) chs m')
      | Block \<Rightarrow> Block
      | Panic \<Rightarrow> Panic)"

definition ws_Shutdown :: "(nat \<Rightarrow> bool) \<Rightarrow> string list \<Rightarrow> WsServer \<Rightarrow> (error option \<times> WsServer) outcome" where
  "ws_Shutdown ctx_done order s =
     (if ws_once s then Ret (None, s)
      else case ws_chans s of
          None \<Rightarrow> Panic
        | Some m \<Rightarrow>
            (case ws_close_channels ctx_done 0 (chans_All order m) m of
               Ret m' \<Rightarrow> Ret (None, s\<lparr>ws_once := True, ws_chans := Some m'\<rparr>)
             | Block \<Rightarrow> Block
             | Panic \<Rightarrow> Panic))"

definition ws_pusher :: "WsServer ServerPusher" where
  "ws_pusher = \<lparr>sp_Push = ws_Push\<rparr>"

subsection \<open>The two transports agree\<close>

text \<open>A websocket server seen as a TCP server with the same table, and a client likewise.\<close>

definition as_tcp :: "TcpServer \<Rightarrow> WsServer \<Rightarrow> TcpServer" where
  "as_tcp t s = t\<lparr>ts_chans := the (ws_chans s), ts_once := ws_once s\<rparr>"

definition as_tcp_client :: "WsClient \<Rightarrow> TcpClient" where
  "as_tcp_client c = \<lparr>tc_once = wc_once c, tc_id = wc_id c, tc_name = wc_name c, tc_conn = wc_conn c,
     tc_state = wc_state c, tc_options = wc_options c\<rparr>"

lemma close_channels_agree:
  "close_channels ctx_done k chs t = map_outcome (\<lambda>m. t\<lparr>ts_chans := m\<rparr>) (ws_close_channels ctx_done k chs (ts_chans t))"
proof (induction chs arbitrary: k t)
  case (Cons ch chs)
  show ?case by (cases "Close ch") (simp_all add: Let_def Cons.IH fun_upd_def)
qed simp

text \<open>
  Once it is started, the websocket server treats pushes and shutdowns exactly as the TCP
  server does on the same table of channels, panics and errors included. Before \<open>Start\<close> (or
  \<open>SetChannelMap\<close>) its table is nil and both operations panic, where the TCP server, which is
  created with a table, answers.
\<close>

theorem ws_server_agrees:
  assumes "ws_Start (ws_SetStateListener s) = (r, s')"
  shows "r = None \<and> map_outcome (\<lambda>(e, x). (e, as_tcp t x)) (ws_Push i dat s') = tcp_Push i dat (as_tcp t s')
    \<and> map_outcome (\<lambda>(e, x). (e, as_tcp t x)) (ws_Shutdown ctx_done order s') = tcp_Shutdown ctx_done order (as_tcp t s')
    \<and> ws_Push i dat (ws_NewServer l) = Panic \<and> ws_Shutdown ctx_done order (ws_NewServer l) = Panic"
proof -
  from assms obtain m where m: "ws_chans s' = Some m" and r: "r = None"
    by (auto simp: ws_Start_def ws_SetStateListener_def Let_def split: if_splits)
  have "map_outcome (\<lambda>(e, x). (e, as_tcp t x)) (ws_Push i dat s') = tcp_Push i dat (as_tcp t s')"
    using m by (simp add: ws_Push_def tcp_Push_def as_tcp_def split: option.splits outcome.splits)
  moreover have "map_outcome (\<lambda>(e, x). (e, as_tcp t x)) (ws_Shutdown ctx_done order s') = tcp_Shutdown ctx_done order (as_tcp t s')"
    using m by (simp add: ws_Shutdown_def tcp_Shutdown_def as_tcp_def once_do_def close_channels_agree split: outcome.splits)
  ultimately show ?thesis using r by (simp add: ws_NewServer_def ws_Push_def ws_Shutdown_def)
qed

theorem ws_server_agrees_witness:
  "map_outcome (\<lambda>(e, x). (e, as_tcp (NewServer ''l'') x))
     (ws_Push ''a'' [1] (snd (ws_Start (ws_SetStateListener (ws_SetChannelMap [''a'' \<mapsto> NewChannel ''a'' open_conn] (ws_NewServer ''l''))))))
   = tcp_Push ''a'' [1] (as_tcp (NewServer ''l'') (snd (ws_Start (ws_SetStateListener (ws_SetChannelMap [''a'' \<mapsto> NewChannel ''a'' open_conn] (ws_NewServer ''l''))))))"
  using ws_server_agrees [OF prod.collapse [symmetric], of "ws_SetChannelMap [''a'' \<mapsto> NewChannel ''a'' open_conn] (ws_NewServer ''l'')"] by blast

text \<open>The pusher contract holds for the websocket server as well: before the start no push returns.\<close>

definition ws_inbox :: "string \<Rightarrow> WsServer \<Rightarrow> bytes list" where
  "ws_inbox i s = (case ws_chans s of None \<Rightarrow> [] | Some m \<Rightarrow> (case m i of None \<Rightarrow> [] | Some ch \<Rightarrow> cbuf (writechan ch)))"

definition ws_live :: "string \<Rightarrow> WsServer \<Rightarrow> bool" where
  "ws_live i s \<longleftrightarrow> (\<exists>m ch. ws_chans s = Some m \<and> m i = Some ch \<and> \<not> HasFired (ch_closed ch))"

lemma ws_Push_cases:
  assumes "ws_Push i dat s = Ret (r, s')"
  shows "\<not> ws_live i s \<and> r \<noteq> None \<and> s' = s
    \<or> (\<exists>m ch. ws_chans s = Some m \<and> m i = Some ch \<and> \<not> HasFired (ch_closed ch) \<and> r = None \<and>
        s' = s\<lparr>ws_chans := Some (m(i \<mapsto> ch\<lparr>writechan := (writechan ch)\<lparr>cbuf := cbuf (writechan ch) @ [dat]\<rparr>\<rparr>))\<rparr>)"
proof -
  from assms obtain m where m: "ws_chans s = Some m" by (auto simp: ws_Push_def split: option.splits)
  show ?thesis
  proof (cases "m i")
    case None
    with assms m show ?thesis by (auto simp: ws_Push_def chans_Get_def ws_live_def)
  next
    case (Some ch)
    with assms m obtain ch' where "Push dat ch = Ret (r, ch')" "s' = s\<lparr>ws_chans := Some (m(i \<mapsto> ch'))\<rparr>"
      by (auto simp: ws_Push_def chans_Get_def split: outcome.splits)
    moreover have "s\<lparr>ws_chans := Some m\<rparr> = s" using m by (cases s) simp
    ultimately show ?thesis using Some m Push_cases [of dat ch r ch'] by (auto simp: ws_live_def fun_upd_idem)
  qed
qed

interpretation wsp: pusher ws_pusher ws_inbox ws_live
proof
  fix i p dat r p' k assume "ws_live i p" "sp_Push ws_pusher i dat p = Ret (r, p')"
  then show "r = None \<and> ws_inbox k p' = (if k = i then ws_inbox k p @ [dat] else ws_inbox k p)"
    using ws_Push_cases [of i dat p r p'] by (auto simp: ws_pusher_def ws_inbox_def)
next
  fix i p dat r p' assume "\<not> ws_live i p" "sp_Push ws_pusher i dat p = Ret (r, p')"
  then show "r \<noteq> None \<and> p' = p"
    using ws_Push_cases [of i dat p r p'] by (auto simp: ws_pusher_def ws_live_def)
next
  fix i p dat r p' k assume "sp_Push ws_pusher i dat p = Ret (r, p')"
  then show "ws_live k p' = ws_live k p"
    using ws_Push_cases [of i dat p r p'] by (auto simp: ws_pusher_def ws_live_def split: if_splits)
qed

text \<open>
  One run of the ticker over websockets gives every open channel with a session exactly one
  message, the new job, and every other channel nothing, as over TCP.
\<close>

lemma ws_broadcast_reaches_all:
  assumes "coord_run t c = Ret c'" and "srv c = ws_pusher"
    and "distinct (tk_order t)" and "set (tk_order t) = dom (sessions c)" and "filed_sessions (sessions c)"
  shows "ws_inbox k (srv_obj c') = ws_inbox k (srv_obj c)
    @ (if k \<in> dom (sessions c) \<and> ws_live k (srv_obj c) then [job_data (jobID c') (serverNonce c')] else [])"
proof -
  from coord_run_Ret [OF assms(1,3-5)] assms(2) have
    "push_each ws_pusher (job_data (jobID c') (serverNonce c')) (tk_order t) (srv_obj c) = Ret (srv_obj c')" by auto
  from wsp.push_each_inbox [OF this assms(3), of k] assms(4) show ?thesis by simp
qed

subsection \<open>The client\<close>

text \<open>
  The websocket client connects exactly as the TCP client does (errors, state and the
  decision about the heartbeat), and refuses or panics on \<open>Send\<close> in the same states; but a new
  websocket client has no default heartbeat: with zero options the TCP client starts its
  heartbeat on a successful connect, the websocket client does not, and so its \<open>Read\<close> sets no
  deadline on the connection.
\<close>

theorem ws_client_agrees:
  assumes "dial \<lparr>dc_Id = i, dc_Name = n, dc_Address = addr, dc_Timeout = DefaultLoginWait\<rparr> = Inr (Some cn)"
  shows "map_prod id (map_prod id as_tcp_client) (ws_Connect url_err dial' addr c) = Connect url_err dial' addr (as_tcp_client c)
    \<and> (wc_state c = 0 \<longrightarrow> ws_Send lib now p c = Ret (Some (ErrorMsg ''connection is nil''), c))
    \<and> (ws_Send lib now p c = Panic \<longleftrightarrow> Send now p (as_tcp_client c) = Panic)
    \<and> (\<exists>c1. Connect None dial addr (tcp_NewClient i n \<lparr>Heartbeat = 0, ReadWait = 0, WriteWait = 0\<rparr>) = (None, True, c1))
    \<and> (\<exists>c2. ws_Connect None dial addr (ws_NewClient i n \<lparr>Heartbeat = 0, ReadWait = 0, WriteWait = 0\<rparr>) = (None, False, c2)
        \<and> wc_conn c2 = Some cn \<and> (\<forall>f cn'. lib_ReadFrame lib cn = (Inr f, cn') \<longrightarrow> wc_conn (snd (ws_Read lib now c2)) = Some cn'))"
proof (intro conjI)
  show "map_prod id (map_prod id as_tcp_client) (ws_Connect url_err dial' addr c) = Connect url_err dial' addr (as_tcp_client c)"
    by (auto simp: ws_Connect_def Connect_def ws_CompareAndSwap_def CompareAndSwap_def as_tcp_client_def split: option.splits sum.splits)
  show "wc_state c = 0 \<longrightarrow> ws_Send lib now p c = Ret (Some (ErrorMsg ''connection is nil''), c)" by (simp add: ws_Send_def)
  show "ws_Send lib now p c = Panic \<longleftrightarrow> Send now p (as_tcp_client c) = Panic"
    by (auto simp: ws_Send_def Send_def as_tcp_client_def split: option.splits prod.splits)
  show "\<exists>c1. Connect None dial addr (tcp_NewClient i n \<lparr>Heartbeat = 0, ReadWait = 0, WriteWait = 0\<rparr>) = (None, True, c1)"
    using assms by (simp add: Connect_def CompareAndSwap_def tcp_NewClient_def Let_def DefaultHeartbeat_def Second_def)
  show "\<exists>c2. ws_Connect None dial addr (ws_NewClient i n \<lparr>Heartbeat = 0, ReadWait = 0, WriteWait = 0\<rparr>) = (None, False, c2)
        \<and> wc_conn c2 = Some cn \<and> (\<forall>f cn'. lib_ReadFrame lib cn = (Inr f, cn') \<longrightarrow> wc_conn (snd (ws_Read lib now c2)) = Some cn')"
    using assms by (simp add: ws_Connect_def ws_CompareAndSwap_def ws_NewClient_def ws_Read_def Let_def)
qed

theorem ws_client_agrees_witness:
  "\<exists>c2. ws_Connect None (\<lambda>_. Inr (Some open_conn)) ''x'' (ws_NewClient ''i'' ''n'' \<lparr>Heartbeat = 0, ReadWait = 0, WriteWait = 0\<rparr>) = (None, False, c2)
    \<and> wc_conn c2 = Some open_conn"
  using ws_client_agrees [of "\<lambda>_. Inr (Some open_conn)" "''i''" "''n''" "''x''" open_conn] by blast

fun payload_reads :: "ws_lib \<Rightarrow> nat \<Rightarrow> ws_frame \<Rightarrow> bytes list" where
  "payload_reads lib 0 f = []"
| "payload_reads lib (Suc n) f = (case ws_GetPayload lib f of (p, f') \<Rightarrow> p # payload_reads lib n f')"

text \<open>
  The payload of a received frame is unmasked exactly once, however often it is read: every
  call of \<open>GetPayload\<close> returns the same bytes, the unmasked ones.
\<close>

theorem ws_payload_unmasked_once:
  "payload_reads lib n f = replicate n (if wf_Masked f then lib_Cipher lib (wf_Payload f) (wf_Mask f) 0 else wf_Payload f)"
proof (induction n arbitrary: f)
  case (Suc n)
  show ?case by (simp add: Suc.IH ws_GetPayload_def Let_def)
qed simp

end
