(* ===== verification/Ws_Delivery.thy ===== *)
theory Ws_Delivery
  imports Ws_Transport
begin

text \<open>
  The websocket transport from end to end, over any library that keeps the contract \<open>ws_library\<close>:
  what a client sends is what the server's read loop hands on, and what is pushed on a server
  channel is what the client reads.
\<close>

subsection \<open>From the client to the server\<close>

text \<open>
  What a connected client does between its connect and its close: a send, or a ping of the
  heartbeat, which works on the connection the client was started with. Both hold the lock.
\<close>

datatype ws_action = SendAct bytes | PingAct

fun ws_act :: "ws_lib \<Rightarrow> go_time \<Rightarrow> ws_action \<Rightarrow> WsClient \<Rightarrow> (error option \<times> WsClient) outcome" where
  "ws_act lib now (SendAct p) c = ws_Send lib now p c"
| "ws_act lib now PingAct c =
     (case wc_conn c of
        None \<Rightarrow> Panic
      | Some cn \<Rightarrow> (case ws_ping lib now c cn of (e, cn') \<Rightarrow> Ret (e, c\<lparr>wc_conn := Some cn'\<rparr>)))"

fun ws_acts :: "ws_lib \<Rightarrow> (go_time \<times> ws_action) list \<Rightarrow> WsClient \<Rightarrow> (error option \<times> WsClient) outcome" where
  "ws_acts lib [] c = Ret (None, c)"
| "ws_acts lib ((now, a) # as) c =
     (case ws_act lib now a c of
        Ret (None, c') \<Rightarrow> ws_acts lib as c'
      | r \<Rightarrow> r)"

fun sent_payloads :: "(go_time \<times> ws_action) list \<Rightarrow> bytes list" where
  "sent_payloads [] = []"
| "sent_payloads ((now, SendAct p) # as) = p # sent_payloads as"
| "sent_payloads ((now, PingAct) # as) = sent_payloads as"

definition ping_count :: "(go_time \<times> ws_action) list \<Rightarrow> nat" where
  "ping_count as = length (filter (\<lambda>a. snd a = PingAct) as)"

text \<open>The frame an action puts on the wire, with the mask the library drew.\<close>

fun act_frame :: "ws_action \<Rightarrow> bytes \<Rightarrow> ws_frame" where
  "act_frame (SendAct p) m = masked_frame OpBinary m p"
| "act_frame PingAct m = masked_frame OpPing m []"

definition sendable :: "(go_time \<times> ws_action) list \<Rightarrow> bool" where
  "sendable as \<longleftrightarrow> list_all (\<lambda>p. length p < 2 ^ 63) (sent_payloads as)"

lemma sendable_simps [simp]:
  "sendable []" "sendable ((t, SendAct p) # as) \<longleftrightarrow> length p < 2 ^ 63 \<and> sendable as"
  "sendable ((t, PingAct) # as) = sendable as"
  by (simp_all add: sendable_def)

lemma ping_count_simps [simp]:
  "ping_count [] = 0" "ping_count ((t, SendAct p) # as) = ping_count as" "ping_count ((t, PingAct) # as) = Suc (ping_count as)"
  by (simp_all add: ping_count_def)

text \<open>A client with a connection that works.\<close>

definition ws_up :: "WsClient \<Rightarrow> bool" where
  "ws_up c \<longleftrightarrow> wc_state c = 1 \<and> \<not> wc_once c \<and> (\<exists>cn. wc_conn c = Some cn \<and> working cn)"

definition ws_sent :: "WsClient \<Rightarrow> bytes" where
  "ws_sent c = (case wc_conn c of None \<Rightarrow> [] | Some cn \<Rightarrow> wbuf (c_out cn))"

context ws_library
begin

lemma masked_ok: "code < 16 \<Longrightarrow> length m = 4 \<Longrightarrow> length p < 2 ^ 63 \<Longrightarrow> ws_ok (masked_frame code m p)"
  by (simp add: ws_ok_def masked_frame_def)

lemma code_masked: "wsc.code_of (masked_frame code m p) = code"
  by (simp add: wsc.code_of_def) (simp add: ws_conn_def ws_GetOpCode_def masked_frame_def)

lemma body_masked: "wsc.body_of (masked_frame code m p) = p"
  by (simp add: wsc.body_of_def) (simp add: ws_conn_def payload_masked)

lemma act_up:
  assumes "ws_up c"
  shows "\<exists>c' m. ws_act lib now a c = Ret (None, c') \<and> ws_up c' \<and> length m = 4
    \<and> ws_sent c' = ws_sent c @ ws_text (act_frame a m)"
proof -
  from assms obtain cn where c: "wc_conn c = Some cn" "working cn" by (auto simp: ws_up_def)
  let ?cn = "cn\<lparr>c_wdl := Some (time_add now (WriteWait (wc_options c)))\<rparr>"
  have w: "working ?cn" "SetWriteDeadline (time_add now (WriteWait (wc_options c))) cn = (None, ?cn)"
    using c(2) by (simp_all add: working_def SetWriteDeadline_def)
  show ?thesis
  proof (cases a)
    case (SendAct q)
    obtain m where m: "length m = 4" "lib_WriteClientMessage lib OpBinary q ?cn = (None, sent_on (ws_text (masked_frame OpBinary m q)) ?cn)"
      using client_message [OF w(1)] by blast
    with SendAct c w assms show ?thesis
      by (intro exI [of _ "c\<lparr>wc_conn := Some (sent_on (ws_text (masked_frame OpBinary m q)) ?cn)\<rparr>"] exI [of _ m])
        (simp add: ws_Send_def ws_up_def ws_sent_def)
  next
    case PingAct
    obtain m where m: "length m = 4" "lib_WriteClientMessage lib OpPing [] ?cn = (None, sent_on (ws_text (masked_frame OpPing m [])) ?cn)"
      using client_message [OF w(1)] by blast
    with PingAct c w assms show ?thesis
      by (intro exI [of _ "c\<lparr>wc_conn := Some (sent_on (ws_text (masked_frame OpPing m [])) ?cn)\<rparr>"] exI [of _ m])
        (simp add: ws_ping_def ws_up_def ws_sent_def)
  qed
qed

text \<open>The frames a sequence of actions puts on the wire.\<close>

lemma acts_up:
  assumes "ws_up c" and "sendable as"
  shows "\<exists>c' fs. ws_acts lib as c = Ret (None, c') \<and> ws_up c' \<and> ws_sent c' = ws_sent c @ concat (map ws_text fs)
    \<and> list_all ws_ok fs \<and> (\<forall>f \<in> set fs. wsc.code_of f \<noteq> OpClose)
    \<and> wsc.handed_over fs = filter (\<lambda>p. p \<noteq> []) (sent_payloads as)
    \<and> wsc.answers fs = concat (replicate (ping_count as) (ws_text (plain_frame OpPong [])))"
  using assms
proof (induction as arbitrary: c)
  case Nil
  then show ?case by (intro exI [of _ c] exI [of _ "[]"]) (simp add: wsc.handed_over_def wsc.answers_def)
next
  case (Cons ta as)
  obtain t a where ta: "ta = (t, a)" by (cases ta)
  obtain c1 m where 1: "ws_act lib t a c = Ret (None, c1)" "ws_up c1" "length m = 4" "ws_sent c1 = ws_sent c @ ws_text (act_frame a m)"
    using act_up [OF Cons.prems(1), of t a] by blast
  have s: "sendable as" using Cons.prems(2) ta by (cases a) simp_all
  obtain c2 fs where 2: "ws_acts lib as c1 = Ret (None, c2)" "ws_up c2" "ws_sent c2 = ws_sent c1 @ concat (map ws_text fs)"
    "list_all ws_ok fs" "\<forall>f \<in> set fs. wsc.code_of f \<noteq> OpClose"
    "wsc.handed_over fs = filter (\<lambda>p. p \<noteq> []) (sent_payloads as)"
    "wsc.answers fs = concat (replicate (ping_count as) (ws_text (plain_frame OpPong [])))"
    using Cons.IH [OF 1(2) s] by blast
  have ok: "ws_ok (act_frame a m)"
    using Cons.prems(2) ta 1(3) by (cases a) (auto intro!: masked_ok simp: OpBinary_def OpPing_def)
  have code: "wsc.code_of (act_frame a m) = (case a of SendAct _ \<Rightarrow> OpBinary | PingAct \<Rightarrow> OpPing)"
    by (cases a) (simp_all add: code_masked)
  have body: "wsc.body_of (act_frame a m) = (case a of SendAct p \<Rightarrow> p | PingAct \<Rightarrow> [])"
    by (cases a) (simp_all add: body_masked)
  from 1 2 ok code body ta show ?case
    by (intro exI [of _ c2] exI [of _ "act_frame a m # fs"], cases a)
      (simp_all add: wsc.handed_over_def wsc.answers_def OpBinary_def OpPing_def OpClose_def)
qed

lemma close_up:
  assumes "ws_up c"
  shows "\<exists>cn m. wc_conn (ws_Close lib c) = Some cn \<and> c_closed cn \<and> wc_state (ws_Close lib c) = 0 \<and> length m = 4
    \<and> wbuf (c_out cn) = ws_sent c @ ws_text (masked_frame OpClose m [])"
proof -
  from assms obtain cn where c: "wc_conn c = Some cn" "working cn" "\<not> wc_once c" "wc_state c = 1" by (auto simp: ws_up_def)
  obtain m where m: "length m = 4" "lib_WriteClientMessage lib OpClose [] cn = (None, sent_on (ws_text (masked_frame OpClose m [])) cn)"
    using client_message [OF c(2)] by blast
  have "\<not> c_closed cn" using c(2) by (simp add: working_def)
  with c m show ?thesis
    by (intro exI [of _ "(sent_on (ws_text (masked_frame OpClose m [])) cn)\<lparr>c_closed := True\<rparr>"] exI [of _ m])
      (simp add: ws_Close_def ws_CompareAndSwap_def conn_Close_def ws_sent_def)
qed

lemma session_delivered:
  assumes "ws_up c" "ws_sent c = []" "sendable as"
  shows "\<exists>c' cn. ws_acts lib as c = Ret (None, c') \<and> wc_conn (ws_Close lib c') = Some cn
    \<and> c_closed cn \<and> wc_state (ws_Close lib c') = 0
    \<and> (\<forall>ch e. working (ch_conn ch) \<longrightarrow> c_in (ch_conn ch) = \<lparr>rbuf = wbuf (c_out cn), rend = e\<rparr> \<longrightarrow>
        (\<exists>ch'. Readloop (ws_conn lib) now ch
            = Some (ErrorMsg ''remote side close the channel'', filter (\<lambda>p. p \<noteq> []) (sent_payloads as), ch')
          \<and> wbuf (c_out (ch_conn ch')) = wbuf (c_out (ch_conn ch))
              @ concat (replicate (ping_count as) (ws_text (plain_frame OpPong [])))))"
proof -
  obtain c' fs where a: "ws_acts lib as c = Ret (None, c')" "ws_up c'" "ws_sent c' = concat (map ws_text fs)"
    "list_all ws_ok fs" "\<forall>f \<in> set fs. wsc.code_of f \<noteq> OpClose"
    "wsc.handed_over fs = filter (\<lambda>p. p \<noteq> []) (sent_payloads as)"
    "wsc.answers fs = concat (replicate (ping_count as) (ws_text (plain_frame OpPong [])))"
    using acts_up [OF assms(1,3)] assms(2) by auto
  obtain cn m where c: "wc_conn (ws_Close lib c') = Some cn" "c_closed cn" "wc_state (ws_Close lib c') = 0" "length m = 4"
    "wbuf (c_out cn) = concat (map ws_text fs) @ ws_text (masked_frame OpClose m [])"
    using close_up [OF a(2)] a(3) by auto
  have "wsc.input_end (ws_text (masked_frame OpClose m [])) e (ErrorMsg ''remote side close the channel'')" for e
    unfolding wsc.input_end_def using c(4)
    by (intro disjI2 exI [of _ "masked_frame OpClose m []"] exI [of _ "[]"])
      (auto intro!: masked_ok simp: code_masked, simp add: OpClose_def)
  from wsc.serves [OF _ _ a(4,5) this, of _ _ now] a(1,6,7) c show ?thesis by fastforce
qed

end

text \<open>
  C22: a websocket client that is connected sends any messages, its heartbeat pings in between, and
  it closes. Every call succeeds; the client ends disconnected with its connection closed. A
  server channel whose connection brings the bytes the client wrote hands exactly the non-empty
  messages, unmasked and in order, to the listener, answers each ping with one pong and writes
  nothing else, and its read loop ends because the peer closed.
\<close>

theorem ws_delivers:
  assumes "ws_library lib" and "ws_up c" and "ws_sent c = []" and "sendable as"
  shows "\<exists>c' cn. ws_acts lib as c = Ret (None, c') \<and> wc_conn (ws_Close lib c') = Some cn
    \<and> c_closed cn \<and> wc_state (ws_Close lib c') = 0
    \<and> (\<forall>ch e. working (ch_conn ch) \<longrightarrow> c_in (ch_conn ch) = \<lparr>rbuf = wbuf (c_out cn), rend = e\<rparr> \<longrightarrow>
        (\<exists>ch'. Readloop (ws_conn lib) now ch
            = Some (ErrorMsg ''remote side close the channel'', filter (\<lambda>p. p \<noteq> []) (sent_payloads as), ch')
          \<and> wbuf (c_out (ch_conn ch')) = wbuf (c_out (ch_conn ch))
              @ concat (replicate (ping_count as) (ws_text (plain_frame OpPong [])))))"
  by (rule ws_library.session_delivered [OF assms])

text \<open>A client that has just connected.\<close>

definition ws_bob :: WsClient where
  "ws_bob = snd (snd (ws_Connect None (\<lambda>_. Inr (Some open_conn)) ''x''
     (ws_NewClient ''i'' ''n'' \<lparr>Heartbeat = Second, ReadWait = 0, WriteWait = 0\<rparr>)))"

lemma ws_bob_up: "ws_up ws_bob" "ws_sent ws_bob = []"
  by (simp_all add: ws_bob_def ws_Connect_def ws_CompareAndSwap_def ws_NewClient_def Let_def ws_up_def ws_sent_def)

definition ws_bob_acts :: "(go_time \<times> ws_action) list" where
  "ws_bob_acts = [(zero_time, SendAct [7]), (zero_time, PingAct), (zero_time, SendAct []), (zero_time, SendAct [8, 9])]"

theorem ws_delivers_witness:
  "\<exists>c' cn ch'. ws_acts (rfc_lib [1, 2, 3, 4]) ws_bob_acts ws_bob = Ret (None, c')
    \<and> wc_conn (ws_Close (rfc_lib [1, 2, 3, 4]) c') = Some cn
    \<and> Readloop (ws_conn (rfc_lib [1, 2, 3, 4])) (\<lambda>_. zero_time) (NewChannel ''a'' (open_conn\<lparr>c_in := \<lparr>rbuf = wbuf (c_out cn), rend = EOF\<rparr>\<rparr>))
        = Some (ErrorMsg ''remote side close the channel'', [[7], [8, 9]], ch')
    \<and> wbuf (c_out (ch_conn ch')) = ws_text (plain_frame OpPong [])"
proof -
  have s: "sendable ws_bob_acts" "filter (\<lambda>p. p \<noteq> []) (sent_payloads ws_bob_acts) = [[7], [8, 9]]" "ping_count ws_bob_acts = 1"
    by (simp_all add: ws_bob_acts_def)
  let ?ch = "\<lambda>cn :: conn. NewChannel ''a'' (open_conn\<lparr>c_in := \<lparr>rbuf = wbuf (c_out cn), rend = EOF\<rparr>\<rparr>)"
  have ch: "working (ch_conn (?ch cn))" "c_in (ch_conn (?ch cn)) = \<lparr>rbuf = wbuf (c_out cn), rend = EOF\<rparr>"
    "wbuf (c_out (ch_conn (?ch cn))) = []" for cn
    by (simp_all add: NewChannel_def working_def open_conn_def)
  from ws_delivers [OF rfc.ws_library_axioms ws_bob_up s(1), of "\<lambda>_. zero_time"] obtain c' cn where
    a: "ws_acts (rfc_lib [1, 2, 3, 4]) ws_bob_acts ws_bob = Ret (None, c')" "wc_conn (ws_Close (rfc_lib [1, 2, 3, 4]) c') = Some cn"
    and r: "\<And>ch e. working (ch_conn ch) \<Longrightarrow> c_in (ch_conn ch) = \<lparr>rbuf = wbuf (c_out cn), rend = e\<rparr> \<Longrightarrow>
      \<exists>ch'. Readloop (ws_conn (rfc_lib [1, 2, 3, 4])) (\<lambda>_. zero_time) ch = Some (ErrorMsg ''remote side close the channel'', [[7], [8, 9]], ch')
        \<and> wbuf (c_out (ch_conn ch')) = wbuf (c_out (ch_conn ch)) @ ws_text (plain_frame OpPong [])"
    unfolding s(2,3) by (auto simp: numeral_2_eq_2)
  from r [OF ch(1,2)] a show ?thesis unfolding ch(3) by auto
qed

subsection \<open>From the server to the client\<close>

text \<open>Reads of a client until the first error: the payloads of the frames and the error.\<close>

fun ws_reads :: "ws_lib \<Rightarrow> go_time list \<Rightarrow> WsClient \<Rightarrow> bytes list \<times> error option" where
  "ws_reads lib [] c = ([], None)"
| "ws_reads lib (t # ts) c =
     (case ws_Read lib t c of
        (Inl err, c') \<Rightarrow> ([], Some err)
      | (Inr f, c') \<Rightarrow> (case ws_reads lib ts c' of (ps, r) \<Rightarrow> (fst (ws_GetPayload lib f) # ps, r)))"

context ws_library
begin

lemma plain_ok: "code < 16 \<Longrightarrow> length p < 2 ^ 63 \<Longrightarrow> ws_ok (plain_frame code p)"
  by (simp add: ws_ok_def plain_frame_def)

lemma read_plain:
  assumes "wc_conn c = Some cn" "\<not> c_closed cn" "c_in cn = \<lparr>rbuf = ws_text (plain_frame OpBinary p) @ r, rend = e\<rparr>" "length p < 2 ^ 63"
  shows "\<exists>c' cn'. ws_Read lib t c = (Inr (plain_frame OpBinary p), c') \<and> wc_conn c' = Some cn' \<and> \<not> c_closed cn'
    \<and> c_in cn' = \<lparr>rbuf = r, rend = e\<rparr>"
proof -
  let ?cn = "if Heartbeat (wc_options c) > 0 then snd (SetReadDeadline (time_add t (ReadWait (wc_options c))) cn) else cn"
  have "lib_ReadFrame lib ?cn = (Inr (plain_frame OpBinary p), ?cn\<lparr>c_in := \<lparr>rbuf = r, rend = e\<rparr>\<rparr>)"
    by (rule lib_read) (use assms plain_ok [of OpBinary p] in \<open>simp_all add: OpBinary_def\<close>)
  with assms(1,2) show ?thesis
    by (intro exI [of _ "c\<lparr>wc_conn := Some (?cn\<lparr>c_in := \<lparr>rbuf = r, rend = e\<rparr>\<rparr>)\<rparr>"])
      (simp add: ws_Read_def Let_def plain_frame_def OpBinary_def OpClose_def)
qed

lemma read_nothing:
  assumes "wc_conn c = Some cn" "\<not> c_closed cn" "c_in cn = \<lparr>rbuf = [], rend = e\<rparr>"
  shows "fst (ws_Read lib t c) = Inl e"
proof -
  let ?cn = "if Heartbeat (wc_options c) > 0 then snd (SetReadDeadline (time_add t (ReadWait (wc_options c))) cn) else cn"
  have "lib_ReadFrame lib ?cn = (Inl e, ?cn)" by (rule lib_read_end) (use assms in simp_all)
  with assms(1) show ?thesis by (simp add: ws_Read_def Let_def)
qed

lemma reads_frames:
  assumes "wc_conn c = Some cn" "\<not> c_closed cn"
    "c_in cn = \<lparr>rbuf = frames_text (\<lambda>code p. ws_text (plain_frame code p)) ps, rend = e\<rparr>"
    "list_all (\<lambda>p. length p < 2 ^ 63) ps" "length ts = Suc (length ps)"
  shows "ws_reads lib ts c = (ps, Some e)"
  using assms
proof (induction ps arbitrary: c cn ts)
  case Nil
  then obtain t where "ts = [t]" by (auto simp: length_Suc_conv)
  with read_nothing [of c cn e t] Nil show ?case by (auto split: prod.splits sum.splits)
next
  case (Cons p ps)
  then obtain t us where ts: "ts = t # us" "length us = Suc (length ps)" by (auto simp: length_Suc_conv)
  obtain c' cn' where "ws_Read lib t c = (Inr (plain_frame OpBinary p), c')" "wc_conn c' = Some cn'" "\<not> c_closed cn'"
    "c_in cn' = \<lparr>rbuf = frames_text (\<lambda>code p. ws_text (plain_frame code p)) ps, rend = e\<rparr>"
    using read_plain [OF Cons.prems(1,2), of p _ e t] Cons.prems(3,4) by auto
  with Cons.IH [of c' cn' us] Cons.prems(4) ts show ?case by (simp add: payload_plain)
qed

lemma pushes_read:
  assumes "working c0" "wbuf (c_out c0) = []" "ch_run (ws_conn lib) (AtSelect, NewChannel i c0) ls (pc, ch)"
    "list_all (\<lambda>p. length p < 2 ^ 63) (pushes ls)"
  shows "\<exists>got k. got @ cbuf (writechan ch) = pushes ls
    \<and> (0 < k \<longrightarrow> HasFired (ch_closed ch) \<and> cbuf (writechan ch) = [])
    \<and> (\<forall>c cn ts e. wc_conn c = Some cn \<longrightarrow> \<not> c_closed cn \<longrightarrow> c_in cn = \<lparr>rbuf = wbuf (c_out (ch_conn ch)), rend = e\<rparr>
        \<longrightarrow> length ts = Suc (length got + k) \<longrightarrow> ws_reads lib ts c = (got @ replicate k [], Some e))"
proof -
  obtain got k where g: "wbuf (c_out (ch_conn ch)) = frames_text (\<lambda>code p. ws_text (plain_frame code p)) (got @ replicate k [])"
    "got @ cbuf (writechan ch) = pushes ls" "0 < k \<longrightarrow> HasFired (ch_closed ch) \<and> cbuf (writechan ch) = []"
    using wsc.run_order [OF assms(1,3)] assms(2) by auto
  have "list_all (\<lambda>p. length p < 2 ^ 63) (got @ replicate k [])"
    using assms(4) g(2) [symmetric] by (auto simp: list_all_iff)
  then have "ws_reads lib ts c = (got @ replicate k [], Some e)"
    if "wc_conn c = Some cn" "\<not> c_closed cn" "c_in cn = \<lparr>rbuf = wbuf (c_out (ch_conn ch)), rend = e\<rparr>" "length ts = Suc (length got + k)"
    for c cn ts e
    using that reads_frames [of c cn "got @ replicate k []" e ts] unfolding g(1) by simp
  with g(2,3) show ?thesis by blast
qed

end

text \<open>
  C23: on a websocket channel, whatever the interleaving of pushes, steps of the write loop and
  closes, a client that reads until the connection is exhausted gets the messages pushed, in
  order and unchanged, without those still in the queue; empty messages nobody pushed can follow
  only after a close.
\<close>

theorem ws_pushes_read:
  assumes "ws_library lib" and "working c0" and "wbuf (c_out c0) = []"
    and "ch_run (ws_conn lib) (AtSelect, NewChannel i c0) ls (pc, ch)"
    and "list_all (\<lambda>p. length p < 2 ^ 63) (pushes ls)"
  shows "\<exists>got k. got @ cbuf (writechan ch) = pushes ls
    \<and> (0 < k \<longrightarrow> HasFired (ch_closed ch) \<and> cbuf (writechan ch) = [])
    \<and> (\<forall>c cn ts e. wc_conn c = Some cn \<longrightarrow> \<not> c_closed cn \<longrightarrow> c_in cn = \<lparr>rbuf = wbuf (c_out (ch_conn ch)), rend = e\<rparr>
        \<longrightarrow> length ts = Suc (length got + k) \<longrightarrow> ws_reads lib ts c = (got @ replicate k [], Some e))"
  by (rule ws_library.pushes_read [OF assms])

text \<open>A push, then a step of the write loop.\<close>

lemma ws_push_written:
  "\<exists>ch. ch_run (ws_conn (rfc_lib [1, 2, 3, 4])) (AtSelect, NewChannel ''a'' open_conn) [Pushed [1], Wrote] (Inner 0, ch)
    \<and> cbuf (writechan ch) = []"
proof -
  let ?ops = "ws_conn (rfc_lib [1, 2, 3, 4])" and ?ch0 = "NewChannel ''a'' open_conn"
  obtain ch1 where 1: "Push [1] ?ch0 = Ret (None, ch1)" "ch_conn ch1 = open_conn" "cbuf (writechan ch1) = [[1]]"
    "\<not> HasFired (ch_closed ch1)" "ch_inv ch1"
    using ch_inv_New [of "''a''" open_conn]
    by (simp add: Push_inv) (simp add: NewChannel_def make_chan_def ch_inv_def chan_ok_def)
  obtain ch2 ch3 where w: "recv_payload ch1 = Some ([1], ch2)" "ch_WriteFrame ?ops zero_time OpBinary [1] ch2 = (None, ch3)"
    "cbuf (writechan ch3) = []"
    using frame_conn.write_one [OF rfc.wsc.frame_conn_axioms, of ch1 "[1]" "[]"] 1(2,3) working_open_conn(1) by metis
  have "\<not> done_ready (ch_closed ch1)" using 1(4,5) by (simp add: ch_inv_def done_ready_iff)
  with w have "writeloop ?ops False zero_time AtSelect ch1 = Some (Inner 0, ch3)" by simp
  from ch_run.snoc [OF ch_run.snoc [OF ch_run.start ch_step.push [OF 1(1)]] ch_step.emit [OF this]] w(3) show ?thesis by auto
qed

theorem ws_pushes_read_witness:
  "\<exists>(ch :: ChannelImpl) got k. got @ cbuf (writechan ch) = [[1]] \<and> cbuf (writechan ch) = []
    \<and> ws_reads (rfc_lib [1, 2, 3, 4]) (replicate (Suc (length got + k)) zero_time)
        (ws_bob\<lparr>wc_conn := Some (open_conn\<lparr>c_in := \<lparr>rbuf = wbuf (c_out (ch_conn ch)), rend = EOF\<rparr>\<rparr>)\<rparr>) = (got @ replicate k [], Some EOF)"
proof -
  obtain ch where ch: "ch_run (ws_conn (rfc_lib [1, 2, 3, 4])) (AtSelect, NewChannel ''a'' open_conn) [Pushed [1], Wrote] (Inner 0, ch)"
    "cbuf (writechan ch) = []" using ws_push_written by blast
  let ?cn = "open_conn\<lparr>c_in := \<lparr>rbuf = wbuf (c_out (ch_conn ch)), rend = EOF\<rparr>\<rparr>"
  have cn: "\<not> c_closed ?cn" by (simp add: open_conn_def)
  from ws_pushes_read [OF rfc.ws_library_axioms working_open_conn ch(1)] obtain got k where
    g: "got @ cbuf (writechan ch) = [[1]]"
    "\<forall>c cn ts e. wc_conn c = Some cn \<longrightarrow> \<not> c_closed cn \<longrightarrow> c_in cn = \<lparr>rbuf = wbuf (c_out (ch_conn ch)), rend = e\<rparr>
        \<longrightarrow> length ts = Suc (length got + k) \<longrightarrow> ws_reads (rfc_lib [1, 2, 3, 4]) ts c = (got @ replicate k [], Some e)"
    by auto
  from g(2) [rule_format, of "ws_bob\<lparr>wc_conn := Some ?cn\<rparr>" ?cn EOF "replicate (Suc (length got + k)) zero_time"] cn
  have "ws_reads (rfc_lib [1, 2, 3, 4]) (replicate (Suc (length got + k)) zero_time) (ws_bob\<lparr>wc_conn := Some ?cn\<rparr>) = (got @ replicate k [], Some EOF)"
    by simp
  with g(1) ch(2) show ?thesis by blast
qed

end
