(* ===== verification/Clients.thy ===== *)
theory Clients
  imports Ws_Delivery
begin

text \<open>
  The interface \<open>Client\<close> of \<open>server.go\<close>, implemented by the TCP and the websocket client. The locale
  \<open>client_link\<close> is what a program relies on that uses a client without knowing its transport: what it
  sends arrives as a binary frame, what the peer writes is what it reads, and its close is seen.
\<close>

subsection \<open>The interface\<close>

text \<open>
  \<open>SetDialer\<close> only stores the dialer, so it is an argument of \<open>Connect\<close>, with the result of parsing the
  address. The methods of the frames \<open>Read\<close> returns come with the client.
\<close>

record ('c, 'g) ClientMethods =
  ci_ID :: "'c \<Rightarrow> string"
  ci_Name :: "'c \<Rightarrow> string"
  ci_Connect :: "error option \<Rightarrow> Dialer \<Rightarrow> string \<Rightarrow> 'c \<Rightarrow> error option \<times> bool \<times> 'c"
  ci_Send :: "go_time \<Rightarrow> bytes \<Rightarrow> 'c \<Rightarrow> (error option \<times> 'c) outcome"
  ci_Read :: "go_time \<Rightarrow> 'c \<Rightarrow> (error + 'g) \<times> 'c"
  ci_Close :: "'c \<Rightarrow> 'c"
  ci_frames :: "'g FrameMethods"

definition tcp_client :: "(TcpClient, Frame) ClientMethods" where
  "tcp_client = \<lparr>ci_ID = tc_id, ci_Name = tc_name, ci_Connect = Connect, ci_Send = Send, ci_Read = Read,
     ci_Close = tcp_Close, ci_frames = cn_frames tcp_conn\<rparr>"

definition ws_client :: "ws_lib \<Rightarrow> (WsClient, ws_frame) ClientMethods" where
  "ws_client lib = \<lparr>ci_ID = wc_id, ci_Name = wc_name, ci_Connect = ws_Connect, ci_Send = ws_Send lib, ci_Read = ws_Read lib,
     ci_Close = ws_Close lib, ci_frames = cn_frames (ws_conn lib)\<rparr>"

lemma tcp_client_simps [simp]:
  "ci_ID tcp_client = tc_id" "ci_Connect tcp_client = Connect" "ci_Send tcp_client = Send" "ci_Read tcp_client = Read"
  "ci_Close tcp_client = tcp_Close" "ci_frames tcp_client = cn_frames tcp_conn"
  by (simp_all add: tcp_client_def)

lemma ws_client_simps [simp]:
  "ci_ID (ws_client lib) = wc_id" "ci_Connect (ws_client lib) = ws_Connect" "ci_Send (ws_client lib) = ws_Send lib"
  "ci_Read (ws_client lib) = ws_Read lib" "ci_Close (ws_client lib) = ws_Close lib" "ci_frames (ws_client lib) = cn_frames (ws_conn lib)"
  by (simp_all add: ws_client_def)

text \<open>Several messages in a row, until one fails.\<close>

fun send_all :: "('c, 'g) ClientMethods \<Rightarrow> (go_time \<times> bytes) list \<Rightarrow> 'c \<Rightarrow> 'c outcome" where
  "send_all cl [] c = Ret c"
| "send_all cl ((t, p) # tps) c =
     (case ci_Send cl t p c of
        Ret (None, c') \<Rightarrow> send_all cl tps c'
      | Ret (Some e, c') \<Rightarrow> Ret c'
      | Block \<Rightarrow> Block
      | Panic \<Rightarrow> Panic)"

subsection \<open>The contract\<close>

text \<open>
  \<open>up\<close>: connected over a working connection and not closed; \<open>link\<close>: that connection; \<open>fits\<close>: messages the
  frame format can carry. The server at the other end has the connection methods \<open>ops\<close>.
\<close>

locale client_link = frame_conn ops wr rd ok
  for ops :: "'f Conn" and wr :: "byte \<Rightarrow> bytes \<Rightarrow> bytes" and rd :: "'f \<Rightarrow> bytes" and ok :: "'f \<Rightarrow> bool" +
  fixes cl :: "('c, 'g) ClientMethods"
    and up :: "'c \<Rightarrow> bool"
    and link :: "'c \<Rightarrow> conn"
    and fits :: "bytes \<Rightarrow> bool"
  assumes send: "up c \<Longrightarrow> fits p \<Longrightarrow> \<exists>c' f. ci_Send cl now p c = Ret (None, c') \<and> up c' \<and> ok f
      \<and> code_of f = OpBinary \<and> body_of f = p \<and> wbuf (c_out (link c')) = wbuf (c_out (link c)) @ rd f \<and> c_in (link c') = c_in (link c)"
    and read: "up c \<Longrightarrow> fits p \<Longrightarrow> c_in (link c) = \<lparr>rbuf = wr OpBinary p @ r, rend = e\<rparr> \<Longrightarrow>
      \<exists>c' g. ci_Read cl now c = (Inr g, c') \<and> up c' \<and> fm_GetOpCode (ci_frames cl) g = OpBinary
      \<and> fst (fm_GetPayload (ci_frames cl) g) = p \<and> c_in (link c') = \<lparr>rbuf = r, rend = e\<rparr> \<and> c_out (link c') = c_out (link c)"
    and close: "up c \<Longrightarrow> \<exists>f. ok f \<and> code_of f = OpClose \<and> c_closed (link (ci_Close cl c))
      \<and> wbuf (c_out (link (ci_Close cl c))) = wbuf (c_out (link c)) @ rd f"
begin

lemma sends:
  assumes "up c" "list_all fits (map snd tps)"
  shows "\<exists>c' fs. send_all cl tps c = Ret c' \<and> up c' \<and> list_all ok fs \<and> (\<forall>f \<in> set fs. code_of f = OpBinary)
    \<and> map body_of fs = map snd tps \<and> wbuf (c_out (link c')) = wbuf (c_out (link c)) @ concat (map rd fs) \<and> c_in (link c') = c_in (link c)"
  using assms
proof (induction tps arbitrary: c)
  case Nil
  then show ?case by (intro exI [of _ c] exI [of _ "[]"]) simp
next
  case (Cons tp tps)
  obtain t p where tp: "tp = (t, p)" by (cases tp)
  obtain c1 f where 1: "ci_Send cl t p c = Ret (None, c1)" "up c1" "ok f" "code_of f = OpBinary" "body_of f = p"
    "wbuf (c_out (link c1)) = wbuf (c_out (link c)) @ rd f" "c_in (link c1) = c_in (link c)"
    using send [OF Cons.prems(1), of p t] Cons.prems(2) tp by auto
  obtain c2 fs where 2: "send_all cl tps c1 = Ret c2" "up c2" "list_all ok fs" "\<forall>f \<in> set fs. code_of f = OpBinary"
    "map body_of fs = map snd tps" "wbuf (c_out (link c2)) = wbuf (c_out (link c1)) @ concat (map rd fs)" "c_in (link c2) = c_in (link c1)"
    using Cons.IH [OF 1(2)] Cons.prems(2) by auto
  from 1 2 tp show ?case by (intro exI [of _ c2] exI [of _ "f # fs"]) simp
qed

text \<open>After the close the bytes end, for a server, with a close frame.\<close>

lemma close_ends:
  assumes "up c" "wbuf (c_out (link c)) = b"
  shows "\<exists>fin. c_closed (link (ci_Close cl c)) \<and> wbuf (c_out (link (ci_Close cl c))) = b @ fin \<and> (\<forall>e. input_end fin e (ErrorMsg ''remote side close the channel''))"
proof -
  obtain f where f: "ok f" "code_of f = OpClose" "c_closed (link (ci_Close cl c))" "wbuf (c_out (link (ci_Close cl c))) = b @ rd f"
    using close [OF assms(1)] assms(2) by auto
  then have "input_end (rd f) e (ErrorMsg ''remote side close the channel'')" for e
    unfolding input_end_def by (intro disjI2 exI [of _ f] exI [of _ "[]"]) simp
  with f(3,4) show ?thesis by blast
qed

end

subsection \<open>TCP\<close>

definition tcp_up :: "TcpClient \<Rightarrow> bool" where
  "tcp_up c \<longleftrightarrow> connected c \<and> \<not> tc_once c"

definition tcp_link :: "TcpClient \<Rightarrow> conn" where
  "tcp_link c = the (tc_conn c)"

lemma tcp_codes [simp]: "tcpc.code_of f = OpCode f" "tcpc.body_of f = Payload f"
  by (simp_all add: tcpc.code_of_def tcpc.body_of_def)

interpretation tcpl: client_link tcp_conn tcp_text enc_frame frame_ok tcp_client tcp_up tcp_link fits32
proof
  fix c now and p :: bytes assume c: "tcp_up c" and p: "fits32 p"
  then obtain c' where s: "Send now p c = Ret (None, c')" "connected c'"
    "sent c' = sent c @ enc_frame \<lparr>OpCode = OpBinary, Payload = p\<rparr>" "tc_once c' = tc_once c"
    using Send_connected [of c now p] by (auto simp: tcp_up_def)
  from c obtain cn where cn: "tc_conn c = Some cn" "working cn" by (auto simp: tcp_up_def connected_def)
  have "c_in (tcp_link c') = c_in (tcp_link c)"
    using s(1) c cn by (auto simp: tcp_up_def connected_def Send_def SetWriteDeadline_def conn_WriteFrame_def working_def WriteFrame_ok tcp_link_def)
  moreover have "sent c' = wbuf (c_out (tcp_link c'))" "sent c = wbuf (c_out (tcp_link c))"
    using s(2) cn by (auto simp: sent_def tcp_link_def connected_def)
  ultimately show "\<exists>c' f. ci_Send tcp_client now p c = Ret (None, c') \<and> tcp_up c' \<and> frame_ok f \<and> tcpc.code_of f = OpBinary \<and> tcpc.body_of f = p
      \<and> wbuf (c_out (tcp_link c')) = wbuf (c_out (tcp_link c)) @ enc_frame f \<and> c_in (tcp_link c') = c_in (tcp_link c)"
    using s c p by (intro exI [of _ c'] exI [of _ "\<lparr>OpCode = OpBinary, Payload = p\<rparr>"]) (simp add: tcp_up_def frame_ok_def)
next
  fix c r e now and p :: bytes assume c: "tcp_up c" "fits32 p" "c_in (tcp_link c) = \<lparr>rbuf = tcp_text OpBinary p @ r, rend = e\<rparr>"
  then obtain cn where cn: "tc_conn c = Some cn" "working cn" by (auto simp: tcp_up_def connected_def)
  let ?f = "\<lparr>OpCode = OpBinary, Payload = p\<rparr>"
  let ?cn = "if Heartbeat (tc_options c) > 0 then snd (SetReadDeadline (time_add now (ReadWait (tc_options c))) cn) else cn"
  have "conn_ReadFrame ?cn = (Inr ?f, ?cn\<lparr>c_in := \<lparr>rbuf = r, rend = e\<rparr>\<rparr>)"
    using tcpc.read_frame [of ?cn ?f r e] c cn by (simp add: working_def frame_ok_def tcp_text_def tcp_link_def)
  then have "Read now c = (Inr ?f, c\<lparr>tc_conn := Some (?cn\<lparr>c_in := \<lparr>rbuf = r, rend = e\<rparr>\<rparr>)\<rparr>)"
    using cn(1) by (simp add: Read_def Let_def GetOpCode_def OpBinary_def OpClose_def)
  with c cn show "\<exists>c' g. ci_Read tcp_client now c = (Inr g, c') \<and> tcp_up c' \<and> fm_GetOpCode (ci_frames tcp_client) g = OpBinary
      \<and> fst (fm_GetPayload (ci_frames tcp_client) g) = p \<and> c_in (tcp_link c') = \<lparr>rbuf = r, rend = e\<rparr> \<and> c_out (tcp_link c') = c_out (tcp_link c)"
    by (intro exI [of _ "c\<lparr>tc_conn := Some (?cn\<lparr>c_in := \<lparr>rbuf = r, rend = e\<rparr>\<rparr>)\<rparr>"] exI [of _ ?f])
      (simp add: tcp_up_def connected_def working_def tcp_link_def)
next
  fix c assume c: "tcp_up c"
  then obtain cn where cn: "tc_conn c = Some cn" "working cn" by (auto simp: tcp_up_def connected_def)
  with c show "\<exists>f. frame_ok f \<and> tcpc.code_of f = OpClose \<and> c_closed (tcp_link (ci_Close tcp_client c))
      \<and> wbuf (c_out (tcp_link (ci_Close tcp_client c))) = wbuf (c_out (tcp_link c)) @ enc_frame f"
    by (intro exI [of _ "\<lparr>OpCode = OpClose, Payload = []\<rparr>"])
      (simp add: tcp_up_def connected_def tcp_Close_def Let_def conn_WriteFrame_def conn_Close_def working_def WriteFrame_ok
        CompareAndSwap_def tcp_link_def frame_ok_def fits32_def)
qed

subsection \<open>Websocket\<close>

definition ws_link :: "WsClient \<Rightarrow> conn" where
  "ws_link c = the (wc_conn c)"

lemma ws_sent_link: "ws_up c \<Longrightarrow> ws_sent c = wbuf (c_out (ws_link c))"
  by (auto simp: ws_up_def ws_sent_def ws_link_def)

sublocale ws_library \<subseteq> wscl: client_link "ws_conn lib" "\<lambda>code p. ws_text (plain_frame code p)" ws_text ws_ok
  "ws_client lib" ws_up ws_link "\<lambda>p. length p < 2 ^ 63"
proof
  fix c p now assume c: "ws_up c" and p: "length (p :: bytes) < 2 ^ 63"
  obtain c' m where a: "ws_act lib now (SendAct p) c = Ret (None, c')" "ws_up c'" "length m = 4"
    "ws_sent c' = ws_sent c @ ws_text (act_frame (SendAct p) m)" using act_up [OF c] by blast
  from c obtain cn where cn: "wc_conn c = Some cn" "working cn" by (auto simp: ws_up_def)
  let ?cn = "cn\<lparr>c_wdl := Some (time_add now (WriteWait (wc_options c)))\<rparr>"
  have "working ?cn" "SetWriteDeadline (time_add now (WriteWait (wc_options c))) cn = (None, ?cn)"
    using cn(2) by (simp_all add: working_def SetWriteDeadline_def)
  moreover obtain m' where "lib_WriteClientMessage lib OpBinary p ?cn = (None, sent_on (ws_text (masked_frame OpBinary m' p)) ?cn)"
    using client_message [OF calculation(1)] by blast
  ultimately have "c_in (ws_link c') = c_in (ws_link c)"
    using a(1) c cn(1) by (auto simp: ws_Send_def ws_up_def ws_link_def)
  with a c p show "\<exists>c' f. ci_Send (ws_client lib) now p c = Ret (None, c') \<and> ws_up c' \<and> ws_ok f \<and> wsc.code_of f = OpBinary
      \<and> wsc.body_of f = p \<and> wbuf (c_out (ws_link c')) = wbuf (c_out (ws_link c)) @ ws_text f \<and> c_in (ws_link c') = c_in (ws_link c)"
    by (intro exI [of _ c'] exI [of _ "masked_frame OpBinary m p"])
      (auto simp: ws_sent_link code_masked body_masked intro!: masked_ok, simp add: OpBinary_def)
next
  fix c p r e now
  assume c: "ws_up c" "length (p :: bytes) < 2 ^ 63" "c_in (ws_link c) = \<lparr>rbuf = ws_text (plain_frame OpBinary p) @ r, rend = e\<rparr>"
  then obtain cn where cn: "wc_conn c = Some cn" "working cn" by (auto simp: ws_up_def)
  let ?cn = "if Heartbeat (wc_options c) > 0 then snd (SetReadDeadline (time_add now (ReadWait (wc_options c))) cn) else cn"
  have "lib_ReadFrame lib ?cn = (Inr (plain_frame OpBinary p), ?cn\<lparr>c_in := \<lparr>rbuf = r, rend = e\<rparr>\<rparr>)"
    by (rule lib_read) (use c cn plain_ok [of OpBinary p] in \<open>simp_all add: OpBinary_def ws_link_def working_def\<close>)
  then have "ws_Read lib now c = (Inr (plain_frame OpBinary p), c\<lparr>wc_conn := Some (?cn\<lparr>c_in := \<lparr>rbuf = r, rend = e\<rparr>\<rparr>)\<rparr>)"
    using cn(1) by (simp add: ws_Read_def Let_def plain_frame_def OpBinary_def OpClose_def)
  moreover have "fm_GetOpCode (cn_frames (ws_conn lib)) (plain_frame OpBinary p) = OpBinary"
    "fst (fm_GetPayload (cn_frames (ws_conn lib)) (plain_frame OpBinary p)) = p"
    by (simp_all add: ws_conn_def payload_plain) (simp add: ws_GetOpCode_def plain_frame_def)
  ultimately show "\<exists>c' g. ci_Read (ws_client lib) now c = (Inr g, c') \<and> ws_up c' \<and> fm_GetOpCode (ci_frames (ws_client lib)) g = OpBinary
      \<and> fst (fm_GetPayload (ci_frames (ws_client lib)) g) = p \<and> c_in (ws_link c') = \<lparr>rbuf = r, rend = e\<rparr> \<and> c_out (ws_link c') = c_out (ws_link c)"
    using c cn by (intro exI [of _ "c\<lparr>wc_conn := Some (?cn\<lparr>c_in := \<lparr>rbuf = r, rend = e\<rparr>\<rparr>)\<rparr>"] exI [of _ "plain_frame OpBinary p"])
      (simp add: ws_up_def working_def ws_link_def)
next
  fix c assume c: "ws_up c"
  from close_up [OF c] obtain cn m where k: "wc_conn (ws_Close lib c) = Some cn" "c_closed cn" "length m = 4"
    "wbuf (c_out cn) = ws_sent c @ ws_text (masked_frame OpClose m [])" by blast
  with ws_sent_link [OF c] show "\<exists>f. ws_ok f \<and> wsc.code_of f = OpClose \<and> c_closed (ws_link (ci_Close (ws_client lib) c))
      \<and> wbuf (c_out (ws_link (ci_Close (ws_client lib) c))) = wbuf (c_out (ws_link c)) @ ws_text f"
    by (intro exI [of _ "masked_frame OpClose m []"]) (auto simp: ws_link_def code_masked intro!: masked_ok, simp add: OpClose_def)
qed

end
