(* ===== verification/Servers.thy ===== *)
theory Servers
  imports Ws_Transport App_Server
begin

text \<open>
  The interface \<open>Server\<close> of \<open>server.go\<close>, implemented by the TCP and the websocket server. The locale
  \<open>server\<close> is what the coordinator and the application rely on: when a push is taken, refused or
  blocks, and what a shutdown leaves behind. What follows for broadcasts is proved once.
\<close>

subsection \<open>The interface\<close>

text \<open>
  \<open>Start\<close> up to the point where the server waits for connections; its argument is the result of
  listening. An acceptor or a listener is an interface value, of which the server only asks
  whether it is set.
\<close>

record 's Server =
  sv_SetAcceptor :: "'s \<Rightarrow> 's"
  sv_SetMessageListener :: "'s \<Rightarrow> 's"
  sv_SetStateListener :: "'s \<Rightarrow> 's"
  sv_SetReadWait :: "duration \<Rightarrow> 's \<Rightarrow> 's"
  sv_SetChannelMap :: "ChannelsImpl \<Rightarrow> 's \<Rightarrow> 's"
  sv_Start :: "error option \<Rightarrow> 's \<Rightarrow> error option \<times> 's"
  sv_Push :: "string \<Rightarrow> bytes \<Rightarrow> 's \<Rightarrow> (error option \<times> 's) outcome"
  sv_Shutdown :: "(nat \<Rightarrow> bool) \<Rightarrow> string list \<Rightarrow> 's \<Rightarrow> (error option \<times> 's) outcome"

definition tcp_server :: "TcpServer Server" where
  "tcp_server = \<lparr>sv_SetAcceptor = SetAcceptor, sv_SetMessageListener = SetMessageListener, sv_SetStateListener = SetStateListener,
     sv_SetReadWait = srv_SetReadWait, sv_SetChannelMap = SetChannelMap, sv_Start = start_checks,
     sv_Push = tcp_Push, sv_Shutdown = tcp_Shutdown\<rparr>"

definition ws_server :: "WsServer Server" where
  "ws_server = \<lparr>sv_SetAcceptor = ws_SetAcceptor, sv_SetMessageListener = ws_SetMessageListener, sv_SetStateListener = ws_SetStateListener,
     sv_SetReadWait = ws_SetReadWait, sv_SetChannelMap = ws_SetChannelMap,
     sv_Start = (\<lambda>lst s. case ws_Start s of (Some err, s') \<Rightarrow> (Some err, s') | (None, s') \<Rightarrow> (lst, s')),
     sv_Push = ws_Push, sv_Shutdown = ws_Shutdown\<rparr>"

text \<open>A server seen as the coordinator's pusher.\<close>

definition as_pusher :: "'s Server \<Rightarrow> 's ServerPusher" where
  "as_pusher sv = \<lparr>sp_Push = sv_Push sv\<rparr>"

lemma as_pusher_simps [simp]:
  "sp_Push (as_pusher sv) = sv_Push sv" "as_pusher tcp_server = tcp_pusher" "as_pusher ws_server = ws_pusher"
  "sv_Push tcp_server = tcp_Push" "sv_Push ws_server = ws_Push"
  "sv_Shutdown tcp_server = tcp_Shutdown" "sv_Shutdown ws_server = ws_Shutdown"
  by (simp_all add: as_pusher_def tcp_server_def ws_server_def tcp_pusher_def ws_pusher_def)

subsection \<open>The contract\<close>

text \<open>
  \<open>wf\<close>: the server has been started and its table is well formed; \<open>full\<close>: the queue of a
  channel has no room; \<open>down\<close>: the server has been shut down.
\<close>

locale server = pusher "as_pusher sv" inbox live
  for sv :: "'s Server" and inbox :: "string \<Rightarrow> 's \<Rightarrow> bytes list" and live :: "string \<Rightarrow> 's \<Rightarrow> bool" +
  fixes wf :: "'s \<Rightarrow> bool"
    and full :: "string \<Rightarrow> 's \<Rightarrow> bool"
    and down :: "'s \<Rightarrow> bool"
    and keys :: "'s \<Rightarrow> string set"
  assumes push_room: "wf s \<Longrightarrow> live i s \<Longrightarrow> \<not> full i s \<Longrightarrow>
      \<exists>s'. sv_Push sv i dat s = Ret (None, s') \<and> wf s' \<and> (\<forall>k. k \<noteq> i \<longrightarrow> full k s' = full k s)"
    and push_full: "wf s \<Longrightarrow> live i s \<Longrightarrow> full i s \<Longrightarrow> sv_Push sv i dat s = Block"
    and push_shut: "wf s \<Longrightarrow> \<not> live i s \<Longrightarrow> \<exists>e. sv_Push sv i dat s = Ret (Some e, s)"
    and shutdown: "wf s \<Longrightarrow> \<not> down s \<Longrightarrow> distinct order \<Longrightarrow> set order = keys s \<Longrightarrow>
      \<exists>s'. sv_Shutdown sv (\<lambda>_. False) order s = Ret (None, s') \<and> wf s' \<and> down s'
        \<and> (\<forall>i. \<not> live i s' \<and> inbox i s' = inbox i s)"
    and shutdown_again: "wf s \<Longrightarrow> down s \<Longrightarrow> sv_Shutdown sv d order s = Ret (None, s)"
begin

text \<open>A broadcast over a well-formed server: it blocks exactly when a session's open channel has a full queue.\<close>

definition stalled :: "'s \<Rightarrow> string set \<Rightarrow> bool" where
  "stalled s is \<longleftrightarrow> (\<exists>i \<in> is. live i s \<and> full i s)"

lemma deliver_outcome:
  assumes "wf (srv_obj c)" "srv c = as_pusher sv" "distinct is" "\<forall>i \<in> set is. \<exists>s. sessions c i = Some s \<and> ChannelID s = i"
  shows "if stalled (srv_obj c) (set is) then deliver j n dat is c = Block
    else \<exists>c'. deliver j n dat is c = Ret c' \<and> wf (srv_obj c')"
  using assms
proof (induction "is" arbitrary: c)
  case (Cons i "is")
  obtain s where s: "sessions c i = Some s" "ChannelID s = i" using Cons.prems(4) by auto
  let ?p = "srv_obj c"
  let ?next = "\<lambda>p. c\<lparr>sessions := (sessions c)(i \<mapsto> s\<lparr>LatestJobID := j, LatestServerNonce := n\<rparr>), srv_obj := p\<rparr>"
  have next_ok: "if stalled p (set is) then deliver j n dat is (?next p) = Block
      else \<exists>c'. deliver j n dat is (?next p) = Ret c' \<and> wf (srv_obj c')" if "wf p" for p
  proof -
    have "\<forall>k \<in> set is. \<exists>x. sessions (?next p) k = Some x \<and> ChannelID x = k" using Cons.prems(3,4) by auto
    with Cons.IH [of "?next p"] that Cons.prems(2,3) show ?thesis by simp
  qed
  have d: "deliver j n dat (i # is) c = (case sv_Push sv i dat ?p of Ret (_, p) \<Rightarrow> deliver j n dat is (?next p) | Block \<Rightarrow> Block | Panic \<Rightarrow> Panic)"
    using s Cons.prems(2) by simp
  consider (dead) "\<not> live i ?p" | (blocked) "live i ?p" "full i ?p" | (room) "live i ?p" "\<not> full i ?p" by blast
  then show ?case
  proof cases
    case dead
    then obtain e where "sv_Push sv i dat ?p = Ret (Some e, ?p)" using push_shut Cons.prems(1) by blast
    then have "deliver j n dat (i # is) c = deliver j n dat is (?next ?p)" unfolding d by (simp only: outcome.case prod.case)
    moreover have "stalled ?p (set (i # is)) = stalled ?p (set is)" using dead by (simp add: stalled_def)
    ultimately show ?thesis using next_ok [OF Cons.prems(1)] by (simp only:)
  next
    case blocked
    with push_full [OF Cons.prems(1)] show ?thesis unfolding d by (simp add: stalled_def)
  next
    case room
    then obtain p where p: "sv_Push sv i dat ?p = Ret (None, p)" "wf p" "\<forall>k. k \<noteq> i \<longrightarrow> full k p = full k ?p"
      using push_room Cons.prems(1) by blast
    have l: "live k p = live k ?p" for k using push_keeps [of i dat ?p None p] p(1) by simp
    have "stalled p (set is) = (\<exists>k \<in> set is. live k ?p \<and> full k ?p)"
      unfolding stalled_def using Cons.prems(3) p(3) by (intro bex_cong refl) (auto simp: l)
    also have "\<dots> = stalled ?p (set (i # is))" using room by (simp add: stalled_def)
    finally have "stalled p (set is) = stalled ?p (set (i # is))" .
    with next_ok [OF p(2)] p(1) show ?thesis unfolding d by simp
  qed
qed (simp add: stalled_def)

lemma coord_run_outcome:
  assumes "wf (srv_obj c)" "srv c = as_pusher sv" "distinct (tk_order t)" "set (tk_order t) = dom (sessions c)"
    "filed_sessions (sessions c)"
  shows "if stalled (srv_obj c) (dom (sessions c)) then coord_run t c = Block
    else \<exists>c'. coord_run t c = Ret c' \<and> wf (srv_obj c')"
proof -
  let ?c = "rotateJob (tk_buf t) (tk_now t) (tk_now' t) c"
  have "\<forall>i \<in> set (tk_order t). \<exists>s. sessions ?c i = Some s \<and> ChannelID s = i"
    using assms(4,5) by (auto simp: server_simps filed_sessions_def)
  with deliver_outcome [of ?c "tk_order t"] assms show ?thesis
    by (simp add: coord_run_def broadcastJob_def server_simps)
qed

text \<open>After a shutdown the coordinator still rotates its job, and nobody hears of it.\<close>

lemma silenced:
  assumes "wf (srv_obj c)" "\<not> down (srv_obj c)" "srv c = as_pusher sv" "distinct order" "set order = keys (srv_obj c)"
    and "distinct (tk_order t)" "set (tk_order t) = dom (sessions c)" "filed_sessions (sessions c)"
  shows "\<exists>s' c'. sv_Shutdown sv (\<lambda>_. False) order (srv_obj c) = Ret (None, s')
    \<and> sv_Shutdown sv d order' s' = Ret (None, s') \<and> (\<forall>i. inbox i s' = inbox i (srv_obj c))
    \<and> coord_run t (c\<lparr>srv_obj := s'\<rparr>) = Ret c' \<and> jobID c' = int64 (jobID c + 1) \<and> (\<forall>i. inbox i (srv_obj c') = inbox i (srv_obj c))"
proof -
  obtain s' where s: "sv_Shutdown sv (\<lambda>_. False) order (srv_obj c) = Ret (None, s')" "wf s'" "down s'"
    "\<And>i. \<not> live i s'" "\<And>i. inbox i s' = inbox i (srv_obj c)" using shutdown [OF assms(1,2,4,5)] by blast
  let ?c = "c\<lparr>srv_obj := s'\<rparr>"
  have "\<not> stalled (srv_obj ?c) (dom (sessions ?c))" using s(4) by (simp add: stalled_def)
  with coord_run_outcome [of ?c t] s(2) assms obtain c' where c': "coord_run t ?c = Ret c'" by auto
  from coord_run_Ret [OF c'] assms(3,6-8) have
    p: "push_each (as_pusher sv) (job_data (jobID c') (serverNonce c')) (tk_order t) s' = Ret (srv_obj c')" "jobID c' = int64 (jobID c + 1)"
    by auto
  have "inbox i (srv_obj c') = inbox i (srv_obj c)" for i
    using push_each_inbox [OF p(1) assms(6), of i] s(4,5) by simp
  with s shutdown_again [OF s(2,3)] c' p(2) show ?thesis by blast
qed

end

subsection \<open>The two servers keep it\<close>

lemma Push_total:
  assumes "ch_inv ch"
  shows "Push dat ch = (if HasFired (ch_closed ch) then Ret (Some (ErrorMsg (''channel '' @ ch_id ch @ '' has closed'')), ch)
    else if length (cbuf (writechan ch)) < 5
    then Ret (None, ch\<lparr>writechan := (writechan ch)\<lparr>cbuf := cbuf (writechan ch) @ [dat]\<rparr>\<rparr>) else Block)"
  using assms by (auto simp: Push_inv ch_inv_def)

lemma ch_inv_room: "ch_inv ch \<Longrightarrow> length (cbuf (writechan ch)) < 5 \<Longrightarrow>
    ch_inv (ch\<lparr>writechan := (writechan ch)\<lparr>cbuf := cbuf (writechan ch) @ [dat]\<rparr>\<rparr>)"
  by (simp add: ch_inv_def chan_ok_def)

definition tcp_full :: "string \<Rightarrow> TcpServer \<Rightarrow> bool" where
  "tcp_full i s \<longleftrightarrow> 5 \<le> length (tcp_inbox i s)"

definition ws_full :: "string \<Rightarrow> WsServer \<Rightarrow> bool" where
  "ws_full i s \<longleftrightarrow> 5 \<le> length (ws_inbox i s)"

definition ws_wf :: "WsServer \<Rightarrow> bool" where
  "ws_wf s \<longleftrightarrow> (\<exists>m. ws_chans s = Some m \<and> (\<forall>i ch. m i = Some ch \<longrightarrow> ch_id ch = i \<and> ch_inv ch))"

definition ws_keys :: "WsServer \<Rightarrow> string set" where
  "ws_keys s = (case ws_chans s of None \<Rightarrow> {} | Some m \<Rightarrow> dom m)"

lemma tcp_shutdown_law:
  assumes "ts_inv s" "\<not> ts_once s" "distinct order" "set order = dom (ts_chans s)"
  shows "\<exists>s'. tcp_Shutdown (\<lambda>_. False) order s = Ret (None, s') \<and> ts_inv s' \<and> ts_once s'
    \<and> (\<forall>i. \<not> tcp_live i s' \<and> tcp_inbox i s' = tcp_inbox i s)"
proof -
  obtain s' where s: "tcp_Shutdown (\<lambda>_. False) order s = Ret (None, s')"
    and r: "\<And>i. rel_option (\<lambda>ch ch'. HasFired (ch_closed ch') \<and> ch_conn ch' = ch_conn ch
          \<and> cbuf (writechan ch') = cbuf (writechan ch)) (ts_chans s i) (ts_chans s' i)"
    using shutdown_effect [OF assms] by blast
  have "\<not> tcp_live i s' \<and> tcp_inbox i s' = tcp_inbox i s" for i
    using r [of i] by (cases "ts_chans s i"; cases "ts_chans s' i") (auto simp: tcp_live_def tcp_inbox_def)
  moreover have "ts_inv s' \<and> ts_once s'" using shutdown_inv [OF assms(1), of "\<lambda>_. False" order] s by simp
  ultimately show ?thesis using s by blast
qed

interpretation tcps: server tcp_server tcp_inbox tcp_live ts_inv tcp_full ts_once "\<lambda>s. dom (ts_chans s)"
proof (unfold_locales, goal_cases)
  case (1 i p dat r p' k) then show ?case using tcpp.push_live by simp
next
  case (2 i p dat r p') then show ?case using tcpp.push_dead by simp
next
  case (3 i dat p r p' k) then show ?case using tcpp.push_keeps by simp
next
  case (4 s i dat)
  then obtain ch where ch: "ts_chans s i = Some ch" "\<not> HasFired (ch_closed ch)" "ch_inv ch" "ch_id ch = i" "length (cbuf (writechan ch)) < 5"
    by (auto simp: tcp_live_def tcp_full_def tcp_inbox_def ts_inv_def)
  let ?ch = "ch\<lparr>writechan := (writechan ch)\<lparr>cbuf := cbuf (writechan ch) @ [dat]\<rparr>\<rparr>"
  have "tcp_Push i dat s = Ret (None, s\<lparr>ts_chans := (ts_chans s)(i \<mapsto> ?ch)\<rparr>)"
    using ch by (simp add: tcp_Push_def chans_Get_def Push_total)
  moreover have "ts_inv (s\<lparr>ts_chans := (ts_chans s)(i \<mapsto> ?ch)\<rparr>)"
    using ts_inv_put [OF 4(1) ch_inv_room [OF ch(3,5), of dat]] ch(4) by simp
  ultimately show ?case by (auto simp: tcp_full_def tcp_inbox_def)
next
  case (5 s i dat)
  then show ?case by (auto simp: tcp_live_def tcp_full_def tcp_inbox_def ts_inv_def tcp_Push_def chans_Get_def Push_total)
next
  case (6 s i dat)
  show ?case
  proof (cases "ts_chans s i")
    case (Some ch)
    with 6 have "ch_inv ch" "HasFired (ch_closed ch)" by (auto simp: tcp_live_def ts_inv_def)
    with Some show ?thesis by (simp add: tcp_Push_def chans_Get_def Push_total fun_upd_idem)
  qed (simp add: tcp_Push_def chans_Get_def)
next
  case (7 s order) then show ?case using tcp_shutdown_law by simp
next
  case (8 s d order) then show ?case by (simp add: tcp_Shutdown_def once_do_def)
qed

lemma ws_shutdown_law:
  assumes "ws_wf s" "\<not> ws_once s" "distinct order" "set order = ws_keys s"
  shows "\<exists>s'. ws_Shutdown (\<lambda>_. False) order s = Ret (None, s') \<and> ws_wf s' \<and> ws_once s'
    \<and> (\<forall>i. \<not> ws_live i s' \<and> ws_inbox i s' = ws_inbox i s)"
proof -
  from assms(1) obtain m where m: "ws_chans s = Some m" "\<And>i ch. m i = Some ch \<Longrightarrow> ch_id ch = i \<and> ch_inv ch" by (auto simp: ws_wf_def)
  define t where "t = (NewServer [])\<lparr>ts_chans := m\<rparr>"
  have t: "ts_inv t" "\<not> ts_once t" "ts_chans t = m" using m(2) by (auto simp: t_def ts_inv_def NewServer_def)
  obtain t' where r: "tcp_Shutdown (\<lambda>_. False) order t = Ret (None, t')" "ts_inv t'"
    "\<And>i. \<not> tcp_live i t'" "\<And>i. tcp_inbox i t' = tcp_inbox i t"
    using tcp_shutdown_law [OF t(1,2) assms(3)] assms(4) m(1) by (auto simp: t(3) ws_keys_def)
  then have "close_channels (\<lambda>_. False) 0 (chans_All order m) (t\<lparr>ts_once := True\<rparr>) = Ret t'"
    using t by (simp add: tcp_Shutdown_def once_do_def split: outcome.splits)
  then obtain m' where m': "ws_close_channels (\<lambda>_. False) 0 (chans_All order m) m = Ret m'" "ts_chans t' = m'"
    using t(3) by (cases "ws_close_channels (\<lambda>_. False) 0 (chans_All order m) m") (auto simp: close_channels_agree)
  have i: "ts_chans t' i = m' i" "ts_chans t i = m i" for i by (simp_all add: m'(2) t(3))
  have "ws_Shutdown (\<lambda>_. False) order s = Ret (None, s\<lparr>ws_once := True, ws_chans := Some m'\<rparr>)"
    using assms(2) m(1) m'(1) by (simp add: ws_Shutdown_def)
  moreover have "ws_wf (s\<lparr>ws_once := True, ws_chans := Some m'\<rparr>)" using r(2) m'(2) by (auto simp: ws_wf_def ts_inv_def)
  moreover have "\<not> ws_live i (s\<lparr>ws_once := True, ws_chans := Some m'\<rparr>)
      \<and> ws_inbox i (s\<lparr>ws_once := True, ws_chans := Some m'\<rparr>) = ws_inbox i s" for i
    using r(3,4) [of i] m(1) by (simp add: tcp_live_def tcp_inbox_def i ws_live_def ws_inbox_def)
  ultimately show ?thesis by auto
qed

interpretation wss: server ws_server ws_inbox ws_live ws_wf ws_full ws_once ws_keys
proof (unfold_locales, goal_cases)
  case (1 i p dat r p' k) then show ?case using wsp.push_live by simp
next
  case (2 i p dat r p') then show ?case using wsp.push_dead by simp
next
  case (3 i dat p r p' k) then show ?case using wsp.push_keeps by simp
next
  case (4 s i dat)
  then obtain m ch where m: "ws_chans s = Some m" "\<And>i ch. m i = Some ch \<Longrightarrow> ch_id ch = i \<and> ch_inv ch"
    and ch: "m i = Some ch" "\<not> HasFired (ch_closed ch)" "length (cbuf (writechan ch)) < 5"
    by (auto simp: ws_live_def ws_full_def ws_inbox_def ws_wf_def)
  let ?ch = "ch\<lparr>writechan := (writechan ch)\<lparr>cbuf := cbuf (writechan ch) @ [dat]\<rparr>\<rparr>"
  have c: "ch_inv ch" "ch_id ch = i" using m(2) [OF ch(1)] by simp_all
  have "ws_Push i dat s = Ret (None, s\<lparr>ws_chans := Some (m(i \<mapsto> ?ch))\<rparr>)"
    using m(1) ch c by (simp add: ws_Push_def chans_Get_def Push_total)
  moreover have "ws_wf (s\<lparr>ws_chans := Some (m(i \<mapsto> ?ch))\<rparr>)"
    using m(2) c ch_inv_room [OF c(1) ch(3), of dat] by (simp add: ws_wf_def)
  ultimately show ?case using m(1) by (auto simp: ws_full_def ws_inbox_def)
next
  case (5 s i dat)
  then show ?case by (auto simp: ws_live_def ws_full_def ws_inbox_def ws_wf_def ws_Push_def chans_Get_def Push_total)
next
  case (6 s i dat)
  then obtain m where m: "ws_chans s = Some m" "\<And>i ch. m i = Some ch \<Longrightarrow> ch_id ch = i \<and> ch_inv ch" by (auto simp: ws_wf_def)
  show ?case
  proof (cases "m i")
    case (Some ch)
    with 6 m have "ch_inv ch" "HasFired (ch_closed ch)" by (auto simp: ws_live_def)
    moreover have "s\<lparr>ws_chans := Some m\<rparr> = s" using m(1) by (cases s) simp
    ultimately show ?thesis using Some m(1) by (simp add: ws_Push_def chans_Get_def Push_total fun_upd_idem)
  qed (simp add: ws_Push_def chans_Get_def m(1))
next
  case (7 s order) then show ?case using ws_shutdown_law by simp
next
  case (8 s d order) then show ?case by (simp add: ws_Shutdown_def)
qed

subsection \<open>Broadcasts that block\<close>


text \<open>The same over websockets.\<close>

lemma ws_broadcast_stalls_iff:
  assumes "distinct (tk_order t)" "set (tk_order t) = dom (sessions c)" "filed_sessions (sessions c)"
    and "srv c = ws_pusher" "ws_wf (srv_obj c)"
  shows "if \<exists>i \<in> dom (sessions c). ws_live i (srv_obj c) \<and> 5 \<le> length (ws_inbox i (srv_obj c))
    then coord_run t c = Block else \<exists>c'. coord_run t c = Ret c' \<and> ws_wf (srv_obj c')"
  using wss.coord_run_outcome [of c t] assms by (simp add: wss.stalled_def ws_full_def)

text \<open>A server with one client, whose channel is given.\<close>

definition one_client :: "ChannelImpl \<Rightarrow> (TcpServer, MemoryStore, MemoryQueue) Coordinator" where
  "one_client ch = (RegisterSession ''a'' ''bob'' (coord (NewAppServer ''l'' memory_stats None NewMemoryStore memory_queue (NewMemoryQueue 1) Second 0 0)))
     \<lparr>srv_obj := (NewServer ''l'')\<lparr>ts_chans := [''a'' \<mapsto> ch]\<rparr>\<rparr>"

lemma one_client_simps [simp]:
  "sessions (one_client ch) = [''a'' \<mapsto> NewSession ''a'' ''bob'']" "srv (one_client ch) = tcp_pusher" "jobID (one_client ch) = 0"
  "srv_obj (one_client ch) = (NewServer ''l'')\<lparr>ts_chans := [''a'' \<mapsto> ch]\<rparr>"
  by (simp_all add: one_client_def RegisterSession_def NewAppServer_def Let_def NewCoordinator_def)

lemma one_client_inv: "ch_inv ch \<Longrightarrow> ch_id ch = ''a'' \<Longrightarrow> ts_inv (srv_obj (one_client ch))"
  "filed_sessions (sessions (one_client ch))"
  by (simp_all add: ts_inv_def filed_sessions_def NewSession_def)

definition tick_a :: tick where
  "tick_a = \<lparr>tk_buf = [1], tk_now = zero_time, tk_now' = zero_time, tk_order = [''a'']\<rparr>"

lemma tick_a_simps [simp]: "tk_order tick_a = [''a'']"
  by (simp add: tick_a_def)


subsection \<open>A write loop that has ended\<close>

text \<open>Without its write loop, a channel that is not closed only collects payloads.\<close>

lemma dead_writer_run:
  assumes "ch_run ops (Returned r, ch) ls (pc, ch')" "ch_inv ch" "\<not> HasFired (ch_closed ch)" "Closed \<notin> set ls"
  shows "pc = Returned r \<and> ch_inv ch' \<and> \<not> HasFired (ch_closed ch') \<and> ch_id ch' = ch_id ch \<and> ch_conn ch' = ch_conn ch
    \<and> cbuf (writechan ch') = cbuf (writechan ch) @ pushes ls"
  using assms
proof (induction "(Returned r, ch)" ls "(pc, ch')" arbitrary: pc ch' rule: ch_run.induct)
  case (snoc ls t l)
  obtain pc1 ch1 where t: "t = (pc1, ch1)" by (cases t)
  with snoc have 1: "pc1 = Returned r" "ch_inv ch1" "\<not> HasFired (ch_closed ch1)" "ch_id ch1 = ch_id ch" "ch_conn ch1 = ch_conn ch"
    "cbuf (writechan ch1) = cbuf (writechan ch) @ pushes ls" by auto
  from snoc(3) [unfolded t] show ?case
  proof (cases rule: ch_step.cases)
    case (push p)
    with 1 Push_total [OF 1(2), of p] ch_inv_room [OF 1(2), of p] show ?thesis by (auto split: if_splits)
  next
    case (refuse p e)
    with 1 Push_total [OF 1(2), of p] show ?thesis by (auto split: if_splits)
  next
    case (emit pick now)
    with 1 show ?thesis by simp
  next
    case close
    with snoc(6) show ?thesis by simp
  qed
qed simp

text \<open>
  C11: when a write fails, the write loop of a channel ends but the channel stays open: nothing
  is written any more, yet \<open>Push\<close> reports success for every payload the queue has room for. Once
  the queue is full the broadcast blocks, and it does so under the coordinator's mutex, which
  every handshake, submission and disconnection needs. The only step left to the channel is a
  close; the read loop of its connection comes to it only after the disconnection, so it is the
  one of a shutdown, and then the blocked send panics.
\<close>

theorem dead_writer_stalls_broadcast:
  assumes "ch_run ops (Returned (Some e), ch) ls (pc, ch')" and "ch_inv ch" and "\<not> HasFired (ch_closed ch)" and "Closed \<notin> set ls"
    and "length (cbuf (writechan ch)) + length (pushes ls) = 5"
    and "distinct (tk_order t)" and "set (tk_order t) = dom (sessions c)" and "filed_sessions (sessions c)"
    and "srv c = tcp_pusher" and "ts_inv (srv_obj c)" and "i \<in> dom (sessions c)" and "ts_chans (srv_obj c) i = Some ch'"
  shows "ch_conn ch' = ch_conn ch \<and> cbuf (writechan ch') = cbuf (writechan ch) @ pushes ls
    \<and> coord_run t c = Block \<and> (\<forall>l s. ch_step ops (pc, ch') l s \<longrightarrow> l = Closed)
    \<and> (\<exists>ch''. Close ch' = Ret ch'' \<and> chan_send dat (writechan ch'') = Panic)"
proof -
  note r = dead_writer_run [OF assms(1-4)]
  then have "tcp_live i (srv_obj c)" "5 \<le> length (tcp_inbox i (srv_obj c))"
    using assms(5,12) by (auto simp: tcp_live_def tcp_inbox_def)
  then have "coord_run t c = Block"
    using tcps.coord_run_outcome [of c t] assms(6-11) by (auto simp: tcps.stalled_def tcp_full_def split: if_splits)
  moreover have "\<exists>ch''. Close ch' = Ret ch'' \<and> chan_send dat (writechan ch'') = Panic"
    using Close_inv [of ch'] r by (auto simp: chan_send_def)
  moreover have "\<forall>l s. ch_step ops (pc, ch') l s \<longrightarrow> l = Closed"
    using r assms(5) by (auto elim!: ch_stepE simp: Push_total)
  ultimately show ?thesis using r by blast
qed

text \<open>A client whose connection fails at the first byte: one push and one step end the write loop.\<close>

definition cut_conn :: conn where
  "cut_conn = open_conn\<lparr>c_out := \<lparr>wbuf = [], wfail = Some (0, NetError ''broken pipe'')\<rparr>\<rparr>"

definition cut_channel :: ChannelImpl where
  "cut_channel = (NewChannel ''a'' cut_conn)\<lparr>ch_conn := cut_conn\<lparr>c_wdl := Some (time_add zero_time DefaultWriteWait)\<rparr>\<rparr>"

lemma cut_channel_reached:
  "ch_run tcp_conn (AtSelect, NewChannel ''a'' cut_conn) [Pushed [7], Wrote] (Returned (Some (NetError ''broken pipe'')), cut_channel)"
proof -
  let ?ch = "(NewChannel ''a'' cut_conn)\<lparr>writechan := \<lparr>cbuf = [[7]], ccap = 5, cclosed = False\<rparr>\<rparr>"
  have 1: "Push [7] (NewChannel ''a'' cut_conn) = Ret (None, ?ch)"
    by (simp add: Push_def NewChannel_def make_chan_def chan_send_def)
  have "writeloop tcp_conn False zero_time AtSelect ?ch = Some (Returned (Some (NetError ''broken pipe'')), cut_channel)"
    by (simp add: NewChannel_def recv_payload_def chan_recv_def ch_WriteFrame_def SetWriteDeadline_def cut_conn_def open_conn_def
        conn_WriteFrame_def WriteFrame_def WriteUint8_def Write_def cut_channel_def make_chan_def done_ready_def)
  from ch_run.snoc [OF ch_run.snoc [OF ch_run.start ch_step.push [OF 1]] ch_step.emit [OF this]] show ?thesis by simp
qed

lemma cut_channel_inv: "ch_inv cut_channel" "\<not> HasFired (ch_closed cut_channel)" "cbuf (writechan cut_channel) = []" "ch_id cut_channel = ''a''"
  using ch_inv_New [of "''a''" cut_conn] by (simp_all add: cut_channel_def ch_inv_def) (simp_all add: NewChannel_def make_chan_def)

lemma run_pushes:
  assumes "ch_inv ch" "\<not> HasFired (ch_closed ch)" "length (cbuf (writechan ch)) + n \<le> 5"
  shows "\<exists>ch'. ch_run ops (Returned r, ch) (replicate n (Pushed p)) (Returned r, ch')"
  using assms
proof (induction n)
  case 0
  show ?case using ch_run.start by auto
next
  case (Suc n)
  then obtain ch1 where 1: "ch_run ops (Returned r, ch) (replicate n (Pushed p)) (Returned r, ch1)" by auto
  have p: "pushes (replicate n (Pushed p)) = replicate n p" by (induction n) simp_all
  from dead_writer_run [OF 1 Suc.prems(1,2)] have r: "ch_inv ch1" "\<not> HasFired (ch_closed ch1)" "length (cbuf (writechan ch1)) < 5"
    using Suc.prems(3) by (auto simp: p)
  with Push_total [OF r(1), of p] obtain ch2 where "Push p ch1 = Ret (None, ch2)" by simp
  from ch_run.snoc [OF 1 ch_step.push [OF this]] show ?case by (auto simp: replicate_append_same)
qed

theorem dead_writer_stalls_broadcast_witness:
  "\<exists>ch'. ch_run tcp_conn (AtSelect, NewChannel ''a'' cut_conn) [Pushed [7], Wrote] (Returned (Some (NetError ''broken pipe'')), cut_channel)
    \<and> cbuf (writechan ch') = replicate 5 [1] \<and> coord_run tick_a (one_client ch') = Block
    \<and> (\<forall>l s. ch_step tcp_conn (Returned (Some (NetError ''broken pipe'')), ch') l s \<longrightarrow> l = Closed)"
proof -
  obtain ch' where r: "ch_run tcp_conn (Returned (Some (NetError ''broken pipe'')), cut_channel) (replicate 5 (Pushed [1]))
      (Returned (Some (NetError ''broken pipe'')), ch')"
    using run_pushes [OF cut_channel_inv(1,2), of 5 tcp_conn "Some (NetError ''broken pipe'')" "[1]"] cut_channel_inv(3) by auto
  have p: "pushes (replicate 5 (Pushed [1])) = replicate 5 [1]" by (simp add: numeral_eq_Suc)
  have c: "Closed \<notin> set (replicate 5 (Pushed [1]))" by simp
  from dead_writer_run [OF r cut_channel_inv(1,2) c] have i: "ch_inv ch'" "ch_id ch' = ''a''" using cut_channel_inv(4) by auto
  from dead_writer_stalls_broadcast [OF r cut_channel_inv(1,2) c, of tick_a "one_client ch'" "''a''" "[]"]
    one_client_inv(1) [OF i] one_client_inv(2) [of ch'] cut_channel_inv(3) cut_channel_reached show ?thesis
    by (intro exI [of _ ch']) (simp add: p)
qed

subsection \<open>After a shutdown\<close>

text \<open>
  After a \<open>Shutdown\<close> that is not cut short the broadcast loop goes on: a tick still rotates the
  job and returns, but no channel gets anything; the payloads already queued stay queued, and a
  second \<open>Shutdown\<close> does nothing.
\<close>

theorem shutdown_silences:
  assumes "distinct (tk_order t)" and "set (tk_order t) = dom (sessions c)" and "filed_sessions (sessions c)"
    and "srv c = tcp_pusher" and "ts_inv (srv_obj c)" and "\<not> ts_once (srv_obj c)"
    and "distinct order" and "set order = dom (ts_chans (srv_obj c))"
  shows "\<exists>s' c'. tcp_Shutdown (\<lambda>_. False) order (srv_obj c) = Ret (None, s') \<and> tcp_Shutdown ctx_done order' s' = Ret (None, s')
    \<and> (\<forall>i. tcp_inbox i s' = tcp_inbox i (srv_obj c)) \<and> coord_run t (c\<lparr>srv_obj := s'\<rparr>) = Ret c'
    \<and> jobID c' = int64 (jobID c + 1) \<and> (\<forall>i. tcp_inbox i (srv_obj c') = tcp_inbox i (srv_obj c))"
  using tcps.silenced [of c order t ctx_done order'] assms by simp

text \<open>The same over websockets.\<close>

lemma ws_shutdown_silences:
  assumes "distinct (tk_order t)" "set (tk_order t) = dom (sessions c)" "filed_sessions (sessions c)"
    and "srv c = ws_pusher" "ws_wf (srv_obj c)" "\<not> ws_once (srv_obj c)"
    and "distinct order" "set order = ws_keys (srv_obj c)"
  shows "\<exists>s' c'. ws_Shutdown (\<lambda>_. False) order (srv_obj c) = Ret (None, s') \<and> ws_Shutdown ctx_done order' s' = Ret (None, s')
    \<and> (\<forall>i. ws_inbox i s' = ws_inbox i (srv_obj c)) \<and> coord_run t (c\<lparr>srv_obj := s'\<rparr>) = Ret c'
    \<and> jobID c' = int64 (jobID c + 1) \<and> (\<forall>i. ws_inbox i (srv_obj c') = ws_inbox i (srv_obj c))"
  using wss.silenced [of c order t ctx_done order'] assms by simp

theorem shutdown_silences_witness:
  "\<exists>s' c'. tcp_Shutdown (\<lambda>_. False) [''a''] (srv_obj (one_client (NewChannel ''a'' open_conn))) = Ret (None, s')
    \<and> coord_run tick_a ((one_client (NewChannel ''a'' open_conn))\<lparr>srv_obj := s'\<rparr>) = Ret c'
    \<and> jobID c' = 1 \<and> tcp_inbox ''a'' (srv_obj c') = []"
proof -
  let ?ch = "NewChannel ''a'' open_conn"
  have f: "ch_id ?ch = ''a''" "cbuf (writechan ?ch) = []" by (simp_all add: NewChannel_def make_chan_def)
  have o: "\<not> ts_once (srv_obj (one_client ?ch))" by (simp add: NewServer_def)
  from shutdown_silences [of tick_a "one_client ?ch" "[''a'']" "\<lambda>_. False" "[]"] o
    one_client_inv(1) [OF ch_inv_New f(1)] one_client_inv(2) [of ?ch] f(2)
  show ?thesis by (auto simp: tcp_inbox_def int64_def)
qed

end
