(* ===== verification/Mock_Demo.thy ===== *)
theory Mock_Demo
  imports Clients Servers
begin

text \<open>
  \<open>examples/mock\<close>: a demonstration server that answers every message with its text and a suffix, a
  client that sends five messages and waits for five answers, on either transport. It uses the
  transports through the interfaces only, so what is shown of it is shown of them together.
\<close>

subsection \<open>The server\<close>

text \<open>\<open>ServerHandler\<close> is the acceptor, the message listener and the state listener.\<close>

definition demo_Accept :: "'f Conn \<Rightarrow> conn \<Rightarrow> duration \<Rightarrow> (error + string) \<times> conn" where
  "demo_Accept ops cn timeout =
     (case cn_ReadFrame ops cn of
        (Inl err, cn1) \<Rightarrow> (Inl err, cn1)
      | (Inr frame, cn1) \<Rightarrow>
          (let userID = string_of (fst (fm_GetPayload (cn_frames ops) frame))
           in if userID = [] then (Inl (ErrorMsg ''user id is invalid''), cn1) else (Inr userID, cn1)))"

definition demo_ack :: "bytes \<Rightarrow> bytes" where
  "demo_ack payload = payload @ bytes_of '' from server ''"

definition demo_Receive :: "'p Agent \<Rightarrow> bytes \<Rightarrow> 'p \<Rightarrow> 'p outcome" where
  "demo_Receive ag payload s = (case ag_Push ag (demo_ack payload) s of Ret (_, s') \<Rightarrow> Ret s' | Block \<Rightarrow> Block | Panic \<Rightarrow> Panic)"

definition demo_Disconnect :: "string \<Rightarrow> 'x \<Rightarrow> error option \<times> 'x" where
  "demo_Disconnect i x = (None, x)"

text \<open>
  \<open>ServerDemo.Start\<close> until the server waits for connections; \<open>lst\<close> is the result of listening. An error
  of \<open>Start\<close> becomes a panic, and so does a protocol that is neither of the two: the server stays nil.
\<close>

definition demo_configure :: "'s Server \<Rightarrow> 's \<Rightarrow> 's" where
  "demo_configure sv s = sv_SetStateListener sv (sv_SetMessageListener sv (sv_SetAcceptor sv (sv_SetReadWait sv Minute s)))"

definition demo_start :: "'s Server \<Rightarrow> error option \<Rightarrow> 's \<Rightarrow> 's outcome" where
  "demo_start sv lst s = (case sv_Start sv lst (demo_configure sv s) of (None, s') \<Rightarrow> Ret s' | (Some err, s') \<Rightarrow> Panic)"

definition ServerDemo_Start :: "string \<Rightarrow> string \<Rightarrow> error option \<Rightarrow> (WsServer + TcpServer) outcome" where
  "ServerDemo_Start protocol addr lst =
     (if protocol = ''ws'' then map_outcome Inl (demo_start ws_server lst (ws_NewServer addr))
      else if protocol = ''tcp'' then map_outcome Inr (demo_start tcp_server lst (NewServer addr))
      else Panic)"

subsection \<open>The client\<close>

text \<open>The dialers send the identifier in a first binary message; \<open>dialed\<close> is what dialling gives.\<close>

definition WebsocketDialer :: "ws_lib \<Rightarrow> (string \<Rightarrow> error + conn) \<Rightarrow> Dialer" where
  "WebsocketDialer lib dialed ctx =
     (case dialed (dc_Address ctx) of
        Inl err \<Rightarrow> Inl err
      | Inr cn \<Rightarrow>
          (case lib_WriteClientMessage lib OpBinary (bytes_of (dc_Id ctx)) cn of
             (Some err, cn') \<Rightarrow> Inl err
           | (None, cn') \<Rightarrow> Inr (Some cn')))"

definition TCPDialer :: "(string \<Rightarrow> error + conn) \<Rightarrow> Dialer" where
  "TCPDialer dialed ctx =
     (case dialed (dc_Address ctx) of
        Inl err \<Rightarrow> Inl err
      | Inr cn \<Rightarrow>
          (case conn_WriteFrame OpBinary (bytes_of (dc_Id ctx)) cn of
             (Some err, cn') \<Rightarrow> Inl err
           | (None, cn') \<Rightarrow> Inr (Some cn')))"

text \<open>
  The loop that receives until \<open>k\<close> more binary frames have come or a read fails: what it has logged,
  and the client; \<open>None\<close> when it does not end.
\<close>

partial_function (option) receive_loop :: "('c, 'g) ClientMethods \<Rightarrow> (nat \<Rightarrow> go_time) \<Rightarrow> nat \<Rightarrow> 'c \<Rightarrow> (bytes list \<times> 'c) option" where
  "receive_loop cl now k c =
     (case ci_Read cl (now 0) c of
        (Inl err, c') \<Rightarrow> Some ([], c')
      | (Inr frame, c') \<Rightarrow>
          if fm_GetOpCode (ci_frames cl) frame \<noteq> OpBinary then receive_loop cl (\<lambda>i. now (i + 1)) k c'
          else let p = fst (fm_GetPayload (ci_frames cl) frame)
            in if k = 1 then Some ([p], c')
               else Option.bind (receive_loop cl (\<lambda>i. now (i + 1)) (k - 1) c') (\<lambda>(ps, c''). Some (p # ps, c'')))"

text \<open>
  \<open>ClientDemo.Start\<close> with the client made. An error of \<open>Connect\<close> is only logged. The goroutine that sends
  and the loop that receives use the two directions of the connection; here the sends come first.
\<close>

definition demo_client :: "('c, 'g) ClientMethods \<Rightarrow> error option \<Rightarrow> Dialer \<Rightarrow> string \<Rightarrow> (nat \<Rightarrow> go_time) \<Rightarrow> (nat \<Rightarrow> go_time) \<Rightarrow> 'c
    \<Rightarrow> (bytes list \<times> 'c) option outcome" where
  "demo_client cl url_err dial addr sent_at now c =
     (case ci_Connect cl url_err dial addr c of
        (_, _, c1) \<Rightarrow>
          (case send_all cl (map (\<lambda>i. (sent_at i, bytes_of ''hello'')) [0..<5]) c1 of
             Ret c2 \<Rightarrow> Ret (map_option (map_prod id (ci_Close cl)) (receive_loop cl now 5 c2))
           | Block \<Rightarrow> Block
           | Panic \<Rightarrow> Panic))"

definition demo_options :: ClientOptions where
  "demo_options = \<lparr>Heartbeat = 0, ReadWait = 0, WriteWait = 0\<rparr>"

definition ClientDemo_Start :: "ws_lib \<Rightarrow> error option \<Rightarrow> (string \<Rightarrow> error + conn) \<Rightarrow> (nat \<Rightarrow> go_time) \<Rightarrow> (nat \<Rightarrow> go_time)
    \<Rightarrow> string \<Rightarrow> string \<Rightarrow> string \<Rightarrow> (bytes list \<times> conn option) option outcome" where
  "ClientDemo_Start lib url_err dialed sent_at now userID protocol addr =
     (if protocol = ''ws'' then map_outcome (map_option (map_prod id wc_conn))
        (demo_client (ws_client lib) url_err (WebsocketDialer lib dialed) addr sent_at now (ws_NewClient userID ''client'' demo_options))
      else if protocol = ''tcp'' then map_outcome (map_option (map_prod id tc_conn))
        (demo_client tcp_client url_err (TCPDialer dialed) addr sent_at now (tcp_NewClient ''test1'' ''client'' demo_options))
      else Panic)"

subsection \<open>The commands\<close>

record StartOptions =
  so_addr :: string
  so_protocol :: string

definition client_options :: StartOptions where
  "client_options = \<lparr>so_addr = ''ws://localhost:8000'', so_protocol = ''ws''\<rparr>"

definition server_options :: StartOptions where
  "server_options = \<lparr>so_addr = '':8000'', so_protocol = ''ws''\<rparr>"

text \<open>The identifier of the client is drawn by a library.\<close>

definition runcli :: "ws_lib \<Rightarrow> error option \<Rightarrow> (string \<Rightarrow> error + conn) \<Rightarrow> (nat \<Rightarrow> go_time) \<Rightarrow> (nat \<Rightarrow> go_time) \<Rightarrow> string
    \<Rightarrow> StartOptions \<Rightarrow> (bytes list \<times> conn option) option outcome" where
  "runcli lib url_err dialed sent_at now ksuid opts = ClientDemo_Start lib url_err dialed sent_at now ksuid (so_protocol opts) (so_addr opts)"

definition runsrv :: "StartOptions \<Rightarrow> error option \<Rightarrow> (WsServer + TcpServer) outcome" where
  "runsrv opts lst = ServerDemo_Start (so_protocol opts) (so_addr opts) lst"

subsection \<open>The echo on any transport\<close>

text \<open>The listener on the messages of one connection, in the order their goroutines come to push.\<close>

fun demo_receives :: "bytes list \<Rightarrow> ChannelImpl \<Rightarrow> ChannelImpl outcome" where
  "demo_receives [] ch = Ret ch"
| "demo_receives (p # ps) ch =
     (case demo_Receive \<lparr>ag_ID = ch_id ch, ag_Push = Push\<rparr> p ch of Ret ch' \<Rightarrow> demo_receives ps ch' | Block \<Rightarrow> Block | Panic \<Rightarrow> Panic)"

lemma demo_receives_room:
  assumes "ch_inv ch" "\<not> HasFired (ch_closed ch)" "length (cbuf (writechan ch)) + length ps \<le> 5"
  shows "\<exists>ch'. demo_receives ps ch = Ret ch' \<and> ch_inv ch' \<and> \<not> HasFired (ch_closed ch') \<and> ch_conn ch' = ch_conn ch
    \<and> cbuf (writechan ch') = cbuf (writechan ch) @ map demo_ack ps"
  using assms
proof (induction ps arbitrary: ch)
  case (Cons p ps)
  let ?ch = "ch\<lparr>writechan := (writechan ch)\<lparr>cbuf := cbuf (writechan ch) @ [demo_ack p]\<rparr>\<rparr>"
  have "ch_inv ?ch" using Cons.prems(1,3) by (simp add: ch_inv_def chan_ok_def)
  with Cons.IH [of ?ch] Cons.prems show ?case by (auto simp: demo_Receive_def Push_total)
qed simp

lemma wait_simps [simp]:
  "ch_conn (SetReadWait d ch) = ch_conn ch" "ch_conn (SetWriteWait d ch) = ch_conn ch" "ch_inv (SetReadWait d ch) = ch_inv ch"
  "ch_inv (SetWriteWait d ch) = ch_inv ch" "ch_closed (SetReadWait d ch) = ch_closed ch" "ch_closed (SetWriteWait d ch) = ch_closed ch"
  "writechan (SetReadWait d ch) = writechan ch" "writechan (SetWriteWait d ch) = writechan ch"
  "ch_id (SetReadWait d ch) = ch_id ch" "ch_id (SetWriteWait d ch) = ch_id ch"
  by (simp_all add: SetReadWait_def SetWriteWait_def ch_inv_def)

lemma new_channel_simps:
  "ch_conn (NewChannel i c) = c" "\<not> HasFired (ch_closed (NewChannel i c))" "cbuf (writechan (NewChannel i c)) = []"
  "ch_id (NewChannel i c) = i"
  by (simp_all add: NewChannel_def make_chan_def)

context frame_conn
begin

lemma demo_accepts:
  assumes "\<not> c_closed rc" "ok f" "c_in rc = \<lparr>rbuf = rd f @ r, rend = e\<rparr>" "body_of f = bytes_of u" "u \<noteq> []"
  shows "demo_Accept ops rc t = (Inr u, rc\<lparr>c_in := \<lparr>rbuf = r, rend = e\<rparr>\<rparr>)"
  using read_frame [OF assms(1-3)] assms(4,5) by (simp add: demo_Accept_def body_of_def)

text \<open>A channel whose connection brings a few binary messages and a close answers each of them.\<close>

lemma demo_served:
  assumes "working rc" "c_in rc = \<lparr>rbuf = concat (map rd fs) @ fin, rend = e\<rparr>" "list_all ok fs" "\<forall>f \<in> set fs. code_of f = OpBinary"
    "map body_of fs = ps" "[] \<notin> set ps" "ps \<noteq> []" "length ps \<le> 5" "input_end fin e err"
    and c: "ch_conn ch = rc" "ch_inv ch" "\<not> HasFired (ch_closed ch)" "cbuf (writechan ch) = []"
  shows "\<exists>ch1 ch2 ch3. Readloop ops now ch = Some (err, ps, ch1) \<and> demo_receives ps ch1 = Ret ch2
    \<and> write_steps ops (Suc (length ps)) t (AtSelect, ch2) = (AtSelect, ch3)
    \<and> wbuf (c_out (ch_conn ch3)) = wbuf (c_out rc) @ frames_text wr (map demo_ack ps)"
proof -
  have nc: "\<forall>f \<in> set fs. code_of f \<noteq> OpClose" "filter (\<lambda>f. code_of f \<noteq> OpPing \<and> body_of f \<noteq> []) fs = fs"
    "filter (\<lambda>f. code_of f = OpPing) fs = []"
    using assms(4-6) by (force simp: filter_id_conv filter_empty_conv OpBinary_def OpClose_def OpPing_def)+
  obtain ch1 where r: "Readloop ops now ch = Some (err, ps, ch1)" "wbuf (c_out (ch_conn ch1)) = wbuf (c_out rc)"
    "ch1 = ch\<lparr>ch_conn := ch_conn ch1\<rparr>" "working (ch_conn ch1)"
    using serves [of ch fs fin e err now] assms(1-3,5,9) nc c(1) by (auto simp: handed_over_def answers_def)
  have "ch_inv (ch\<lparr>ch_conn := x\<rparr>) = ch_inv ch" for x by (simp add: ch_inv_def)
  then have i: "ch_inv ch1" "\<not> HasFired (ch_closed ch1)" "cbuf (writechan ch1) = []"
    using c by (subst r(3), simp)+
  obtain ch2 where p: "demo_receives ps ch1 = Ret ch2" "ch_inv ch2" "\<not> HasFired (ch_closed ch2)" "ch_conn ch2 = ch_conn ch1"
    "cbuf (writechan ch2) = map demo_ack ps"
    using demo_receives_room [OF i(1,2), of ps] i(3) assms(8) by auto
  from drains [of ch2 t] p r(2,4) assms(7) obtain ch3 where
    "write_steps ops (Suc (length ps)) t (AtSelect, ch2) = (AtSelect, ch3)"
    "wbuf (c_out (ch_conn ch3)) = wbuf (c_out rc) @ frames_text wr (map demo_ack ps)" by auto
  with r(1) p(1) show ?thesis by blast
qed

end

context client_link
begin

lemma receives:
  assumes "up c" "list_all fits ps" "ps \<noteq> []" "c_in (link c) = \<lparr>rbuf = frames_text wr ps @ r, rend = e\<rparr>"
  shows "\<exists>c'. receive_loop cl now (length ps) c = Some (ps, c') \<and> up c' \<and> c_out (link c') = c_out (link c)"
  using assms
proof (induction ps arbitrary: c now)
  case (Cons p ps)
  obtain c1 g where 1: "ci_Read cl (now 0) c = (Inr g, c1)" "up c1" "fm_GetOpCode (ci_frames cl) g = OpBinary"
    "fst (fm_GetPayload (ci_frames cl) g) = p" "c_in (link c1) = \<lparr>rbuf = frames_text wr ps @ r, rend = e\<rparr>" "c_out (link c1) = c_out (link c)"
    using read [OF Cons.prems(1), of p _ e "now 0"] Cons.prems(2,4) by auto
  show ?case
  proof (cases "ps = []")
    case True
    with 1 show ?thesis by (subst receive_loop.simps) simp
  next
    case False
    from Cons.IH [OF 1(2) _ False 1(5), of "\<lambda>i. now (i + 1)"] Cons.prems(2) obtain c2 where
      "receive_loop cl (\<lambda>i. now (i + 1)) (length ps) c1 = Some (ps, c2)" "up c2" "c_out (link c2) = c_out (link c1)" by auto
    with 1 False show ?thesis by (subst receive_loop.simps) simp
  qed
qed simp

text \<open>The client from its connection on.\<close>

lemma demo_session:
  assumes "ci_Connect cl url_err dial addr c = (e1, hb, c1)" "up c1" "wbuf (c_out (link c1)) = b" "fits (bytes_of ''hello'')"
    "ps = replicate 5 (demo_ack (bytes_of ''hello''))" "list_all fits ps" "c_in (link c1) = \<lparr>rbuf = frames_text wr ps, rend = e\<rparr>"
  shows "\<exists>c' fs fin. demo_client cl url_err dial addr sent_at now c = Ret (Some (ps, c')) \<and> c_closed (link c')
    \<and> wbuf (c_out (link c')) = b @ concat (map rd fs) @ fin \<and> (\<exists>c3. up c3 \<and> c' = ci_Close cl c3) \<and> list_all ok fs \<and> (\<forall>f \<in> set fs. code_of f = OpBinary)
    \<and> map body_of fs = replicate 5 (bytes_of ''hello'') \<and> (\<forall>e. input_end fin e (ErrorMsg ''remote side close the channel''))"
proof -
  let ?tps = "map (\<lambda>i. (sent_at i, bytes_of ''hello'')) [0..<5]"
  have t: "map snd ?tps = replicate 5 (bytes_of ''hello'')" by (simp add: map_replicate_const o_def)
  obtain c2 fs where 2: "send_all cl ?tps c1 = Ret c2" "up c2" "list_all ok fs" "\<forall>f \<in> set fs. code_of f = OpBinary"
    "map body_of fs = replicate 5 (bytes_of ''hello'')" "wbuf (c_out (link c2)) = b @ concat (map rd fs)"
    "c_in (link c2) = \<lparr>rbuf = frames_text wr ps @ [], rend = e\<rparr>"
    using sends [OF assms(2), of ?tps] assms(3,4,7) unfolding t by (auto simp: list_all_iff)
  obtain c3 where 3: "receive_loop cl now 5 c2 = Some (ps, c3)" "up c3" "c_out (link c3) = c_out (link c2)"
    using receives [OF 2(2) assms(6) _ 2(7), of now] assms(5) by auto
  obtain fin where 4: "c_closed (link (ci_Close cl c3))" "wbuf (c_out (link (ci_Close cl c3))) = (b @ concat (map rd fs)) @ fin"
    "\<forall>e. input_end fin e (ErrorMsg ''remote side close the channel'')"
    using close_ends [OF 3(2)] 2(6) 3(3) by auto
  from 2 3 4 assms(1) show ?thesis by (intro exI [of _ "ci_Close cl c3"] exI [of _ fs] exI [of _ fin]) (auto simp: demo_client_def)
qed

end

subsection \<open>Over TCP and over websockets\<close>

text \<open>
  The goroutine of a TCP connection with any acceptor, up to its read loop; \<open>open_channel\<close> is the one
  of the application.
\<close>

definition tcp_handle :: "(error \<Rightarrow> string) \<Rightarrow> conn \<Rightarrow> (conn \<Rightarrow> duration \<Rightarrow> (error + string) \<times> conn) \<Rightarrow> TcpServer
    \<Rightarrow> (conn + string) \<times> TcpServer" where
  "tcp_handle wording rawconn accept s =
     (case accept rawconn (so_loginwait (ts_options s)) of
        (Inl err, cn) \<Rightarrow> (Inl (refuse (error_text wording err) cn), s)
      | (Inr i, cn) \<Rightarrow>
          if chans_Get i (ts_chans s) \<noteq> None then (Inl (refuse ''channelId is repeated'' cn), s)
          else
            let ch = SetWriteWait (so_writewait (ts_options s)) (SetReadWait (so_readwait (ts_options s)) (NewChannel i cn))
            in (Inr i, s\<lparr>ts_chans := chans_Add ch (ts_chans s)\<rparr>))"

lemma open_channel_handle:
  assumes "Accept now (so_loginwait (ts_options (srv_obj c))) rnd rawconn c = (r, cn, c')"
  shows "open_channel wording now rnd rawconn c
    = (fst (tcp_handle wording rawconn (\<lambda>_ _. (r, cn)) (srv_obj c')), c'\<lparr>srv_obj := snd (tcp_handle wording rawconn (\<lambda>_ _. (r, cn)) (srv_obj c'))\<rparr>)"
  using assms by (simp add: open_channel_def tcp_handle_def Let_def split: sum.split)

definition demo_acks :: "bytes list" where
  "demo_acks = replicate 5 (demo_ack (bytes_of ''hello''))"

lemma hello_nonempty: "[] \<noteq> bytes_of ''hello''"
  using bytes_of_eq_Nil [of "''hello''"] by (metis list.distinct(1))

lemma demo_acks_fit: "list_all fits32 demo_acks" "list_all (\<lambda>p. length p < 2 ^ 63) demo_acks" "fits32 (bytes_of ''hello'')"
  by (simp_all add: demo_acks_def demo_ack_def fits32_def list_all_iff)

text \<open>
  The demonstration over TCP. A client started on a connection that brings five answers sends its
  name and five messages, logs the five answers and leaves its connection closed. A server
  connection that brings what this client has written is accepted under the client's name, its
  read loop hands over the five messages and ends because the client closed, no push of an answer
  waits even if the write loop has not run yet, and what the write loop then writes are the bytes
  the client reads.
\<close>

theorem demo_echo_tcp:
  assumes "working cn" and "wbuf (c_out cn) = []" and "c_in cn = \<lparr>rbuf = bin_frames demo_acks, rend = e\<rparr>"
  shows "\<exists>cn'. ClientDemo_Start lib None (\<lambda>_. Inr cn) sent_at now user ''tcp'' addr = Ret (Some (demo_acks, Some cn'))
    \<and> c_closed cn'
    \<and> (\<forall>s rc e'. ts_chans s ''test1'' = None \<longrightarrow> working rc \<longrightarrow> wbuf (c_out rc) = [] \<longrightarrow> c_in rc = \<lparr>rbuf = wbuf (c_out cn'), rend = e'\<rparr> \<longrightarrow>
        (\<exists>s' ch ch1 ch2 ch3. tcp_handle wording rc (demo_Accept tcp_conn) s = (Inr ''test1'', s') \<and> ts_chans s' ''test1'' = Some ch
          \<and> Readloop tcp_conn now' ch = Some (ErrorMsg ''remote side close the channel'', replicate 5 (bytes_of ''hello''), ch1)
          \<and> demo_receives (replicate 5 (bytes_of ''hello'')) ch1 = Ret ch2
          \<and> write_steps tcp_conn 6 t (AtSelect, ch2) = (AtSelect, ch3)
          \<and> wbuf (c_out (ch_conn ch3)) = bin_frames demo_acks))"
proof -
  let ?c = "tcp_NewClient ''test1'' ''client'' demo_options"
  let ?f0 = "\<lparr>OpCode = OpBinary, Payload = bytes_of ''test1''\<rparr>"
  let ?cn1 = "sent_on (enc_frame ?f0) cn"
  let ?c1 = "?c\<lparr>tc_state := 1, tc_conn := Some ?cn1\<rparr>"
  have d: "conn_WriteFrame OpBinary (bytes_of ''test1'') cn = (None, ?cn1)"
    using tcpc.write_frame [OF assms(1), of OpBinary "bytes_of ''test1''"] by (simp add: tcp_text_def)
  have 1: "ci_Connect tcp_client None (TCPDialer (\<lambda>_. Inr cn)) addr ?c = (None, True, ?c1)"
    using d by (simp add: Connect_def CompareAndSwap_def TCPDialer_def tcp_NewClient_def Let_def demo_options_def DefaultHeartbeat_def Second_def)
  have up: "tcp_up ?c1" "tcp_link ?c1 = ?cn1" using assms(1) by (simp_all add: tcp_up_def connected_def tcp_link_def tcp_NewClient_def Let_def)
  have f0: "frame_ok ?f0" by (simp add: frame_ok_def fits32_def)
  obtain c' fs fin where c: "demo_client tcp_client None (TCPDialer (\<lambda>_. Inr cn)) addr sent_at now ?c = Ret (Some (demo_acks, c'))"
    "\<exists>c3. tcp_up c3 \<and> c' = tcp_Close c3" "c_closed (tcp_link c')" "wbuf (c_out (tcp_link c')) = enc_frame ?f0 @ concat (map enc_frame fs) @ fin"
    "list_all frame_ok fs" "\<forall>f \<in> set fs. tcpc.code_of f = OpBinary" "map tcpc.body_of fs = replicate 5 (bytes_of ''hello'')"
    "\<forall>e. tcpc.input_end fin e (ErrorMsg ''remote side close the channel'')"
    using tcpl.demo_session [OF 1 up(1) _ demo_acks_fit(3) demo_acks_def demo_acks_fit(1), of "enc_frame ?f0" e sent_at now] assms(2,3) up(2) by auto
  have k: "tc_conn c' = Some (tcp_link c')"
    using c(2) by (auto simp: tcp_up_def connected_def tcp_Close_def Let_def CompareAndSwap_def tcp_link_def)
  have "\<exists>s' ch ch1 ch2 ch3. tcp_handle wording rc (demo_Accept tcp_conn) s = (Inr ''test1'', s') \<and> ts_chans s' ''test1'' = Some ch
      \<and> Readloop tcp_conn now' ch = Some (ErrorMsg ''remote side close the channel'', replicate 5 (bytes_of ''hello''), ch1)
      \<and> demo_receives (replicate 5 (bytes_of ''hello'')) ch1 = Ret ch2
      \<and> write_steps tcp_conn 6 t (AtSelect, ch2) = (AtSelect, ch3) \<and> wbuf (c_out (ch_conn ch3)) = bin_frames demo_acks"
    if s: "ts_chans s ''test1'' = None" and rc: "working rc" "wbuf (c_out rc) = []" "c_in rc = \<lparr>rbuf = wbuf (c_out (tcp_link c')), rend = e'\<rparr>"
    for s rc e'
  proof -
    let ?rc = "rc\<lparr>c_in := \<lparr>rbuf = concat (map enc_frame fs) @ fin, rend = e'\<rparr>\<rparr>"
    let ?ch = "SetWriteWait (so_writewait (ts_options s)) (SetReadWait (so_readwait (ts_options s)) (NewChannel ''test1'' ?rc))"
    have "demo_Accept tcp_conn rc x = (Inr ''test1'', ?rc)" for x
      using tcpc.demo_accepts [of rc ?f0 "concat (map enc_frame fs) @ fin" e' "''test1''"] rc c(4) f0 by (simp add: working_def)
    with s have h: "tcp_handle wording rc (demo_Accept tcp_conn) s = (Inr ''test1'', s\<lparr>ts_chans := chans_Add ?ch (ts_chans s)\<rparr>)"
      by (simp add: tcp_handle_def chans_Get_def)
    have "\<exists>ch1 ch2 ch3. Readloop tcp_conn now' ?ch = Some (ErrorMsg ''remote side close the channel'', replicate 5 (bytes_of ''hello''), ch1)
        \<and> demo_receives (replicate 5 (bytes_of ''hello'')) ch1 = Ret ch2 \<and> write_steps tcp_conn 6 t (AtSelect, ch2) = (AtSelect, ch3)
        \<and> wbuf (c_out (ch_conn ch3)) = bin_frames demo_acks"
      using tcpc.demo_served [of ?rc fs fin e' _ _ ?ch now' t, OF _ _ c(5,6,7) _ _ _ c(8) [rule_format]] rc(1,2)
      by (simp add: new_channel_simps working_def demo_acks_def hello_nonempty)
    then show ?thesis unfolding h by (simp add: chans_Add_def new_channel_simps)
  qed
  with c(1,3) k show ?thesis
    by (intro exI [of _ "tcp_link c'"]) (simp add: ClientDemo_Start_def)
qed

theorem demo_echo_tcp_witness:
  "\<exists>cn'. ClientDemo_Start (rfc_lib [1, 2, 3, 4]) None (\<lambda>_. Inr (open_conn\<lparr>c_in := \<lparr>rbuf = bin_frames demo_acks, rend = EOF\<rparr>\<rparr>))
      (\<lambda>_. zero_time) (\<lambda>_. zero_time) ''u'' ''tcp'' ''localhost:8000'' = Ret (Some (demo_acks, Some cn')) \<and> c_closed cn'"
proof -
  let ?cn = "open_conn\<lparr>c_in := \<lparr>rbuf = bin_frames demo_acks, rend = EOF\<rparr>\<rparr>"
  have "working ?cn" "wbuf (c_out ?cn) = []" "c_in ?cn = \<lparr>rbuf = bin_frames demo_acks, rend = EOF\<rparr>"
    by (simp_all add: open_conn_def working_def)
  from demo_echo_tcp [OF this] show ?thesis by blast
qed

context ws_library
begin

lemma demo_echo:
  assumes "u \<noteq> []" "length u < 2 ^ 63" "working cn" "wbuf (c_out cn) = []"
    "c_in cn = \<lparr>rbuf = frames_text (\<lambda>code p. ws_text (plain_frame code p)) demo_acks, rend = e\<rparr>"
  shows "\<exists>cn'. ClientDemo_Start lib None (\<lambda>_. Inr cn) sent_at now u ''ws'' addr = Ret (Some (demo_acks, Some cn'))
    \<and> c_closed cn'
    \<and> (\<forall>s m rc e'. ws_chans s = Some m \<longrightarrow> m u = None \<longrightarrow> working rc \<longrightarrow> wbuf (c_out rc) = [] \<longrightarrow> c_in rc = \<lparr>rbuf = wbuf (c_out cn'), rend = e'\<rparr> \<longrightarrow>
        (\<exists>s' ch ch1 ch2 ch3. ws_handle lib wording (Inr rc) (demo_Accept (ws_conn lib)) s = Ret (Opened u, s')
          \<and> ws_chans s' = Some (m(u \<mapsto> ch))
          \<and> Readloop (ws_conn lib) now' ch = Some (ErrorMsg ''remote side close the channel'', replicate 5 (bytes_of ''hello''), ch1)
          \<and> demo_receives (replicate 5 (bytes_of ''hello'')) ch1 = Ret ch2
          \<and> write_steps (ws_conn lib) 6 t (AtSelect, ch2) = (AtSelect, ch3)
          \<and> wbuf (c_out (ch_conn ch3)) = frames_text (\<lambda>code p. ws_text (plain_frame code p)) demo_acks))"
proof -
  let ?V = "frames_text (\<lambda>code p. ws_text (plain_frame code p)) demo_acks"
  let ?c = "ws_NewClient u ''client'' demo_options"
  obtain mk where mk: "length mk = 4" "lib_WriteClientMessage lib OpBinary (bytes_of u) cn = (None, sent_on (ws_text (masked_frame OpBinary mk (bytes_of u))) cn)"
    using client_message [OF assms(3)] by blast
  let ?f0 = "masked_frame OpBinary mk (bytes_of u)"
  let ?cn1 = "sent_on (ws_text ?f0) cn"
  let ?c1 = "?c\<lparr>wc_state := 1, wc_conn := Some ?cn1\<rparr>"
  have 1: "ci_Connect (ws_client lib) None (WebsocketDialer lib (\<lambda>_. Inr cn)) addr ?c = (None, False, ?c1)"
    using mk(2) by (simp add: ws_Connect_def ws_CompareAndSwap_def WebsocketDialer_def ws_NewClient_def Let_def demo_options_def)
  have up: "ws_up ?c1" "ws_link ?c1 = ?cn1" using assms(3) by (simp_all add: ws_up_def ws_link_def ws_NewClient_def Let_def)
  have f0: "ws_ok ?f0" "wsc.body_of ?f0 = bytes_of u"
    using assms(2) mk(1) by (auto simp: body_masked intro!: masked_ok) (simp add: OpBinary_def)
  obtain c' fs fin where c: "demo_client (ws_client lib) None (WebsocketDialer lib (\<lambda>_. Inr cn)) addr sent_at now ?c = Ret (Some (demo_acks, c'))"
    "\<exists>c3. ws_up c3 \<and> c' = ws_Close lib c3" "c_closed (ws_link c')" "wbuf (c_out (ws_link c')) = ws_text ?f0 @ concat (map ws_text fs) @ fin"
    "list_all ws_ok fs" "\<forall>f \<in> set fs. wsc.code_of f = OpBinary" "map wsc.body_of fs = replicate 5 (bytes_of ''hello'')"
    "\<forall>e. wsc.input_end fin e (ErrorMsg ''remote side close the channel'')"
    using wscl.demo_session [OF 1 up(1) _ _ demo_acks_def demo_acks_fit(2), of "ws_text ?f0" e sent_at now] assms(4,5) up(2) by auto
  have k: "wc_conn c' = Some (ws_link c')" using c(2) close_up by (fastforce simp: ws_link_def)
  have "\<exists>s' ch ch1 ch2 ch3. ws_handle lib wording (Inr rc) (demo_Accept (ws_conn lib)) s = Ret (Opened u, s') \<and> ws_chans s' = Some (m(u \<mapsto> ch))
      \<and> Readloop (ws_conn lib) now' ch = Some (ErrorMsg ''remote side close the channel'', replicate 5 (bytes_of ''hello''), ch1)
      \<and> demo_receives (replicate 5 (bytes_of ''hello'')) ch1 = Ret ch2
      \<and> write_steps (ws_conn lib) 6 t (AtSelect, ch2) = (AtSelect, ch3) \<and> wbuf (c_out (ch_conn ch3)) = ?V"
    if s: "ws_chans s = Some m" "m u = None" and rc: "working rc" "wbuf (c_out rc) = []" "c_in rc = \<lparr>rbuf = wbuf (c_out (ws_link c')), rend = e'\<rparr>"
    for s m rc e'
  proof -
    let ?rc = "rc\<lparr>c_in := \<lparr>rbuf = concat (map ws_text fs) @ fin, rend = e'\<rparr>\<rparr>"
    let ?ch = "SetReadWait (so_readwait (ws_options s)) (SetWriteWait (so_writewait (ws_options s)) (NewChannel u ?rc))"
    have "demo_Accept (ws_conn lib) rc x = (Inr u, ?rc)" for x
      using wsc.demo_accepts [of rc ?f0 "concat (map ws_text fs) @ fin" e' u] rc c(4) f0 assms(1) by (simp add: working_def)
    with s have h: "ws_handle lib wording (Inr rc) (demo_Accept (ws_conn lib)) s = Ret (Opened u, s\<lparr>ws_chans := Some (chans_Add ?ch m)\<rparr>)"
      by (simp add: ws_handle_def chans_Get_def)
    have "\<exists>ch1 ch2 ch3. Readloop (ws_conn lib) now' ?ch = Some (ErrorMsg ''remote side close the channel'', replicate 5 (bytes_of ''hello''), ch1)
        \<and> demo_receives (replicate 5 (bytes_of ''hello'')) ch1 = Ret ch2 \<and> write_steps (ws_conn lib) 6 t (AtSelect, ch2) = (AtSelect, ch3)
        \<and> wbuf (c_out (ch_conn ch3)) = ?V"
      using wsc.demo_served [of ?rc fs fin e' _ _ ?ch now' t, OF _ _ c(5,6,7) _ _ _ c(8) [rule_format]] rc(1,2)
      by (simp add: new_channel_simps working_def demo_acks_def hello_nonempty)
    moreover have "ws_chans (s\<lparr>ws_chans := Some (chans_Add ?ch m)\<rparr>) = Some (m(u \<mapsto> ?ch))"
      by (simp add: chans_Add_def new_channel_simps)
    ultimately show ?thesis using h by blast
  qed
  with c(1,3) k show ?thesis
    by (intro exI [of _ "ws_link c'"]) (simp add: ClientDemo_Start_def)
qed

end

text \<open>
  C24: the demonstration over websockets. A client started on a connection that brings five answers
  sends its identifier and five messages, logs the five answers and leaves its connection closed. A
  server connection that brings what this client has written is accepted under the client's
  identifier, its read loop hands over the five messages and ends because the client closed, no
  push of an answer waits even if the write loop has not run yet, and what the write loop then
  writes are the bytes the client reads.
\<close>

theorem demo_echo_ws:
  assumes "ws_library lib" and "u \<noteq> []" and "length u < 2 ^ 63" and "working cn" and "wbuf (c_out cn) = []"
    and "c_in cn = \<lparr>rbuf = frames_text (\<lambda>code p. ws_text (plain_frame code p)) demo_acks, rend = e\<rparr>"
  shows "\<exists>cn'. ClientDemo_Start lib None (\<lambda>_. Inr cn) sent_at now u ''ws'' addr = Ret (Some (demo_acks, Some cn'))
    \<and> c_closed cn'
    \<and> (\<forall>s m rc e'. ws_chans s = Some m \<longrightarrow> m u = None \<longrightarrow> working rc \<longrightarrow> wbuf (c_out rc) = [] \<longrightarrow> c_in rc = \<lparr>rbuf = wbuf (c_out cn'), rend = e'\<rparr> \<longrightarrow>
        (\<exists>s' ch ch1 ch2 ch3. ws_handle lib wording (Inr rc) (demo_Accept (ws_conn lib)) s = Ret (Opened u, s')
          \<and> ws_chans s' = Some (m(u \<mapsto> ch))
          \<and> Readloop (ws_conn lib) now' ch = Some (ErrorMsg ''remote side close the channel'', replicate 5 (bytes_of ''hello''), ch1)
          \<and> demo_receives (replicate 5 (bytes_of ''hello'')) ch1 = Ret ch2
          \<and> write_steps (ws_conn lib) 6 t (AtSelect, ch2) = (AtSelect, ch3)
          \<and> wbuf (c_out (ch_conn ch3)) = frames_text (\<lambda>code p. ws_text (plain_frame code p)) demo_acks))"
  by (rule ws_library.demo_echo [OF assms])

text \<open>A server as the demonstration starts it.\<close>

lemma demo_server_started:
  "\<exists>s. runsrv server_options None = Ret (Inl s) \<and> ws_chans s = Some Map.empty"
  by (simp add: runsrv_def server_options_def ServerDemo_Start_def demo_start_def demo_configure_def ws_server_def ws_Start_def
      ws_SetStateListener_def ws_SetMessageListener_def ws_SetAcceptor_def ws_SetReadWait_def ws_NewServer_def Let_def NewChannels_def)

theorem demo_echo_ws_witness:
  "\<exists>cn' s s'. runcli (rfc_lib [1, 2, 3, 4]) None (\<lambda>_. Inr (open_conn\<lparr>c_in :=
        \<lparr>rbuf = frames_text (\<lambda>code p. ws_text (plain_frame code p)) demo_acks, rend = EOF\<rparr>\<rparr>))
      (\<lambda>_. zero_time) (\<lambda>_. zero_time) ''u'' client_options = Ret (Some (demo_acks, Some cn'))
    \<and> runsrv server_options None = Ret (Inl s)
    \<and> ws_handle (rfc_lib [1, 2, 3, 4]) (\<lambda>_. []) (Inr (open_conn\<lparr>c_in := \<lparr>rbuf = wbuf (c_out cn'), rend = EOF\<rparr>\<rparr>))
        (demo_Accept (ws_conn (rfc_lib [1, 2, 3, 4]))) s = Ret (Opened ''u'', s')"
proof -
  let ?cn = "open_conn\<lparr>c_in := \<lparr>rbuf = frames_text (\<lambda>code p. ws_text (plain_frame code p)) demo_acks, rend = EOF\<rparr>\<rparr>"
  have cn: "working (open_conn\<lparr>c_in := i\<rparr>)" "wbuf (c_out (open_conn\<lparr>c_in := i\<rparr>)) = []" "c_in (open_conn\<lparr>c_in := i\<rparr>) = i" for i
    by (simp_all add: open_conn_def working_def)
  obtain s where s: "runsrv server_options None = Ret (Inl s)" "ws_chans s = Some Map.empty" using demo_server_started by blast
  from demo_echo_ws [OF rfc.ws_library_axioms _ _ cn, of "''u''" EOF "\<lambda>_. zero_time" "\<lambda>_. zero_time" "''ws://localhost:8000''" "\<lambda>_. []"
      "\<lambda>_. zero_time" zero_time]
  obtain cn' where c: "ClientDemo_Start (rfc_lib [1, 2, 3, 4]) None (\<lambda>_. Inr ?cn) (\<lambda>_. zero_time) (\<lambda>_. zero_time) ''u'' ''ws'' ''ws://localhost:8000''
      = Ret (Some (demo_acks, Some cn'))"
    and h: "\<And>s m rc e'. ws_chans s = Some m \<Longrightarrow> m ''u'' = None \<Longrightarrow> working rc \<Longrightarrow> wbuf (c_out rc) = [] \<Longrightarrow>
      c_in rc = \<lparr>rbuf = wbuf (c_out cn'), rend = e'\<rparr> \<Longrightarrow>
      \<exists>s'. ws_handle (rfc_lib [1, 2, 3, 4]) (\<lambda>_. []) (Inr rc) (demo_Accept (ws_conn (rfc_lib [1, 2, 3, 4]))) s = Ret (Opened ''u'', s')"
    by simp (elim exE conjE, rule that, blast, blast)
  from h [OF s(2) _ cn] c s(1) show ?thesis by (auto simp: runcli_def client_options_def)
qed

end
