(* ===== verification/Lock_Runs.thy ===== *)
theory Lock_Runs
  imports Servers
begin

text \<open>
  Runs of the server with the coordinator's mutex and the channels as objects of their own, finer than
  those of \<open>Server_Runs\<close>: the broadcast of \<open>coordinator.go\<close> takes its snapshot, takes the mutex, and then
  pushes to one session after the other, each push possibly waiting for room; a channel can leave
  the table while somebody still sends on it; a submission goes on without the mutex once it has its
  session, and a handshake once it has registered one. Shown is what becomes of the server when a
  push of the broadcast waits on a channel whose write loop has ended.
\<close>

subsection \<open>The state\<close>

text \<open>
  Where the goroutine of the broadcast loop is; it holds the mutex in \<open>Holding\<close> and \<open>Sending\<close>. \<open>j\<close>, \<open>n\<close>
  and \<open>dat\<close> are the local variables of \<open>broadcastJob\<close>, the list the sessions still to come; in
  \<open>Sending\<close> the channel operation on the queue of one channel is waiting. Sessions are filed under
  the identifier of their channel (\<open>filed_sessions\<close>), so one name serves both. A session that has been
  unregistered since the snapshot lost its channel before, so the push to it has no effect.
\<close>

datatype bcast =
    Idle
  | Rotated
  | Snapshot int string bytes "string list"
  | Holding int string bytes "string list"
  | Sending int string bytes string "string list"

text \<open>
  The coordinator with the server's table, the channels that have left the table and are not yet
  closed, the program counters of the write loops, the submissions that have found their session and
  given the mutex back, the handshakes that have registered their session and not yet added the
  channel, and whether the process has panicked.
\<close>

record ('s, 'q) world =
  w_coord :: "(TcpServer, 's, 'q) Coordinator"
  w_left :: "string \<rightharpoonup> ChannelImpl"
  w_pc :: "string \<Rightarrow> wl_pc"
  w_checking :: "string list"
  w_accepted :: "(string \<times> conn) list"
  w_bcast :: bcast
  w_crashed :: bool

fun mutex_free :: "bcast \<Rightarrow> bool" where
  "mutex_free (Holding j n dat is) = False"
| "mutex_free (Sending j n dat i is) = False"
| "mutex_free b = True"

definition channel_of :: "('s, 'q) world \<Rightarrow> string \<Rightarrow> ChannelImpl option" where
  "channel_of w i = (case ts_chans (srv_obj (w_coord w)) i of Some ch \<Rightarrow> Some ch | None \<Rightarrow> w_left w i)"

definition set_channel :: "string \<Rightarrow> ChannelImpl \<Rightarrow> ('s, 'q) world \<Rightarrow> ('s, 'q) world" where
  "set_channel i ch w =
     (case ts_chans (srv_obj (w_coord w)) i of
        Some _ \<Rightarrow> w\<lparr>w_coord := (w_coord w)\<lparr>srv_obj := (srv_obj (w_coord w))\<lparr>ts_chans := (ts_chans (srv_obj (w_coord w)))(i \<mapsto> ch)\<rparr>\<rparr>\<rparr>
      | None \<Rightarrow> w\<lparr>w_left := (w_left w)(i \<mapsto> ch)\<rparr>)"

subsection \<open>Steps\<close>

datatype lock_label =
    KRotate | KSnapshot | KLock | KPushed | KStalled | KResumed | KUnlock | KCrash
  | KAccept string | KRefuse | KAdd string | KRepeated string
  | KFound string | KUnknown string | KSubmit string "error option" | KOrphan string
  | KChannel string ch_label | KConn string | KRemove string | KLeave string | KOutside | KShutdown

text \<open>
  The steps that take the mutex: the broadcast's own; \<open>KAccept\<close>, a handshake up to its registration
  (one that fails earlier is \<open>KRefuse\<close>); \<open>KFound\<close> and \<open>KUnknown\<close>, a submission that looks up its session; \<open>KLeave\<close>,
  the second half of the end of a connection. Without it go \<open>KAdd\<close>, a registered channel enters the table
  (identifiers of new connections are fresh, else \<open>KRepeated\<close>); \<open>KSubmit\<close>, the checks of a submission that has
  found its session (\<open>KOrphan\<close> when the session has been unregistered meanwhile: then only store and
  queue can notice); \<open>KChannel\<close>, any step of a channel but its close, a push of an answer or a round of
  the write loop; \<open>KConn\<close>, anything on the connection of a channel, the read loop included; \<open>KRemove\<close>, the
  first half of the end of a connection; \<open>KOutside\<close>, the store, the queue and the goroutine that counts.
\<close>

inductive lock_step :: "('s, 'q) world \<Rightarrow> lock_label \<Rightarrow> ('s, 'q) world \<Rightarrow> bool" where
  rotate: "\<not> w_crashed w \<Longrightarrow> w_bcast w = Idle \<Longrightarrow>
    lock_step w KRotate (w\<lparr>w_coord := rotateJob buf now now' (w_coord w), w_bcast := Rotated\<rparr>)"
| snapshot: "\<not> w_crashed w \<Longrightarrow> w_bcast w = Rotated \<Longrightarrow> distinct order \<Longrightarrow> set order = dom (sessions (w_coord w)) \<Longrightarrow>
    j = jobID (w_coord w) \<Longrightarrow> n = serverNonce (w_coord w) \<Longrightarrow>
    lock_step w KSnapshot (w\<lparr>w_bcast := Snapshot j n (job_data j n) order\<rparr>)"
| lock: "\<not> w_crashed w \<Longrightarrow> w_bcast w = Snapshot j n dat is \<Longrightarrow> lock_step w KLock (w\<lparr>w_bcast := Holding j n dat is\<rparr>)"
| pushed: "\<not> w_crashed w \<Longrightarrow> w_bcast w = Holding j n dat (i # is) \<Longrightarrow> deliver j n dat [i] (w_coord w) = Ret c' \<Longrightarrow>
    lock_step w KPushed (w\<lparr>w_coord := c', w_bcast := Holding j n dat is\<rparr>)"
| stalled: "\<not> w_crashed w \<Longrightarrow> w_bcast w = Holding j n dat (i # is) \<Longrightarrow> deliver j n dat [i] (w_coord w) = Block \<Longrightarrow>
    sessions (w_coord w) i = Some s \<Longrightarrow> lock_step w KStalled (w\<lparr>w_bcast := Sending j n dat i is,
      w_coord := put_session i (s\<lparr>LatestJobID := j, LatestServerNonce := n\<rparr>) (w_coord w)\<rparr>)"
| resumed: "\<not> w_crashed w \<Longrightarrow> w_bcast w = Sending j n dat i is \<Longrightarrow> channel_of w i = Some ch \<Longrightarrow>
    chan_send dat (writechan ch) = Ret wc \<Longrightarrow>
    lock_step w KResumed (set_channel i (ch\<lparr>writechan := wc\<rparr>) (w\<lparr>w_bcast := Holding j n dat is\<rparr>))"
| crash: "\<not> w_crashed w \<Longrightarrow> w_bcast w = Sending j n dat i is \<Longrightarrow> channel_of w i = Some ch \<Longrightarrow>
    chan_send dat (writechan ch) = Panic \<Longrightarrow> lock_step w KCrash (w\<lparr>w_crashed := True\<rparr>)"
| unlock: "\<not> w_crashed w \<Longrightarrow> w_bcast w = Holding j n dat [] \<Longrightarrow> lock_step w KUnlock (w\<lparr>w_bcast := Idle\<rparr>)"
| accepted: "\<not> w_crashed w \<Longrightarrow> mutex_free (w_bcast w) \<Longrightarrow>
    Accept now (so_loginwait (ts_options (srv_obj (w_coord w)))) rnd rawconn (w_coord w) = (Inr i, cn, c') \<Longrightarrow>
    lock_step w (KAccept i) (w\<lparr>w_coord := c', w_accepted := (i, cn) # w_accepted w\<rparr>)"
| refused: "\<not> w_crashed w \<Longrightarrow>
    Accept now (so_loginwait (ts_options (srv_obj (w_coord w)))) rnd rawconn (w_coord w) = (Inl err, cn, c') \<Longrightarrow>
    lock_step w KRefuse (w\<lparr>w_coord := c'\<rparr>)"
| added: "\<not> w_crashed w \<Longrightarrow> (i, cn) \<in> set (w_accepted w) \<Longrightarrow> chans_Get i (ts_chans (srv_obj (w_coord w))) = None \<Longrightarrow>
    w_left w i = None \<Longrightarrow> o' = ts_options (srv_obj (w_coord w)) \<Longrightarrow>
    ch = SetWriteWait (so_writewait o') (SetReadWait (so_readwait o') (NewChannel i cn)) \<Longrightarrow>
    lock_step w (KAdd i) (w\<lparr>w_accepted := remove1 (i, cn) (w_accepted w), w_pc := (w_pc w)(i := AtSelect),
      w_coord := (w_coord w)\<lparr>srv_obj := (srv_obj (w_coord w))\<lparr>ts_chans := chans_Add ch (ts_chans (srv_obj (w_coord w)))\<rparr>\<rparr>\<rparr>)"
| repeated: "\<not> w_crashed w \<Longrightarrow> (i, cn) \<in> set (w_accepted w) \<Longrightarrow> chans_Get i (ts_chans (srv_obj (w_coord w))) \<noteq> None \<Longrightarrow>
    lock_step w (KRepeated i) (w\<lparr>w_accepted := remove1 (i, cn) (w_accepted w)\<rparr>)"
| found: "\<not> w_crashed w \<Longrightarrow> mutex_free (w_bcast w) \<Longrightarrow> i \<in> dom (sessions (w_coord w)) \<Longrightarrow>
    lock_step w (KFound i) (w\<lparr>w_checking := i # w_checking w\<rparr>)"
| unknown: "\<not> w_crashed w \<Longrightarrow> mutex_free (w_bcast w) \<Longrightarrow> i \<notin> dom (sessions (w_coord w)) \<Longrightarrow> lock_step w (KUnknown i) w"
| submitted: "\<not> w_crashed w \<Longrightarrow> i \<in> set (w_checking w) \<Longrightarrow> i \<in> dom (sessions (w_coord w)) \<Longrightarrow>
    handleSubmit i p ts now (w_coord w) = Ret (r, c') \<Longrightarrow>
    lock_step w (KSubmit i r) (w\<lparr>w_coord := c', w_checking := remove1 i (w_checking w)\<rparr>)"
| orphan: "\<not> w_crashed w \<Longrightarrow> i \<in> set (w_checking w) \<Longrightarrow> i \<notin> dom (sessions (w_coord w)) \<Longrightarrow>
    lock_step w (KOrphan i) (w\<lparr>w_coord := (w_coord w)\<lparr>backend := b, mq_obj := q\<rparr>, w_checking := remove1 i (w_checking w)\<rparr>)"
| left: "\<not> w_crashed w \<Longrightarrow> mutex_free (w_bcast w) \<Longrightarrow> w_left w i = Some ch \<Longrightarrow> Disconnect i (w_coord w) = (e, c') \<Longrightarrow>
    Close ch = Ret ch' \<Longrightarrow> lock_step w (KLeave i) (w\<lparr>w_coord := c', w_left := (w_left w)(i := None)\<rparr>)"
| channel: "\<not> w_crashed w \<Longrightarrow> channel_of w i = Some ch \<Longrightarrow> ch_step tcp_conn (w_pc w i, ch) l (pc', ch') \<Longrightarrow> l \<noteq> Closed \<Longrightarrow>
    lock_step w (KChannel i l) ((set_channel i ch' w)\<lparr>w_pc := (w_pc w)(i := pc')\<rparr>)"
| conn: "\<not> w_crashed w \<Longrightarrow> channel_of w i = Some ch \<Longrightarrow> lock_step w (KConn i) (set_channel i (ch\<lparr>ch_conn := cn\<rparr>) w)"
| removed: "\<not> w_crashed w \<Longrightarrow> ts_chans (srv_obj (w_coord w)) i = Some ch \<Longrightarrow>
    lock_step w (KRemove i) (w\<lparr>w_left := (w_left w)(i \<mapsto> ch),
      w_coord := (w_coord w)\<lparr>srv_obj := (srv_obj (w_coord w))\<lparr>ts_chans := chans_Remove i (ts_chans (srv_obj (w_coord w)))\<rparr>\<rparr>\<rparr>)"
| outside: "\<not> w_crashed w \<Longrightarrow> lock_step w KOutside (w\<lparr>w_coord := (w_coord w)\<lparr>backend := b, mq_obj := q\<rparr>\<rparr>)"
| shutdown: "\<not> w_crashed w \<Longrightarrow> tcp_Shutdown ctx_done order (srv_obj (w_coord w)) = Ret (e, s') \<Longrightarrow>
    lock_step w KShutdown (w\<lparr>w_coord := (w_coord w)\<lparr>srv_obj := s'\<rparr>\<rparr>)"

inductive lock_run :: "('s, 'q) world \<Rightarrow> lock_label list \<Rightarrow> ('s, 'q) world \<Rightarrow> bool" where
  start: "lock_run w [] w"
| snoc: "lock_run w ls w' \<Longrightarrow> lock_step w' l w'' \<Longrightarrow> lock_run w (ls @ [l]) w''"

subsection \<open>A push that waits for ever\<close>

definition dead_full :: "('s, 'q) world \<Rightarrow> string \<Rightarrow> bool" where
  "dead_full w i \<longleftrightarrow> (\<exists>ch e. channel_of w i = Some ch \<and> ch_inv ch \<and> \<not> HasFired (ch_closed ch)
     \<and> length (cbuf (writechan ch)) = 5 \<and> w_pc w i = Returned (Some e))"

text \<open>What may still happen: nothing that takes the mutex, and nothing on the queue of the channel waited for.\<close>

fun harmless :: "string \<Rightarrow> lock_label \<Rightarrow> bool" where
  "harmless i (KChannel k l) = (k \<noteq> i)"
| "harmless i (KAdd k) = (k \<noteq> i)"
| "harmless i KRefuse = True"
| "harmless i (KRepeated k) = True"
| "harmless i (KSubmit k r) = True"
| "harmless i (KOrphan k) = True"
| "harmless i (KConn k) = True"
| "harmless i (KRemove k) = True"
| "harmless i KOutside = True"
| "harmless i _ = False"

text \<open>The ends of submissions and of handshakes in a run.\<close>

fun ends_submission :: "lock_label \<Rightarrow> bool" where
  "ends_submission (KSubmit k r) = True"
| "ends_submission (KOrphan k) = True"
| "ends_submission _ = False"

fun ends_handshake :: "lock_label \<Rightarrow> bool" where
  "ends_handshake (KAdd k) = True"
| "ends_handshake (KRepeated k) = True"
| "ends_handshake _ = False"

lemma channel_of_set: "channel_of (set_channel i ch w) k = (if k = i then Some ch else channel_of w k)"
  by (simp add: channel_of_def set_channel_def split: option.split)

lemma set_channel_simps [simp]:
  "w_pc (set_channel i ch w) = w_pc w" "w_bcast (set_channel i ch w) = w_bcast w" "w_crashed (set_channel i ch w) = w_crashed w" "w_checking (set_channel i ch w) = w_checking w"
  "w_accepted (set_channel i ch w) = w_accepted w"
  "sessions (w_coord (set_channel i ch w)) = sessions (w_coord w)" "jobID (w_coord (set_channel i ch w)) = jobID (w_coord w)"
  by (simp_all add: set_channel_def split: option.split)

lemma channel_of_upd [simp]:
  "channel_of (w\<lparr>w_pc := f\<rparr>) k = channel_of w k" "channel_of (w\<lparr>w_bcast := b\<rparr>) k = channel_of w k"
  by (simp_all add: channel_of_def split: option.split)

lemma dead_full_no_step: "dead_full w i \<Longrightarrow> channel_of w i = Some ch \<Longrightarrow> ch_step ops (w_pc w i, ch) l s \<Longrightarrow> l = Closed"
  by (auto simp: dead_full_def Push_total elim!: ch_stepE)

text \<open>A submission changes neither the connections nor who has a session.\<close>

lemma handleSubmit_keeps:
  assumes "handleSubmit i p ts now c = Ret (r, c')"
  shows "srv_obj c' = srv_obj c \<and> jobID c' = jobID c \<and> dom (sessions c') = dom (sessions c)"
proof (cases r)
  case None
  from accepted_effect [OF assms [unfolded None]] obtain s n q where "sessions c i = Some s"
    "c' = (save_accepted (accepted_session s p n now) p (put_session i (accepted_session s p n now) c))\<lparr>mq_obj := q\<rparr>" by metis
  then show ?thesis by (auto simp: server_simps save_accepted_def Let_def put_session_def split: option.split)
next
  case (Some e)
  from rejected_effect [OF assms [unfolded Some]] obtain m where
    m: "c' = c\<lparr>sessions := m\<rparr>" "\<forall>k. k \<noteq> i \<longrightarrow> m k = sessions c k" "rel_option same_account (sessions c i) (m i)"
    by (auto simp: only_session_def)
  then have "m k = None \<longleftrightarrow> sessions c k = None" for k by (cases "k = i") (auto elim: option.rel_cases)
  with m(1) show ?thesis by (auto simp: dom_def)
qed

lemma Accept_Inl: "Accept now t rnd cn c = (Inl err, cn', c') \<Longrightarrow> c' = c"
  by (auto simp: Accept_def Let_def split: sum.splits prod.splits option.splits if_splits)

text \<open>The counters of a run: submissions and handshakes under way, with those that have ended.\<close>

definition wedged :: "string \<Rightarrow> bcast \<Rightarrow> ('s, 'q) world \<Rightarrow> ('s, 'q) world \<Rightarrow> lock_label list \<Rightarrow> bool" where
  "wedged i b w w' ls \<longleftrightarrow> list_all (harmless i) ls \<and> dead_full w' i \<and> w_bcast w' = b \<and> \<not> w_crashed w'
     \<and> dom (sessions (w_coord w')) = dom (sessions (w_coord w)) \<and> jobID (w_coord w') = jobID (w_coord w)
     \<and> length (filter ends_submission ls) + length (w_checking w') = length (w_checking w)
     \<and> length (filter ends_handshake ls) + length (w_accepted w') = length (w_accepted w)"

lemma wedged_snoc: "wedged i b w w' ls \<Longrightarrow> wedged i b w' w'' [l] \<Longrightarrow> wedged i b w w'' (ls @ [l])"
  by (auto simp: wedged_def)

lemma dead_full_same: "dead_full w i \<Longrightarrow> channel_of w' i = channel_of w i \<Longrightarrow> w_pc w' i = w_pc w i \<Longrightarrow> dead_full w' i"
  by (simp add: dead_full_def)

lemma remove1_less: "x \<in> set xs \<Longrightarrow> Suc (length (remove1 x xs)) = length xs"
  using length_pos_if_in_set [of x xs] by (simp add: length_remove1)

lemma wedged_step:
  assumes d: "dead_full w i" and b: "w_bcast w = Sending j n dat i is" and st: "lock_step w l w'" and l: "l \<noteq> KShutdown"
  shows "wedged i (Sending j n dat i is) w w' [l]"
  using st
proof (cases rule: lock_step.cases)
  case (resumed j' n' d' k ks ch wc)
  with d b show ?thesis by (auto simp: dead_full_def ch_inv_def chan_send_def split: if_splits)
next
  case (crash j' n' d' k ks ch)
  with d b show ?thesis by (auto simp: dead_full_def ch_inv_def chan_send_def split: if_splits)
next
  case (refused now rnd rawconn err cn c')
  then have "w' = w" using Accept_Inl by fastforce
  with refused d b show ?thesis by (simp add: wedged_def)
next
  case (added k cn o' ch)
  from d obtain c0 where "channel_of w i = Some c0" by (auto simp: dead_full_def)
  with added(5,6) have k: "k \<noteq> i" by (auto simp: channel_of_def chans_Get_def)
  have c: "channel_of w' i = channel_of w i"
    unfolding added(2) using k by (simp add: channel_of_def chans_Add_def added(8) NewChannel_def SetWriteWait_def SetReadWait_def split: option.split)
  from dead_full_same [OF d c] added k remove1_less [OF added(4)] b show ?thesis by (simp add: wedged_def)
next
  case (repeated k cn)
  have "dead_full w' i" by (rule dead_full_same [OF d]) (simp_all add: repeated(2) channel_of_def split: option.split)
  with repeated b remove1_less [OF repeated(4)] show ?thesis by (simp add: wedged_def)
next
  case (submitted k p ts now r c')
  note h = handleSubmit_keeps [OF submitted(6)]
  then have "dead_full w' i" by (intro dead_full_same [OF d]) (simp_all add: submitted(2) channel_of_def split: option.split)
  with submitted b h remove1_less [OF submitted(4)] show ?thesis by (simp add: wedged_def)
next
  case (orphan k bk q)
  have "dead_full w' i" by (rule dead_full_same [OF d]) (simp_all add: orphan(2) channel_of_def split: option.split)
  with orphan b remove1_less [OF orphan(4)] show ?thesis by (simp add: wedged_def)
next
  case (channel k ch l' pc' ch')
  then have "k \<noteq> i" using dead_full_no_step [OF d, of ch tcp_conn l'] by auto
  with channel d b show ?thesis by (auto simp: wedged_def dead_full_def channel_of_set)
next
  case (conn k ch cn)
  with d have "dead_full w' i" by (auto simp: dead_full_def channel_of_set ch_inv_def)
  with conn b show ?thesis by (simp add: wedged_def)
next
  case (removed k ch)
  have "dead_full w' i"
    by (rule dead_full_same [OF d]) (use removed(4) in \<open>simp_all add: removed(2) channel_of_def chans_Remove_def split: option.split\<close>)
  with removed b show ?thesis by (simp add: wedged_def)
next
  case (outside bk q)
  have "dead_full w' i" by (rule dead_full_same [OF d]) (simp_all add: outside(2) channel_of_def split: option.split)
  with outside b show ?thesis by (simp add: wedged_def)
qed (use b l in simp_all)

text \<open>
  C12: the whole server waits. While the broadcast waits to send on a channel whose write loop has
  ended, then in every run without a shutdown, however long, the broadcast stays where it is and
  keeps the mutex: no submission finds its session, no handshake registers, no disconnection
  completes and no new job is issued. What still ends are the submissions and handshakes that had
  given the mutex back before, each once. Apart from these only the other channels and the
  connections move, connections end up to the point where they need the mutex (that of the
  waiting channel too: leaving the table does not release the sender), and the store and the queue.
\<close>

theorem blocked_broadcast_stops_server:
  assumes "lock_run w ls w'" and "dead_full w i" and "w_bcast w = Sending j n dat i is" and "\<not> w_crashed w" and "KShutdown \<notin> set ls"
  shows "list_all (harmless i) ls \<and> dead_full w' i \<and> w_bcast w' = Sending j n dat i is \<and> \<not> w_crashed w'
    \<and> dom (sessions (w_coord w')) = dom (sessions (w_coord w)) \<and> jobID (w_coord w') = jobID (w_coord w)
    \<and> length (filter ends_submission ls) + length (w_checking w') = length (w_checking w)
    \<and> length (filter ends_handshake ls) + length (w_accepted w') = length (w_accepted w)"
proof -
  have "wedged i (Sending j n dat i is) w w' ls" using assms
  proof (induction rule: lock_run.induct)
    case (snoc w ls w' l w'')
    have l: "l \<noteq> KShutdown" using snoc.prems(4) by auto
    from snoc have IH: "wedged i (Sending j n dat i is) w w' ls" by simp
    then show ?case using wedged_snoc [OF IH wedged_step [OF _ _ snoc(2) l]] by (simp add: wedged_def)
  qed (simp add: wedged_def)
  then show ?thesis by (simp add: wedged_def)
qed

text \<open>
  The state is reached: a server whose one client has a write loop that has ended and a full queue
  rotates its job, takes the mutex and waits; then the client's connection ends, and a submission of
  the client that was under way is answered.
\<close>

definition world_of :: "ChannelImpl \<Rightarrow> (MemoryStore, MemoryQueue) world" where
  "world_of ch = \<lparr>w_coord = one_client ch, w_left = Map.empty, w_pc = (\<lambda>_. Returned (Some EOF)),
     w_checking = [''a''], w_accepted = [], w_bcast = Idle, w_crashed = False\<rparr>"

lemma world_of_wedges:
  assumes "ch_inv ch" "ch_id ch = ''a''" "\<not> HasFired (ch_closed ch)" "length (cbuf (writechan ch)) = 5"
  obtains w where "lock_run (world_of ch) [KRotate, KSnapshot, KLock, KStalled] w"
    and "w_bcast w = Sending 1 ''01'' (job_data 1 ''01'') ''a'' []" and "dead_full w ''a''" and "\<not> w_crashed w"
    and "ts_chans (srv_obj (w_coord w)) ''a'' = Some ch" and "w_checking w = [''a'']"
    and "sessions (w_coord w) ''a'' \<noteq> None" and "\<And>p. sub_JobID p = 7 \<Longrightarrow>
      handleSubmit ''a'' p zero_time zero_time (w_coord w) = Ret (Some (ErrorMsg ''Task does not exist''), w_coord w)"
proof -
  let ?c1 = "rotateJob [1] zero_time zero_time (one_client ch)"
  have c1: "sessions ?c1 = [''a'' \<mapsto> NewSession ''a'' ''bob'']" "jobID ?c1 = 1" "serverNonce ?c1 = ''01''" "srv ?c1 = tcp_pusher"
    "srv_obj ?c1 = (NewServer ''l'')\<lparr>ts_chans := [''a'' \<mapsto> ch]\<rparr>" "history ?c1 7 = None"
    by (simp_all add: server_simps int64_def hextable_def one_client_def RegisterSession_def NewAppServer_def Let_def NewCoordinator_def)
  let ?w1 = "(world_of ch)\<lparr>w_coord := ?c1, w_bcast := Rotated\<rparr>"
  let ?d = "job_data 1 ''01''"
  have 1: "lock_step (world_of ch) KRotate ?w1" 
    using lock_step.rotate [of "world_of ch" "[1]" zero_time zero_time] by (simp add: world_of_def)
  have 2: "lock_step ?w1 KSnapshot (?w1\<lparr>w_bcast := Snapshot 1 ''01'' ?d [''a'']\<rparr>)"
    by (rule lock_step.snapshot) (simp_all add: c1 world_of_def)
  let ?w3 = "?w1\<lparr>w_bcast := Holding 1 ''01'' ?d [''a'']\<rparr>"
  have 3: "lock_step (?w1\<lparr>w_bcast := Snapshot 1 ''01'' ?d [''a'']\<rparr>) KLock ?w3"
    using lock_step.lock [of "?w1\<lparr>w_bcast := Snapshot 1 ''01'' ?d [''a'']\<rparr>" 1 "''01''" ?d "[''a'']"] by (simp add: world_of_def)
  have "tcp_Push ''a'' ?d (srv_obj ?c1) = Block"
    using assms by (simp add: c1 tcp_Push_def chans_Get_def Push_total)
  then have blk: "deliver 1 ''01'' ?d [''a''] ?c1 = Block" by (simp add: c1 NewSession_def tcp_pusher_def)
  let ?s = "(NewSession ''a'' ''bob'')\<lparr>LatestJobID := 1, LatestServerNonce := ''01''\<rparr>"
  let ?w4 = "?w3\<lparr>w_bcast := Sending 1 ''01'' ?d ''a'' [], w_coord := put_session ''a'' ?s ?c1\<rparr>"
  have 4: "lock_step ?w3 KStalled ?w4"
    using lock_step.stalled [of ?w3 1 "''01''" ?d "''a''" "[]" "NewSession ''a'' ''bob''"] c1 blk by (simp add: world_of_def)
  from lock_run.snoc [OF lock_run.snoc [OF lock_run.snoc [OF lock_run.snoc [OF lock_run.start 1] 2] 3] 4]
  have "lock_run (world_of ch) [KRotate, KSnapshot, KLock, KStalled] ?w4" by simp
  moreover have "dead_full ?w4 ''a''" using assms by (simp add: dead_full_def channel_of_def c1 world_of_def put_session_def)
  moreover have "ts_chans (srv_obj (w_coord ?w4)) ''a'' = Some ch" by (simp add: c1 put_session_def)
  moreover have "sessions (w_coord ?w4) ''a'' = Some ?s" "history (w_coord ?w4) 7 = None" using c1(6) by (simp_all add: put_session_def)
  ultimately show ?thesis using that [of ?w4] by (simp add: world_of_def handleSubmit_def)
qed

definition stuck_channel :: ChannelImpl where
  "stuck_channel = cut_channel\<lparr>writechan := \<lparr>cbuf = [[1], [1], [1], [1], [1]], ccap = 5, cclosed = False\<rparr>\<rparr>"

lemma stuck_channel_inv: "ch_inv stuck_channel" "ch_id stuck_channel = ''a''" "\<not> HasFired (ch_closed stuck_channel)"
  "length (cbuf (writechan stuck_channel)) = 5"
  using cut_channel_inv by (simp_all add: stuck_channel_def ch_inv_def chan_ok_def)

theorem blocked_broadcast_stops_server_witness:
  "\<exists>w w'. lock_run (world_of stuck_channel) [KRotate, KSnapshot, KLock, KStalled] w
    \<and> lock_run w [KRemove ''a'', KSubmit ''a'' (Some (ErrorMsg ''Task does not exist''))] w'
    \<and> ts_chans (srv_obj (w_coord w')) ''a'' = None \<and> w_checking w' = []
    \<and> w_bcast w' = Sending 1 ''01'' (job_data 1 ''01'') ''a'' [] \<and> dead_full w' ''a''"
proof -
  obtain w where w: "lock_run (world_of stuck_channel) [KRotate, KSnapshot, KLock, KStalled] w"
    "w_bcast w = Sending 1 ''01'' (job_data 1 ''01'') ''a'' []" "dead_full w ''a''" "\<not> w_crashed w"
    "ts_chans (srv_obj (w_coord w)) ''a'' = Some stuck_channel" "w_checking w = [''a'']" "sessions (w_coord w) ''a'' \<noteq> None"
    and h: "\<And>p. sub_JobID p = 7 \<Longrightarrow>
      handleSubmit ''a'' p zero_time zero_time (w_coord w) = Ret (Some (ErrorMsg ''Task does not exist''), w_coord w)"
    by (rule world_of_wedges [OF stuck_channel_inv]) blast
  let ?c = "(w_coord w)\<lparr>srv_obj := (srv_obj (w_coord w))\<lparr>ts_chans := chans_Remove ''a'' (ts_chans (srv_obj (w_coord w)))\<rparr>\<rparr>"
  let ?w1 = "w\<lparr>w_left := (w_left w)(''a'' \<mapsto> stuck_channel), w_coord := ?c\<rparr>"
  let ?p = "\<lparr>sub_JobID = 7, sub_ClientNonce = [], sub_Result = []\<rparr>"
  have 1: "lock_step w (KRemove ''a'') ?w1" by (rule lock_step.removed [OF w(4,5)])
  obtain s where s: "sessions (w_coord w) ''a'' = Some s" using w(7) by auto
  have "handleSubmit ''a'' ?p zero_time zero_time ?c = Ret (Some (ErrorMsg ''Task does not exist''), ?c)"
    using h [of ?p] s by (simp add: handleSubmit_def check_submit_def Let_def split: if_splits option.splits outcome.splits)
  then have 2: "lock_step ?w1 (KSubmit ''a'' (Some (ErrorMsg ''Task does not exist''))) (?w1\<lparr>w_coord := ?c, w_checking := []\<rparr>)"
    using lock_step.submitted [of ?w1 "''a''" ?p zero_time zero_time] w(4,6) s by auto
  have r: "lock_run w [KRemove ''a'', KSubmit ''a'' (Some (ErrorMsg ''Task does not exist''))] (?w1\<lparr>w_coord := ?c, w_checking := []\<rparr>)"
    using lock_run.snoc [OF lock_run.snoc [OF lock_run.start 1] 2] by simp
  have "ts_chans (srv_obj (w_coord (?w1\<lparr>w_coord := ?c, w_checking := []\<rparr>))) ''a'' = None" by (simp add: chans_Remove_def)
  then show ?thesis using blocked_broadcast_stops_server [OF r w(3,2,4)] w(1,6) r by force
qed

end
