(* ===== verification/Logger_Setup.thy ===== *)
theory Logger_Setup
  imports Go_Time
begin

text \<open>
  \<open>logger/logger.go\<close> and \<open>logger/setting.go\<close>: the configuration of the process-wide logger and the
  functions that log on it. The logging library and the rotating file writer are parameters:
  \<open>parse\<close> is the library's \<open>ParseLevel\<close>, \<open>new_writer\<close> the error, if any, of creating the writer, and a
  record of type \<open>logrus\<close> has the methods of the library's logger. What they document is the locale
  \<open>logrus_library\<close>.
\<close>

subsection \<open>The library\<close>

text \<open>Values of type \<open>interface{}\<close>, and the three ways to pass them to the library.\<close>

datatype any_value = AStr string | AInt int | AErr error | AOther nat

datatype message = Args "any_value list" | Format string "any_value list" | Line "any_value list"

datatype log_method = MTrace | MDebug | MPrint | MInfo | MWarn | MWarning | MError | MPanic | MFatal

text \<open>A method returns, panics or ends the process, in each case with what has been logged.\<close>

datatype 'l logged = Continues 'l | Panics 'l | Exits 'l

fun logged_state :: "'l logged \<Rightarrow> 'l" where
  "logged_state (Continues l) = l"
| "logged_state (Panics l) = l"
| "logged_state (Exits l) = l"

datatype level = PanicLevel | FatalLevel | ErrorLevel | WarnLevel | InfoLevel | DebugLevel | TraceLevel

datatype formatter = JSONFormatter | TextFormatter

record rotation =
  ro_pattern :: string
  ro_link :: string
  ro_time :: duration
  ro_count :: int

record hook =
  hk_levels :: "level list"
  hk_writer :: rotation
  hk_formatter :: formatter
  hk_lines :: "(level \<times> message) list"

text \<open>The state of a logger: its settings, the lines on its output, and its hooks with the lines in their files.\<close>

record Logger =
  lg_level :: level
  lg_caller :: bool
  lg_formatter :: formatter
  lg_hooks :: "hook list"
  lg_lines :: "(level \<times> message) list"

record Entry =
  en_Data :: "string \<rightharpoonup> any_value"
  en_Time :: "go_time option"
  en_Context :: "nat option"

record logrus =
  lr_call :: "log_method \<Rightarrow> message \<Rightarrow> Logger \<Rightarrow> Logger logged"
  lr_ErrorKey :: string
  lr_WithField :: "string \<Rightarrow> any_value \<Rightarrow> Entry"
  lr_WithFields :: "(string \<rightharpoonup> any_value) \<Rightarrow> Entry"
  lr_WithContext :: "nat \<Rightarrow> Entry"
  lr_WithTime :: "go_time \<Rightarrow> Entry"

subsection \<open>Configuration\<close>

record Options =
  op_Format :: string
  op_RotationCount :: int
  op_LogLevel :: string

definition WithRotationCount :: "int \<Rightarrow> Options \<Rightarrow> Options" where
  "WithRotationCount v opts = opts\<lparr>op_RotationCount := v\<rparr>"

definition WithFormat :: "string \<Rightarrow> Options \<Rightarrow> Options" where
  "WithFormat format opts = opts\<lparr>op_Format := format\<rparr>"

definition WithLevel :: "string \<Rightarrow> Options \<Rightarrow> Options" where
  "WithLevel level opts = opts\<lparr>op_LogLevel := level\<rparr>"

definition SetLevel :: "(string \<Rightarrow> error + level) \<Rightarrow> string \<Rightarrow> Logger \<Rightarrow> error option \<times> Logger" where
  "SetLevel parse level lg =
     (case parse level of Inl err \<Rightarrow> (Some err, lg) | Inr ll \<Rightarrow> (None, lg\<lparr>lg_level := ll\<rparr>))"

definition format_of :: "string \<Rightarrow> formatter" where
  "format_of f = (if f = ''json'' then JSONFormatter else TextFormatter)"

text \<open>\<open>uint(n)\<close>: a 64-bit conversion. \<open>logfile\<close> is \<open>filepath.Join(fileDir, fileName)\<close>.\<close>

definition uint64_of :: "int \<Rightarrow> int" where
  "uint64_of n = n mod 2 ^ 64"

definition default_options :: Options where
  "default_options = \<lparr>op_Format = ''json'', op_RotationCount = 3, op_LogLevel = ''debug''\<rparr>"

definition InitDailyRolling :: "logrus \<Rightarrow> (string \<Rightarrow> error + level) \<Rightarrow> (rotation \<Rightarrow> error option) \<Rightarrow> string \<Rightarrow> (Options \<Rightarrow> Options) list
    \<Rightarrow> Logger \<Rightarrow> error option \<times> Logger" where
  "InitDailyRolling lib parse new_writer logfile opts lg =
     (let options = fold (\<lambda>opt. opt) opts default_options;
          w = \<lparr>ro_pattern = logfile @ ''.%Y%m%d'', ro_link = logfile, ro_time = Hour * 24, ro_count = uint64_of (op_RotationCount options)\<rparr>
      in case new_writer w of
           Some err \<Rightarrow> (Some err, lg)
         | None \<Rightarrow>
             (let lg1 = snd (SetLevel parse (op_LogLevel options) lg);
                  h = \<lparr>hk_levels = [InfoLevel, WarnLevel, ErrorLevel, FatalLevel, PanicLevel], hk_writer = w,
                       hk_formatter = format_of (op_Format options), hk_lines = []\<rparr>
              in (None, logged_state (lr_call lib MInfo (Args [AStr ''***********This is logrus*************''])
                    (lg1\<lparr>lg_hooks := lg_hooks lg1 @ [h]\<rparr>)))))"

record Settings =
  st_Filename :: string
  st_Level :: string
  st_RollingDays :: nat
  st_Format :: string
  st_Caller :: bool

definition Init :: "logrus \<Rightarrow> (string \<Rightarrow> error + level) \<Rightarrow> (rotation \<Rightarrow> error option) \<Rightarrow> Settings \<Rightarrow> Logger \<Rightarrow> error option \<times> Logger" where
  "Init lib parse new_writer settings lg =
     (let lv = (if st_Level settings = [] then ''debug'' else st_Level settings);
          lg1 = (case parse lv of
                   Inr ll \<Rightarrow> lg\<lparr>lg_level := ll\<rparr>
                 | Inl _ \<Rightarrow> logged_state (lr_call lib MError (Args [AStr ''Invalid log level'']) lg));
          lg2 = (if st_Caller settings then lg1\<lparr>lg_caller := True\<rparr> else lg1);
          lg3 = lg2\<lparr>lg_formatter := format_of (st_Format settings)\<rparr>
      in if st_Filename settings = [] then (None, lg3)
         else
           let days = (if st_RollingDays settings = 0 then 7 else st_RollingDays settings);
               w = \<lparr>ro_pattern = st_Filename settings @ ''.%Y%m%d'', ro_link = st_Filename settings, ro_time = Hour * 24, ro_count = int days\<rparr>
           in case new_writer w of
                Some err \<Rightarrow> (Some err, lg3)
              | None \<Rightarrow> (None, lg3\<lparr>lg_hooks := lg_hooks lg3 @ [\<lparr>hk_levels = [DebugLevel, InfoLevel, WarnLevel, ErrorLevel],
                  hk_writer = w, hk_formatter = format_of (st_Format settings), hk_lines = []\<rparr>]\<rparr>))"

subsection \<open>Logging\<close>

text \<open>The functions of the package; each works on the process-wide logger.\<close>

definition log_Trace :: "logrus \<Rightarrow> any_value list \<Rightarrow> Logger \<Rightarrow> Logger logged" where "log_Trace lib args = lr_call lib MTrace (Args args)"
definition log_Debug :: "logrus \<Rightarrow> any_value list \<Rightarrow> Logger \<Rightarrow> Logger logged" where "log_Debug lib args = lr_call lib MDebug (Args args)"
definition log_Print :: "logrus \<Rightarrow> any_value list \<Rightarrow> Logger \<Rightarrow> Logger logged" where "log_Print lib args = lr_call lib MPrint (Args args)"
definition log_Info :: "logrus \<Rightarrow> any_value list \<Rightarrow> Logger \<Rightarrow> Logger logged" where "log_Info lib args = lr_call lib MInfo (Args args)"
definition log_Warn :: "logrus \<Rightarrow> any_value list \<Rightarrow> Logger \<Rightarrow> Logger logged" where "log_Warn lib args = lr_call lib MWarn (Args args)"
definition log_Warning :: "logrus \<Rightarrow> any_value list \<Rightarrow> Logger \<Rightarrow> Logger logged" where "log_Warning lib args = lr_call lib MWarning (Args args)"
definition log_Error :: "logrus \<Rightarrow> any_value list \<Rightarrow> Logger \<Rightarrow> Logger logged" where "log_Error lib args = lr_call lib MError (Args args)"
definition log_Panic :: "logrus \<Rightarrow> any_value list \<Rightarrow> Logger \<Rightarrow> Logger logged" where "log_Panic lib args = lr_call lib MPanic (Args args)"
definition log_Fatal :: "logrus \<Rightarrow> any_value list \<Rightarrow> Logger \<Rightarrow> Logger logged" where "log_Fatal lib args = lr_call lib MFatal (Args args)"

definition log_Tracef :: "logrus \<Rightarrow> string \<Rightarrow> any_value list \<Rightarrow> Logger \<Rightarrow> Logger logged" where "log_Tracef lib format args = lr_call lib MTrace (Format format args)"
definition log_Debugf :: "logrus \<Rightarrow> string \<Rightarrow> any_value list \<Rightarrow> Logger \<Rightarrow> Logger logged" where "log_Debugf lib format args = lr_call lib MDebug (Format format args)"
definition log_Printf :: "logrus \<Rightarrow> string \<Rightarrow> any_value list \<Rightarrow> Logger \<Rightarrow> Logger logged" where "log_Printf lib format args = lr_call lib MPrint (Format format args)"
definition log_Infof :: "logrus \<Rightarrow> string \<Rightarrow> any_value list \<Rightarrow> Logger \<Rightarrow> Logger logged" where "log_Infof lib format args = lr_call lib MInfo (Format format args)"
definition log_Warnf :: "logrus \<Rightarrow> string \<Rightarrow> any_value list \<Rightarrow> Logger \<Rightarrow> Logger logged" where "log_Warnf lib format args = lr_call lib MWarn (Format format args)"
definition log_Warningf :: "logrus \<Rightarrow> string \<Rightarrow> any_value list \<Rightarrow> Logger \<Rightarrow> Logger logged" where "log_Warningf lib format args = lr_call lib MWarning (Format format args)"
definition log_Errorf :: "logrus \<Rightarrow> string \<Rightarrow> any_value list \<Rightarrow> Logger \<Rightarrow> Logger logged" where "log_Errorf lib format args = lr_call lib MError (Format format args)"
definition log_Panicf :: "logrus \<Rightarrow> string \<Rightarrow> any_value list \<Rightarrow> Logger \<Rightarrow> Logger logged" where "log_Panicf lib format args = lr_call lib MPanic (Format format args)"
definition log_Fatalf :: "logrus \<Rightarrow> string \<Rightarrow> any_value list \<Rightarrow> Logger \<Rightarrow> Logger logged" where "log_Fatalf lib format args = lr_call lib MFatal (Format format args)"

definition log_Traceln :: "logrus \<Rightarrow> any_value list \<Rightarrow> Logger \<Rightarrow> Logger logged" where "log_Traceln lib args = lr_call lib MTrace (Line args)"
definition log_Debugln :: "logrus \<Rightarrow> any_value list \<Rightarrow> Logger \<Rightarrow> Logger logged" where "log_Debugln lib args = lr_call lib MDebug (Line args)"
definition log_Println :: "logrus \<Rightarrow> any_value list \<Rightarrow> Logger \<Rightarrow> Logger logged" where "log_Println lib args = lr_call lib MPrint (Line args)"
definition log_Infoln :: "logrus \<Rightarrow> any_value list \<Rightarrow> Logger \<Rightarrow> Logger logged" where "log_Infoln lib args = lr_call lib MInfo (Line args)"
definition log_Warnln :: "logrus \<Rightarrow> any_value list \<Rightarrow> Logger \<Rightarrow> Logger logged" where "log_Warnln lib args = lr_call lib MWarn (Line args)"
definition log_Warningln :: "logrus \<Rightarrow> any_value list \<Rightarrow> Logger \<Rightarrow> Logger logged" where "log_Warningln lib args = lr_call lib MWarning (Line args)"
definition log_Errorln :: "logrus \<Rightarrow> any_value list \<Rightarrow> Logger \<Rightarrow> Logger logged" where "log_Errorln lib args = lr_call lib MError (Line args)"
definition log_Panicln :: "logrus \<Rightarrow> any_value list \<Rightarrow> Logger \<Rightarrow> Logger logged" where "log_Panicln lib args = lr_call lib MPanic (Line args)"
definition log_Fatalln :: "logrus \<Rightarrow> any_value list \<Rightarrow> Logger \<Rightarrow> Logger logged" where "log_Fatalln lib args = lr_call lib MFatal (Line args)"

definition WithError :: "logrus \<Rightarrow> error \<Rightarrow> Entry" where "WithError lib err = lr_WithField lib (lr_ErrorKey lib) (AErr err)"
definition WithContext :: "logrus \<Rightarrow> nat \<Rightarrow> Entry" where "WithContext lib ctx = lr_WithContext lib ctx"
definition WithField :: "logrus \<Rightarrow> string \<Rightarrow> any_value \<Rightarrow> Entry" where "WithField lib key value = lr_WithField lib key value"
definition WithFields :: "logrus \<Rightarrow> (string \<rightharpoonup> any_value) \<Rightarrow> Entry" where "WithFields lib flds = lr_WithFields lib flds"
definition WithTime :: "logrus \<Rightarrow> go_time \<Rightarrow> Entry" where "WithTime lib t = lr_WithTime lib t"

text \<open>One call of any of them.\<close>

datatype log_call =
    CTrace "any_value list"
  | CTracef string "any_value list"
  | CTraceln "any_value list"
  | CDebug "any_value list"
  | CDebugf string "any_value list"
  | CDebugln "any_value list"
  | CPrint "any_value list"
  | CPrintf string "any_value list"
  | CPrintln "any_value list"
  | CInfo "any_value list"
  | CInfof string "any_value list"
  | CInfoln "any_value list"
  | CWarn "any_value list"
  | CWarnf string "any_value list"
  | CWarnln "any_value list"
  | CWarning "any_value list"
  | CWarningf string "any_value list"
  | CWarningln "any_value list"
  | CError "any_value list"
  | CErrorf string "any_value list"
  | CErrorln "any_value list"
  | CPanic "any_value list"
  | CPanicf string "any_value list"
  | CPanicln "any_value list"
  | CFatal "any_value list"
  | CFatalf string "any_value list"
  | CFatalln "any_value list"

fun do_call :: "logrus \<Rightarrow> log_call \<Rightarrow> Logger \<Rightarrow> Logger logged" where
  "do_call lib (CTrace as) = log_Trace lib as"
| "do_call lib (CTracef s as) = log_Tracef lib s as"
| "do_call lib (CTraceln as) = log_Traceln lib as"
| "do_call lib (CDebug as) = log_Debug lib as"
| "do_call lib (CDebugf s as) = log_Debugf lib s as"
| "do_call lib (CDebugln as) = log_Debugln lib as"
| "do_call lib (CPrint as) = log_Print lib as"
| "do_call lib (CPrintf s as) = log_Printf lib s as"
| "do_call lib (CPrintln as) = log_Println lib as"
| "do_call lib (CInfo as) = log_Info lib as"
| "do_call lib (CInfof s as) = log_Infof lib s as"
| "do_call lib (CInfoln as) = log_Infoln lib as"
| "do_call lib (CWarn as) = log_Warn lib as"
| "do_call lib (CWarnf s as) = log_Warnf lib s as"
| "do_call lib (CWarnln as) = log_Warnln lib as"
| "do_call lib (CWarning as) = log_Warning lib as"
| "do_call lib (CWarningf s as) = log_Warningf lib s as"
| "do_call lib (CWarningln as) = log_Warningln lib as"
| "do_call lib (CError as) = log_Error lib as"
| "do_call lib (CErrorf s as) = log_Errorf lib s as"
| "do_call lib (CErrorln as) = log_Errorln lib as"
| "do_call lib (CPanic as) = log_Panic lib as"
| "do_call lib (CPanicf s as) = log_Panicf lib s as"
| "do_call lib (CPanicln as) = log_Panicln lib as"
| "do_call lib (CFatal as) = log_Fatal lib as"
| "do_call lib (CFatalf s as) = log_Fatalf lib s as"
| "do_call lib (CFatalln as) = log_Fatalln lib as"

text \<open>The level the documentation of each function names, and what it passes on.\<close>

fun method_level :: "log_method \<Rightarrow> level" where
  "method_level MTrace = TraceLevel"
| "method_level MDebug = DebugLevel"
| "method_level MPrint = InfoLevel"
| "method_level MInfo = InfoLevel"
| "method_level MWarn = WarnLevel"
| "method_level MWarning = WarnLevel"
| "method_level MError = ErrorLevel"
| "method_level MPanic = PanicLevel"
| "method_level MFatal = FatalLevel"

fun call_line :: "log_call \<Rightarrow> level \<times> message" where
  "call_line (CTrace as) = (TraceLevel, Args as)"
| "call_line (CTracef s as) = (TraceLevel, Format s as)"
| "call_line (CTraceln as) = (TraceLevel, Line as)"
| "call_line (CDebug as) = (DebugLevel, Args as)"
| "call_line (CDebugf s as) = (DebugLevel, Format s as)"
| "call_line (CDebugln as) = (DebugLevel, Line as)"
| "call_line (CPrint as) = (InfoLevel, Args as)"
| "call_line (CPrintf s as) = (InfoLevel, Format s as)"
| "call_line (CPrintln as) = (InfoLevel, Line as)"
| "call_line (CInfo as) = (InfoLevel, Args as)"
| "call_line (CInfof s as) = (InfoLevel, Format s as)"
| "call_line (CInfoln as) = (InfoLevel, Line as)"
| "call_line (CWarn as) = (WarnLevel, Args as)"
| "call_line (CWarnf s as) = (WarnLevel, Format s as)"
| "call_line (CWarnln as) = (WarnLevel, Line as)"
| "call_line (CWarning as) = (WarnLevel, Args as)"
| "call_line (CWarningf s as) = (WarnLevel, Format s as)"
| "call_line (CWarningln as) = (WarnLevel, Line as)"
| "call_line (CError as) = (ErrorLevel, Args as)"
| "call_line (CErrorf s as) = (ErrorLevel, Format s as)"
| "call_line (CErrorln as) = (ErrorLevel, Line as)"
| "call_line (CPanic as) = (PanicLevel, Args as)"
| "call_line (CPanicf s as) = (PanicLevel, Format s as)"
| "call_line (CPanicln as) = (PanicLevel, Line as)"
| "call_line (CFatal as) = (FatalLevel, Args as)"
| "call_line (CFatalf s as) = (FatalLevel, Format s as)"
| "call_line (CFatalln as) = (FatalLevel, Line as)"

text \<open>Calls one after the other, until one panics or ends the process.\<close>

fun do_calls :: "logrus \<Rightarrow> log_call list \<Rightarrow> Logger \<Rightarrow> Logger logged" where
  "do_calls lib [] lg = Continues lg"
| "do_calls lib (c # cs) lg = (case do_call lib c lg of Continues lg' \<Rightarrow> do_calls lib cs lg' | r \<Rightarrow> r)"

subsection \<open>What the library documents\<close>

text \<open>
  A line of an enabled level goes to the output and to the file of every hook that names the
  level; a line of another level goes nowhere. \<open>Panic\<close> panics after logging and \<open>Fatal\<close> ends the
  process, whatever the level.
\<close>

fun severity :: "level \<Rightarrow> nat" where
  "severity PanicLevel = 0"
| "severity FatalLevel = 1"
| "severity ErrorLevel = 2"
| "severity WarnLevel = 3"
| "severity InfoLevel = 4"
| "severity DebugLevel = 5"
| "severity TraceLevel = 6"

definition enabled :: "level \<Rightarrow> level \<Rightarrow> bool" where
  "enabled l k \<longleftrightarrow> severity k \<le> severity l"

definition hook_line :: "level \<times> message \<Rightarrow> hook \<Rightarrow> hook" where
  "hook_line ln h = (if fst ln \<in> set (hk_levels h) then h\<lparr>hk_lines := hk_lines h @ [ln]\<rparr> else h)"

definition put_line :: "level \<times> message \<Rightarrow> Logger \<Rightarrow> Logger" where
  "put_line ln lg = (if enabled (lg_level lg) (fst ln)
     then lg\<lparr>lg_lines := lg_lines lg @ [ln], lg_hooks := map (hook_line ln) (lg_hooks lg)\<rparr> else lg)"

text \<open>The calls that are made: those up to the first that panics or ends the process.\<close>

definition ends :: "log_call \<Rightarrow> bool" where
  "ends c \<longleftrightarrow> fst (call_line c) \<in> {PanicLevel, FatalLevel}"

fun made :: "log_call list \<Rightarrow> log_call list" where
  "made [] = []"
| "made (c # cs) = (if ends c then [c] else c # made cs)"

locale logrus_library =
  fixes lib :: logrus
  assumes line: "logged_state (lr_call lib m msg lg) = put_line (method_level m, msg) lg"
    and panics: "(\<exists>l. lr_call lib m msg lg = Panics l) \<longleftrightarrow> m = MPanic"
    and exits: "(\<exists>l. lr_call lib m msg lg = Exits l) \<longleftrightarrow> m = MFatal"
    and field: "lr_WithField lib k v = \<lparr>en_Data = [k \<mapsto> v], en_Time = None, en_Context = None\<rparr>"
    and all_fields: "lr_WithFields lib d = \<lparr>en_Data = d, en_Time = None, en_Context = None\<rparr>"
begin

lemma call_state: "logged_state (do_call lib c lg) = put_line (call_line c) lg"
  by (cases "(lib, c)" rule: do_call.cases)
    (simp_all add: line log_Trace_def log_Debug_def log_Print_def log_Info_def log_Warn_def log_Warning_def log_Error_def
      log_Panic_def log_Fatal_def log_Tracef_def log_Debugf_def log_Printf_def log_Infof_def log_Warnf_def log_Warningf_def
      log_Errorf_def log_Panicf_def log_Fatalf_def log_Traceln_def log_Debugln_def log_Println_def log_Infoln_def
      log_Warnln_def log_Warningln_def log_Errorln_def log_Panicln_def log_Fatalln_def)

lemma method_continues: "m \<noteq> MPanic \<Longrightarrow> m \<noteq> MFatal \<Longrightarrow> lr_call lib m msg lg = Continues (put_line (method_level m, msg) lg)"
  using panics [of m msg lg] exits [of m msg lg] line [of m msg lg] by (cases "lr_call lib m msg lg") auto

lemma call_continues: "\<not> ends c \<Longrightarrow> do_call lib c lg = Continues (put_line (call_line c) lg)"
  by (cases "(lib, c)" rule: do_call.cases)
    (simp_all add: ends_def method_continues log_Trace_def log_Debug_def log_Print_def log_Info_def log_Warn_def log_Warning_def log_Error_def
      log_Tracef_def log_Debugf_def log_Printf_def log_Infof_def log_Warnf_def log_Warningf_def
      log_Errorf_def log_Traceln_def log_Debugln_def log_Println_def log_Infoln_def
      log_Warnln_def log_Warningln_def log_Errorln_def)

lemma one_field: "WithField lib k v = WithFields lib [k \<mapsto> v]" "WithError lib err = WithFields lib [lr_ErrorKey lib \<mapsto> AErr err]"
  by (simp_all add: WithField_def WithError_def WithFields_def field all_fields)

lemma method_ends: "m = MPanic \<or> m = MFatal \<Longrightarrow> \<nexists>l. lr_call lib m msg lg = Continues l"
  using panics [of m msg lg] exits [of m msg lg] by (cases "lr_call lib m msg lg") auto

lemma call_ends: "ends c \<Longrightarrow> \<nexists>l. do_call lib c lg = Continues l"
  by (cases "(lib, c)" rule: do_call.cases)
    (simp_all add: ends_def method_ends log_Panic_def log_Fatal_def log_Panicf_def log_Fatalf_def log_Panicln_def log_Fatalln_def
      del: not_ex)

lemma calls_state: "logged_state (do_calls lib cs lg) = fold put_line (map call_line (made cs)) lg"
proof (induction cs arbitrary: lg)
  case (Cons c cs)
  show ?case
  proof (cases "ends c")
    case True
    with call_state [of c lg] call_ends [of c lg] show ?thesis by (cases "do_call lib c lg") auto
  next
    case False
    with Cons.IH show ?thesis by (simp add: call_continues)
  qed
qed simp

end

lemma put_lines_hooks:
  "lg_hooks (fold put_line lns lg) = map (\<lambda>h. h\<lparr>hk_lines := hk_lines h
     @ filter (\<lambda>ln. enabled (lg_level lg) (fst ln) \<and> fst ln \<in> set (hk_levels h)) lns\<rparr>) (lg_hooks lg)
   \<and> lg_level (fold put_line lns lg) = lg_level lg"
proof (induction lns arbitrary: lg)
  case (Cons ln lns)
  have l: "lg_level (put_line ln lg) = lg_level lg" by (simp add: put_line_def)
  show ?case using Cons.IH [of "put_line ln lg"] l
    by (simp add: put_line_def hook_line_def)
qed simp

subsection \<open>A library as documented\<close>

definition plain_logrus :: logrus where
  "plain_logrus = \<lparr>
     lr_call = (\<lambda>m msg lg. let lg' = put_line (method_level m, msg) lg
       in if m = MPanic then Panics lg' else if m = MFatal then Exits lg' else Continues lg'),
     lr_ErrorKey = ''error'',
     lr_WithField = (\<lambda>k v. \<lparr>en_Data = [k \<mapsto> v], en_Time = None, en_Context = None\<rparr>),
     lr_WithFields = (\<lambda>d. \<lparr>en_Data = d, en_Time = None, en_Context = None\<rparr>),
     lr_WithContext = (\<lambda>x. \<lparr>en_Data = Map.empty, en_Time = None, en_Context = Some x\<rparr>),
     lr_WithTime = (\<lambda>t. \<lparr>en_Data = Map.empty, en_Time = Some t, en_Context = None\<rparr>)\<rparr>"

interpretation plainlog: logrus_library plain_logrus
  by unfold_locales (auto simp: plain_logrus_def Let_def)

subsection \<open>What reaches the log file\<close>

definition banner :: "level \<times> message" where
  "banner = (InfoLevel, Args [AStr ''***********This is logrus*************''])"

definition kept_lines :: "level \<Rightarrow> level set \<Rightarrow> (level \<times> message) list \<Rightarrow> (level \<times> message) list" where
  "kept_lines l ls lns = filter (\<lambda>ln. enabled l (fst ln) \<and> fst ln \<in> ls) lns"

context logrus_library
begin

lemma daily_file:
  assumes "\<And>w. new_writer w = None" "lg_hooks lg = []" "parse lv = Inr l"
    and "InitDailyRolling lib parse new_writer f (opts @ [WithLevel lv]) lg = (e, lg1)"
  shows "e = None \<and> map hk_lines (lg_hooks (logged_state (do_calls lib cs lg1)))
    = [kept_lines l {InfoLevel, WarnLevel, ErrorLevel, FatalLevel, PanicLevel} (banner # map call_line (made cs))]"
proof -
  let ?o = "fold (\<lambda>opt. opt) opts default_options"
  let ?h = "\<lparr>hk_levels = [InfoLevel, WarnLevel, ErrorLevel, FatalLevel, PanicLevel],
    hk_writer = \<lparr>ro_pattern = f @ ''.%Y%m%d'', ro_link = f, ro_time = Hour * 24, ro_count = uint64_of (op_RotationCount ?o)\<rparr>,
    hk_formatter = format_of (op_Format ?o), hk_lines = []\<rparr>"
  have "InitDailyRolling lib parse new_writer f (opts @ [WithLevel lv]) lg
      = (None, put_line banner (lg\<lparr>lg_level := l, lg_hooks := [?h]\<rparr>))"
    using assms(2,3) by (simp add: InitDailyRolling_def assms(1) Let_def SetLevel_def WithLevel_def line banner_def)
  with assms(4) have lg1: "e = None" "lg1 = put_line banner (lg\<lparr>lg_level := l, lg_hooks := [?h]\<rparr>)" by simp_all
  have "logged_state (do_calls lib cs lg1) = fold put_line (banner # map call_line (made cs)) (lg\<lparr>lg_level := l, lg_hooks := [?h]\<rparr>)"
    by (simp add: calls_state lg1(2))
  then show ?thesis using put_lines_hooks [of "banner # map call_line (made cs)" "lg\<lparr>lg_level := l, lg_hooks := [?h]\<rparr>"] lg1(1)
    by (simp add: kept_lines_def del: fold_Cons)
qed

lemma settings_file:
  assumes "\<And>w. new_writer w = None" "lg_hooks lg = []" "parse (st_Level st) = Inr l" "st_Level st \<noteq> []" "st_Filename st \<noteq> []"
    and "Init lib parse new_writer st lg = (e, lg1)"
  shows "e = None \<and> map hk_lines (lg_hooks (logged_state (do_calls lib cs lg1)))
    = [kept_lines l {DebugLevel, InfoLevel, WarnLevel, ErrorLevel} (map call_line (made cs))]"
proof -
  have lg1: "e = None" "lg_level lg1 = l" "map hk_levels (lg_hooks lg1) = [[DebugLevel, InfoLevel, WarnLevel, ErrorLevel]]"
    "map hk_lines (lg_hooks lg1) = [[]]"
    using assms(6) by (auto simp: Init_def assms(1-5) Let_def)
  then obtain h where h: "lg_hooks lg1 = [h]" "hk_levels h = [DebugLevel, InfoLevel, WarnLevel, ErrorLevel]" "hk_lines h = []"
    by auto
  show ?thesis using put_lines_hooks [of "map call_line (made cs)" lg1] lg1(1,2) h
    by (simp add: kept_lines_def calls_state)
qed

end

text \<open>
  C40: which lines are in the log file, after any calls of the logging functions up to one that
  panics or ends the process: with \<open>InitDailyRolling\<close> the lines of the enabled levels from \<open>Info\<close>
  up, in order, after its banner, but no debug or trace line even when these levels are enabled;
  with \<open>Init\<close> the enabled lines of the levels \<open>Debug\<close> to \<open>Error\<close>, but never the line of a fatal call or a
  panic, the one that says why the process ended.
\<close>

theorem log_files:
  assumes "logrus_library lib" and "\<And>w. new_writer w = None" and "lg_hooks lg = []" and "parse lv = Inr l"
    and "lv \<noteq> []" and "f \<noteq> []"
    and "InitDailyRolling lib parse new_writer f (opts @ [WithLevel lv]) lg = (e1, lg1)"
    and "Init lib parse new_writer \<lparr>st_Filename = f, st_Level = lv, st_RollingDays = d, st_Format = fmt, st_Caller = cl\<rparr> lg = (e2, lg2)"
  shows "e1 = None \<and> e2 = None
    \<and> map hk_lines (lg_hooks (logged_state (do_calls lib cs lg1)))
      = [kept_lines l {InfoLevel, WarnLevel, ErrorLevel, FatalLevel, PanicLevel} (banner # map call_line (made cs))]
    \<and> map hk_lines (lg_hooks (logged_state (do_calls lib cs lg2)))
      = [kept_lines l {DebugLevel, InfoLevel, WarnLevel, ErrorLevel} (map call_line (made cs))]"
  using logrus_library.daily_file [where cs = cs, OF assms(1,2,3,4,7)]
    logrus_library.settings_file [where cs = cs, OF assms(1,2,3) _ _ _ assms(8)] assms(4-6) by simp

definition new_logger :: Logger where
  "new_logger = \<lparr>lg_level = InfoLevel, lg_caller = False, lg_formatter = TextFormatter, lg_hooks = [], lg_lines = []\<rparr>"

text \<open>A debug line is missing from the first file, the fatal line from the second.\<close>

theorem log_files_witness:
  "\<exists>lg1 lg2. map hk_lines (lg_hooks (logged_state (do_calls plain_logrus [CDebug [AInt 1], CFatalln [AInt 2], CInfo []] lg1)))
      = [[banner, (FatalLevel, Line [AInt 2])]]
    \<and> map hk_lines (lg_hooks (logged_state (do_calls plain_logrus [CDebug [AInt 1], CFatalln [AInt 2], CInfo []] lg2)))
      = [[(DebugLevel, Args [AInt 1])]]
    \<and> InitDailyRolling plain_logrus (\<lambda>_. Inr DebugLevel) (\<lambda>_. None) ''f'' [WithLevel ''debug''] new_logger = (None, lg1)
    \<and> Init plain_logrus (\<lambda>_. Inr DebugLevel) (\<lambda>_. None)
        \<lparr>st_Filename = ''f'', st_Level = ''debug'', st_RollingDays = 0, st_Format = ''json'', st_Caller = False\<rparr> new_logger = (None, lg2)"
proof -
  let ?d = "InitDailyRolling plain_logrus (\<lambda>_. Inr DebugLevel) (\<lambda>_. None) ''f'' ([] @ [WithLevel ''debug'']) new_logger"
  let ?i = "Init plain_logrus (\<lambda>_. Inr DebugLevel) (\<lambda>_. None)
        \<lparr>st_Filename = ''f'', st_Level = ''debug'', st_RollingDays = 0, st_Format = ''json'', st_Caller = False\<rparr> new_logger"
  have h: "lg_hooks new_logger = []" by (simp add: new_logger_def)
  have "?d = (fst ?d, snd ?d)" "?i = (fst ?i, snd ?i)" by simp_all
  from log_files [OF plainlog.logrus_library_axioms refl h refl _ _ this, of "[CDebug [AInt 1], CFatalln [AInt 2], CInfo []]"]
  show ?thesis
    by (intro exI [of _ "snd ?d"] exI [of _ "snd ?i"]) (auto simp: prod_eq_iff kept_lines_def enabled_def ends_def banner_def)
qed

text \<open>
  The files of \<open>InitDailyRolling\<close> without options are kept three days, although its comment says
  seven; \<open>Init\<close> keeps seven. With options the last one of each kind counts, and a negative
  rotation count becomes a huge one.
\<close>

lemma last_writer: "lg_hooks lg = hs @ [h] \<Longrightarrow> hk_writer (last (lg_hooks (put_line ln lg))) = hk_writer h"
  by (simp add: put_line_def hook_line_def)

theorem rolling_defaults:
  assumes "logrus_library lib" and "\<And>w. new_writer w = None" and "settings = \<lparr>st_Filename = f, st_Level = [], st_RollingDays = 0, st_Format = ''json'', st_Caller = False\<rparr>"
    and "f \<noteq> []"
  shows "ro_count (hk_writer (last (lg_hooks (snd (InitDailyRolling lib parse new_writer f [] lg))))) = 3
    \<and> ro_count (hk_writer (last (lg_hooks (snd (Init lib parse new_writer settings lg))))) = 7
    \<and> ro_count (hk_writer (last (lg_hooks (snd (InitDailyRolling lib parse new_writer f (opts @ [WithRotationCount (- 1)]) lg))))) = 2 ^ 64 - 1"
  using assms(4) by (simp add: InitDailyRolling_def Init_def assms(2,3) Let_def default_options_def uint64_of_def WithRotationCount_def
    logrus_library.line [OF assms(1)] last_writer)

end
