(* ===== verification/Spec2Isabelle.thy ===== *)
theory Spec2Isabelle
  imports End_To_End Commands Mock_Demo Lock_Runs Logger_Setup
begin

text \<open>
  \<^bold>\<open>A verification of kupool\<close>, a server that hands out proof-of-work jobs and counts the work
  its clients submit, written in Go. A client connects over TCP, authorises with a user name and
  receives a job (a number and a server nonce) each time a ticker fires. It answers with a client
  nonce and the hexadecimal SHA-256 digest of the two nonces; the server checks the answer, records the
  nonce in the session, saves it, and publishes an event on a message queue. A goroutine takes
  events off the queue and counts submissions per user and minute. Queue and store exist in
  memory and on RabbitMQ and PostgreSQL; a websocket transport stands beside the TCP one.

  \<^bold>\<open>Theories and sources.\<close>
  \<^item> \<open>Prelude\<close>: byte strings, 64-bit integers, error values, \<open>outcome\<close> (a call returns, blocks or
    panics), hexadecimal text, case folding, and the rule collections of the development.
  \<^item> \<open>Go_Chan\<close>, \<open>Go_Time\<close>, \<open>Go_Json\<close>, \<open>Json_Print\<close>, \<open>Go_Decimal\<close>, \<open>Go_Duration\<close>, \<open>Go_Calendar\<close>,
    \<open>Go_Rfc3339\<close>, \<open>Sha256\<close>: the parts of Go's runtime and standard library the program uses (buffered
    channels, \<open>sync.Once\<close>, times with location and monotonic reading, the JSON scanner and printer,
    decimal numbers, the syntax of durations, the calendar and times in RFC 3339, the hash);
    \<open>Go_Chan\<close> also has \<open>event.go\<close>.
  \<^item> \<open>Wire\<close> (\<open>wire/endian/helper.go\<close>) and \<open>Framing\<close> (\<open>tcp/connection.go\<close>): bytes on a connection.
  \<^item> \<open>Connection\<close> (the interfaces \<open>Conn\<close> and \<open>Frame\<close> of \<open>server.go\<close>, with TCP) and \<open>Ws_Frames\<close>
    (\<open>websocket/connection.go\<close>): connections that carry frames.
  \<^item> \<open>Channel\<close> (\<open>channel.go\<close>, \<open>channels.go\<close>): one connected peer over any such connection, and the
    table of peers.
  \<^item> \<open>Protocol\<close> (\<open>protocol/message.go\<close>): messages as JSON, both directions.
  \<^item> \<open>Types\<close> (\<open>app/server/types.go\<close>, \<open>events/events.go\<close>): sessions, the coordinator's state, interfaces.
  \<^item> \<open>Queue\<close> (\<open>mq/memory.go\<close>), \<open>Rabbit_Queue\<close> (\<open>mq/rabbitmq.go\<close>), \<open>Store\<close> (\<open>stats/memory.go\<close>),
    \<open>Pg_Store\<close> (\<open>stats/pg.go\<close>): the implementations of the queue and the store; \<open>Event_Json\<close>: the JSON
    text of the events that travel through RabbitMQ.
  \<^item> \<open>Coordination\<close> (\<open>app/server/coordinator.go\<close>), \<open>Listener\<close> (\<open>app/server/listener.go\<close>), \<open>Acceptor\<close>
    (\<open>app/server/acceptor.go\<close>): jobs, submissions, handshakes.
  \<^item> \<open>Tcp_Server\<close> (\<open>tcp/server.go\<close>), \<open>Tcp_Client\<close> (\<open>tcp/client.go\<close>), \<open>Ws_Transport\<close> (\<open>websocket/client.go\<close>,
    \<open>websocket/server.go\<close>): the transports; \<open>Servers\<close>: both behind the interface \<open>Server\<close> of \<open>server.go\<close>;
    \<open>Ws_Delivery\<close>: websocket client and server joined by their bytes; \<open>Clients\<close>: both clients behind the
    interface \<open>Client\<close>.
  \<^item> \<open>App_Server\<close> (\<open>app/server/server.go\<close>), \<open>App_Client\<close> (\<open>app/client/client.go\<close>), \<open>Commands\<close>
    (\<open>cmd/kupool-server/main.go\<close>, \<open>cmd/kupool-client/main.go\<close>), \<open>Logger_Setup\<close> (\<open>logger/*.go\<close>): the
    programs assembled from the parts; \<open>Mock_Demo\<close> (\<open>examples/mock/*.go\<close>): a demonstration client and
    server on either transport.
  \<^item> \<open>Server_Runs\<close>, \<open>End_To_End\<close> and this theory: runs of the whole server as interleavings of the
    operations of its goroutines, on any store and queue, and client and server joined by their bytes;
    \<open>Lock_Runs\<close>: finer runs, with the coordinator's mutex and the single pushes of a broadcast.

  \<^bold>\<open>State.\<close> A struct is a record with the source's fields. The coordinator holds the objects
  behind its interfaces in \<open>srv_obj\<close> (transport), \<open>backend\<close> (store) and \<open>mq_obj\<close> (queue), and the
  method tables beside them, so an operation is a function from the coordinator to an \<open>outcome\<close>
  with the next one. A Go map is a partial function; where the code ranges over one, the order of
  the visit is an argument and the theorems hold for every order. Readings of the clock and
  random bytes are arguments, one per call in the source. Code under one hold of a mutex is
  one step; where the code works outside the mutex the interleaving is explicit: the write loop
  has a program counter, the split of \<open>handleSubmit\<close> at its unlock is \<open>submit_commit\<close>, and in \<open>Lock_Runs\<close>
  the holder of the mutex, the submissions past their lookup and the handshakes past their
  registration are part of the state.

  \<^bold>\<open>Interfaces.\<close> Each contract is a locale, interpreted on the code's model:
  \<open>stream_codec\<close> (every integer and byte-string format, and frames), \<open>fifo\<close> (Go channels and the
  in-memory queue), \<open>message_codec\<close> (the five message types), \<open>channel_map\<close> (the table of
  channels), \<open>stats_store\<close> and \<open>state_store\<close> (the in-memory store), \<open>frame_conn\<close> (connections, TCP and
  websocket), \<open>pusher\<close> and its extension \<open>server\<close> (TCP and websocket server), \<open>client_link\<close>, which extends
  \<open>frame_conn\<close> (TCP and websocket client). Three locales state what
  third-party code documents: \<open>postgres\<close> what the SQL statements of \<open>stats/pg.go\<close> do, \<open>ws_library\<close> that
  frames travel in the format of RFC 6455, \<open>logrus_library\<close> where a logged line goes. Each is interpreted
  on an implementation written from that description, which shows the laws to be consistent, and
  \<open>ws_library\<close> is a sublocale of \<open>frame_conn\<close>, so everything proved of channels holds over websockets.

  \<^bold>\<open>What is shown.\<close>
  \<^item> Runs: accepted submissions of a session are distinct and a second apart and jobs are numbered
    upwards, on any store and queue; on the in-memory ones accepted submissions carry the digest of
    an issued nonce and are counted once each; a restart goes on.
  \<^item> Submissions: \<open>handleSubmit\<close> refines an abstract \<open>verdict\<close> on every branch, and a request gets
    exactly one answer. Handshakes: exactly which first frames are accepted and what is registered.
  \<^item> Joined: the bytes the client writes are accepted by the server, and the client answers a
    broadcast job with one well-formed submission.
  \<^item> Transport: frames and messages round trip, a broken write never yields a frame, payloads
    leave a channel in the order pushed, the write loop empties its queue in a known number of
    steps, the tables stay well formed, a broadcast returns unless a queue is full; what a websocket
    client sends is what the server hands on, and what the server pushes is what the client reads;
    the demonstration programs agree on the bytes they exchange.
  \<^item> Stores and queues: counting equals counting the list of increments; the queues deliver in
    order; the database loads what was saved and agrees with the in-memory history; durations and
    times are read back from their text.
  \<^item> Defects the model exhibits are theorems too: the PostgreSQL count stops at 2, \<open>main\<close> closes only one channel,
    a reconnection or a race lets a submission count twice, a pong can garble a frame, closing
    RabbitMQ twice panics, an \<open>Accept\<close> error panics, a write error ends in a blocked broadcast that
    stops the whole server, a failed listen goes unnoticed, a minute asked for in UTC is reported as
    0, the log file lacks the fatal line.

  \<^bold>\<open>Bounds.\<close> There is no fuel. \<open>Readloop\<close> and \<open>receive_loop\<close>, which need not end over an arbitrary
  connection, are a \<open>partial_function\<close> into \<open>option\<close>; that they return is part of the theorems about them.
  A loop that waits for events (\<open>run_loop\<close>, \<open>accept_loop\<close>, \<open>coord_loop\<close>, \<open>consumer\<close>, \<open>on_deliveries\<close>) is a
  recursion over the list of events it receives, and a theorem quantifies over all such lists; the state of a loop that has
  used up its events is that of a goroutine waiting for the next one. Integers have the width of the source (\<open>int64\<close> wraps, lengths
  are 16 and 32 bit). The capacities are the code's: 5 payloads per channel, 1024 deliveries from RabbitMQ, the
  size given to \<open>NewMemoryQueue\<close>.

  \<^bold>\<open>Parameters.\<close> Third-party code is an argument of the definitions that use it: gorm and
  PostgreSQL, the AMQP library and broker, the websocket library, the logging library. The
  hypotheses about it are the three locales above and the premises of the theorems. The local time
  zone is an argument too, a function from an instant to its offset.

  \<^bold>\<open>Not modelled.\<close> The calls of the logger inside the other components (the logger itself is); the
  HTTP server and signal delivery around the modelled handlers and \<open>main_stop\<close>; the default acceptor's
  third-party identifier, which is an argument; the passing of deadlines, except that a timeout is
  one of the errors a connection may end with; the command line of \<open>examples/main.go\<close>; the unsynchronised
  memory accesses of two goroutines, except where the code's own steps interleave (a submission past
  its lookup, a push against a close, a pong against a frame).
\<close>

section \<open>Runs of the server\<close>



text \<open>
  C2: in every run, an accepted submission carries the digest of its client nonce after a
  server nonce that the server itself has issued as a job (or after the empty nonce, see the
  property on fresh sessions), compared without regard to case.
\<close>

theorem accepted_work_vouched:
  assumes "app_run (fresh_app with_state addr sz interval expire hw) tr a" and "LOutside \<notin> set tr" and "LAccept i p u t \<in> set tr"
  shows "\<exists>n \<in> issued tr. EqualFold (submit_hash n (sub_ClientNonce p)) (sub_Result p)"
  using nonce_inv_run [OF assms(1) refl assms(2)] assms(3) by (auto simp: list_all_iff vouched_def)

theorem accepted_work_vouched_witness:
  "\<exists>n \<in> issued [LOpen ''01'', LTick tick1, LAccept ''01'' submit1 ''bob'' minute1].
     EqualFold (submit_hash n (sub_ClientNonce submit1)) (sub_Result submit1)"
proof -
  obtain b where "app_run app0 [LOpen ''01'', LTick tick1, LAccept ''01'' submit1 ''bob'' minute1] b" using sample_run by blast
  from accepted_work_vouched [OF this [unfolded app0_def], of "''01''" submit1 "''bob''" minute1] show ?thesis by simp
qed



text \<open>
  C13: on any store and queue, from any state of the server (a new one, or one that has restored
  its jobs), the jobs of a run are numbered upwards in the order of the ticks: the current number
  has grown by the number of ticks, each number issued is in the history with the nonce and the
  time of its own tick, and the rest of the history is as before (up to the largest \<open>int\<close>).
\<close>

theorem job_numbers:
  assumes "app_run a0 tr a" and "LRestore \<notin> set tr" and "filed_sessions (sessions (coord a0))"
    and "0 \<le> jobID (coord a0)" and "jobID (coord a0) + int (length (ticks_of tr)) \<le> MaxInt64"
  shows "jobID (coord a) = jobID (coord a0) + int (length (ticks_of tr))
    \<and> (\<forall>k < length (ticks_of tr). history (coord a) (jobID (coord a0) + int k + 1)
          = Some \<lparr>Nonce = EncodeToString (tk_buf (ticks_of tr ! k)), CreatedAt = tk_now (ticks_of tr ! k)\<rparr>)
    \<and> (\<forall>j. j \<le> jobID (coord a0) \<or> jobID (coord a) < j \<longrightarrow> history (coord a) j = history (coord a0) j)"
  using jobs_inv_run [OF assms(1,3,4,5,2)] by (auto simp: jobs_inv_def job_of_def nat_add_distrib)

theorem job_numbers_witness:
  "\<exists>a. jobID (coord (a :: mem_app)) = 1 \<and> history (coord a) 1 = Some \<lparr>Nonce = EncodeToString [2], CreatedAt = minute1\<rparr>"
proof -
  obtain b where "app_run app0 [LOpen ''01'', LTick tick1, LAccept ''01'' submit1 ''bob'' minute1] b" using sample_run by blast
  from job_numbers [OF this] show ?thesis
    by (auto simp: app0_def fresh_simps filed_sessions_def ticks_of_def MaxInt64_def tick1_def)
qed

section \<open>Restarts and reconnections\<close>

text \<open>
  C14: a restarted server goes on where the old one stopped. After a rotation has been saved, a
  new coordinator on the same store restores the job and its nonce, its history contains that
  job and only jobs that were saved, and its next job gets the next number. With history
  window 0 the whole saved history comes back, not only the latest job.
\<close>

theorem restart_continues:
  fixes c :: "('p, MemoryStore, 'q) Coordinator"
  assumes "state c = Some memory_state" and "old = rotateJob buf t t' c" and "0 < jobID old"
    and "new = restore now (NewCoordinator p po st (Some memory_state) (backend old) m mo interval expire hw)"
  shows "jobID new = jobID old \<and> serverNonce new = serverNonce old
    \<and> history new (jobID old) = Some \<lparr>Nonce = serverNonce old, CreatedAt = t'\<rparr>
    \<and> history new \<subseteq>\<^sub>m jobHist (backend old)
    \<and> jobID (rotateJob buf2 t2 t2' new) = int64 (jobID old + 1)
    \<and> (hw = 0 \<longrightarrow> history new = jobHist (backend old))"
proof -
  define d where "d = NewCoordinator p po st (Some memory_state) (backend old) m mo interval expire hw"
  have b: "backend old = snd (mem_SaveJob (jobID old) (serverNonce old) t' (backend c))"
    unfolding assms(2) memstate.rotate_saves [OF assms(1)] by (simp add: server_simps)
  have d: "state d = Some memory_state" "history d = Map.empty" "historyWindow d = hw" "backend d = backend old"
    by (simp_all add: d_def NewCoordinator_def)
  have l: "LoadLatestJob memory_state (backend d) = Inr (jobID old, serverNonce old, t')"
    unfolding d(4) b using memstate.latest_save by simp
  have j: "jobHist (backend d) (jobID old) = Some \<lparr>Nonce = serverNonce old, CreatedAt = t'\<rparr>"
    unfolding d(4) b using memstate.jobs_save by simp
  have n: "new = restore now d" by (simp add: assms(4) d_def)
  show ?thesis
    using memstate.restore_latest [OF d(1) l assms(3), of now] memstate.restore_history [OF d(1) l assms(3) j d(2), of now]
    unfolding n d(3,4) by (simp add: server_simps)
qed

theorem restart_continues_witness:
  "jobID (restore zero_time (NewCoordinator tcp_pusher (NewServer ''l'') memory_stats (Some memory_state)
      (backend (rotateJob [2] minute1 minute1 (coord app0))) memory_queue (NewMemoryQueue 1) Second 0 0)) = 1"
proof -
  have "state (coord app0) = Some memory_state" "jobID (rotateJob [2] minute1 minute1 (coord app0)) = 1"
    by (simp_all add: app0_def fresh_simps server_simps int64_def)
  with restart_continues [OF _ refl _ refl, of "coord app0" "[2]" minute1 minute1 zero_time tcp_pusher "NewServer ''l''"
      memory_stats memory_queue "NewMemoryQueue 1" Second 0 0 "[]" zero_time zero_time]
  show ?thesis by simp
qed

text \<open>
  C28: the duplicate check does not survive a reconnection. After a submission for the latest
  job has been accepted, the state store knows the nonce as used; yet when the user connects
  again on another channel, the same submission passes every check a second later.
\<close>

theorem reconnect_replays_nonce:
  assumes "wired a" and "state (coord a) = Some memory_state"
    and "handleSubmit i p ts now (coord a) = Ret (None, c')" and "sessions (coord a) i = Some s"
    and "sub_JobID p = LatestJobID s" and "k \<noteq> i" and "Second \<le> time_sub now2 now"
    and "d = restore_user k (Username s) (RegisterSession k (Username s) (UnregisterSession i c'))"
  shows "mem_HasUsedNonce (Username s) (sub_JobID p) (sub_ClientNonce p) (backend c') = Inr True
    \<and> verdict (sessions d k) p ts2 now2 d = None"
proof -
  obtain n where n: "job_nonce s (sub_JobID p) (coord a) = Some n" "EqualFold (submit_hash n (sub_ClientNonce p)) (sub_Result p)"
    "backend c' = backend (save_accepted (accepted_session s p n now) p (coord a))" "wired (a\<lparr>coord := c'\<rparr>)"
    by (rule accept_fields [OF assms(1,3,4)])
  let ?b1 = "snd (mem_SaveUsedNonce (Username s) (sub_JobID p) (sub_ClientNonce p) (backend (coord a)))"
  have b: "backend c' = snd (mem_SaveUserState (Username s) (LatestJobID s) n now ?b1)"
    unfolding n(3) using assms(2) by (simp add: save_accepted_def Let_def accepted_session_def)
  have "HasUsedNonce memory_state (Username s) (sub_JobID p) (sub_ClientNonce p) (backend c') = Inr True"
    unfolding b using memstate.used_load memstate.used_save memstate.used_frame by simp
  moreover have "LoadUserState memory_state (Username s) (backend c') = Inr (LatestJobID s, n, now)"
    unfolding b using memstate.load_user_after_save by simp
  moreover obtain r q where "c' = (save_accepted (accepted_session s p n now) p (put_session i (accepted_session s p n now) (coord a)))\<lparr>mq_obj := q\<rparr>"
    by (rule accepted_effect [OF assms(3)]) (use assms(4) n(1) in auto)
  then have "state c' = Some memory_state" using assms(2) by (simp add: server_simps)
  ultimately show ?thesis using assms(5-7) n(2)
    by (simp add: assms(8) restore_user_def RegisterSession_def UnregisterSession_def NewSession_def server_simps put_session_def
        verdict_def job_nonce_def job_expired_def too_soon_def nonces_of_def)
qed

theorem reconnect_replays_nonce_witness:
  "\<exists>(c' :: (TcpServer, MemoryStore, MemoryQueue) Coordinator) d. mem_HasUsedNonce ''bob'' 1 ''aa'' (backend c') = Inr True
    \<and> d = restore_user ''03'' ''bob'' (RegisterSession ''03'' ''bob'' (UnregisterSession ''01'' c'))
    \<and> verdict (sessions d ''03'') submit1 minute1 (time_add minute1 Second) d = None"
proof -
  obtain a where a: "wired a" "sessions (coord a) ''01'' = Some bob_session" "mq (coord a) = memory_queue"
    "mq_obj (coord a) = NewMemoryQueue 4" "state (coord a) = Some memory_state" by (rule sample_ticked) blast
  obtain c' where h: "handleSubmit ''01'' submit1 minute1 minute1 (coord a) = Ret (None, c')"
    by (rule sample_submit [OF submit1_verdict [OF a(2)] a(2-4)])
  have "Second \<le> time_sub (time_add minute1 Second) minute1" by (simp add: minute1_def time_add_def time_sub_def durations clamp64_def MinInt64_def MaxInt64_def)
  from reconnect_replays_nonce [OF a(1,5) h a(2) _ _ this refl, of "''03''" minute1] show ?thesis
    by (auto simp: submit1_def)
qed

section \<open>Two goroutines on one session\<close>

text \<open>
  The second half of \<open>handleSubmit\<close> runs without the mutex, and every message is handled in
  its own goroutine. \<open>submit_commit\<close> is what a handler does once its checks have passed, on
  the session as it is then.
\<close>

definition submit_commit :: "string \<Rightarrow> SubmitParams \<Rightarrow> string \<Rightarrow> go_time \<Rightarrow> ('p, 's, 'q) Coordinator
    \<Rightarrow> ('p, 's, 'q) Coordinator outcome" where
  "submit_commit i p n now c =
     (case sessions c i of
        None \<Rightarrow> Ret c
      | Some s \<Rightarrow> publish_event \<lparr>ev_Username = Username s, ev_Time = now\<rparr>
          (save_accepted (accepted_session s p n now) p (put_session i (accepted_session s p n now) c)))"

text \<open>
  C29: the handler is not atomic, and the checks can be overtaken. When one submission passes
  the checks, a second identical one that is checked before the first is recorded passes them
  too; both are then recorded and both are published, so the same work is counted twice.
\<close>

theorem concurrent_duplicate_counted_twice:
  assumes "wired a" and "verdict (sessions (coord a) i) p ts now (coord a) = None"
    and "length (mq_pending (mq_obj (coord a))) + 2 \<le> ccap (mq_ch (mq_obj (coord a)))"
  shows "\<exists>n u c1 c2. handleSubmit i p ts now (coord a) = Ret (None, c1)
    \<and> submit_commit i p n now (coord a) = Ret c1 \<and> submit_commit i p n now c1 = Ret c2
    \<and> mq_pending (mq_obj c2) = mq_pending (mq_obj (coord a)) @ [\<lparr>ev_Username = u, ev_Time = now\<rparr>, \<lparr>ev_Username = u, ev_Time = now\<rparr>]"
proof -
  let ?q = "mq_obj (coord a)"
  obtain s n where s: "sessions (coord a) i = Some s" and h: "handleSubmit i p ts now (coord a) =
      (case publish_event \<lparr>ev_Username = Username s, ev_Time = now\<rparr>
          (save_accepted (accepted_session s p n now) p (put_session i (accepted_session s p n now) (coord a))) of
         Ret c2 \<Rightarrow> Ret (None, c2) | Block \<Rightarrow> Block | Panic \<Rightarrow> Panic)"
    by (rule handleSubmit_accepts [OF assms(2)]) blast
  let ?e = "\<lparr>ev_Username = Username s, ev_Time = now\<rparr>"
  define x1 where "x1 = save_accepted (accepted_session s p n now) p (put_session i (accepted_session s p n now) (coord a))"
  have w: "mq (coord a) = memory_queue" "mq_inv ?q" "\<not> mq_closed ?q" using assms(1) by (auto simp: wired_def)
  obtain q1 where q1: "mem_Publish ?e ?q = Ret (None, q1)" "ccap (mq_ch q1) = ccap (mq_ch ?q)"
    using mem_Publish_cases [OF w(2), of ?e] w(3) assms(3) by simp
  note p1 = mem_Publish_open [OF w(2,3) q1(1)]
  then obtain q2 where q2: "mem_Publish ?e q1 = Ret (None, q2)"
    using mem_Publish_cases [of q1 ?e] q1(2) assms(3) by simp
  note p2 = mem_Publish_open [OF _ _ q2]
  define c1 where "c1 = x1\<lparr>mq_obj := q1\<rparr>"
  have m: "mq x1 = memory_queue" "mq_obj x1 = ?q" "sessions x1 = (sessions (coord a))(i \<mapsto> accepted_session s p n now)"
    using w(1) by (simp_all add: x1_def server_simps)
  have 1: "publish_event ?e x1 = Ret c1" using m q1(1) by (simp add: publish_event_def c1_def)
  have s1: "sessions c1 i = Some (accepted_session s p n now)" "mq c1 = memory_queue" "mq_obj c1 = q1"
    using m by (simp_all add: c1_def)
  have "Username (accepted_session s p n now) = Username s" by (simp add: accepted_session_def)
  with s1 q2 obtain c2 where 2: "submit_commit i p n now c1 = Ret c2" "mq_obj c2 = q2"
    by (simp add: submit_commit_def publish_event_def server_simps)
  have "submit_commit i p n now (coord a) = Ret c1" using 1 s by (simp add: submit_commit_def x1_def)
  moreover have "handleSubmit i p ts now (coord a) = Ret (None, c1)" using h 1 by (simp add: x1_def)
  moreover have "mq_pending (mq_obj c2) = mq_pending ?q @ [?e, ?e]" using p1 p2 2(2) by simp
  ultimately show ?thesis using 2(1) by blast
qed

theorem concurrent_duplicate_counted_twice_witness:
  "\<exists>(a :: mem_app) n c1 c2. handleSubmit ''01'' submit1 minute1 minute1 (coord a) = Ret (None, c1)
    \<and> submit_commit ''01'' submit1 n minute1 c1 = Ret c2 \<and> length (mq_pending (mq_obj c2)) = 2"
proof -
  obtain a where a: "wired a" "sessions (coord a) ''01'' = Some bob_session" "mq (coord a) = memory_queue"
    "mq_obj (coord a) = NewMemoryQueue 4" by (rule sample_ticked) blast
  have l: "mq_pending (mq_obj (coord a)) = []" "ccap (mq_ch (mq_obj (coord a))) = 4"
    using a(4) by (simp_all add: NewMemoryQueue_def make_chan_def mq_pending_def)
  with concurrent_duplicate_counted_twice [OF a(1) submit1_verdict [OF a(2)], of minute1 minute1]
  obtain n c1 c2 where "handleSubmit ''01'' submit1 minute1 minute1 (coord a) = Ret (None, c1)"
    "submit_commit ''01'' submit1 n minute1 c1 = Ret c2" "length (mq_pending (mq_obj c2)) = 2" by auto
  then show ?thesis by blast
qed

end
